(* ===== verification/Prelude.thy ===== *)
theory Prelude
  imports Complex_Main "HOL-Library.Word" "HOL-Library.Multiset"
begin

text \<open>
  Shared vocabulary of the TLShub-eBPF development: the machine integer types of the C
  sources, byte images of C objects on the little-endian target of the Makefiles
  (\<^verbatim>\<open>-D__TARGET_ARCH_x86_64\<close>), the byte-order function \<^verbatim>\<open>htons\<close>, the ways a C function can
  end, and the generic list lemmas the component theories share.
\<close>

section \<open>Machine integers and outcomes\<close>

type_synonym byte = "8 word"
type_synonym u16 = "16 word"
type_synonym u32 = "32 word"
type_synonym u64 = "64 word"
type_synonym ptr = nat

abbreviation (input) NULL :: ptr where "NULL \<equiv> 0"

text \<open>
  How a C function ends, when it ends: it returns a value, the process calls \<^verbatim>\<open>exit\<close>, or the
  code performs an access that is undefined in C (a null dereference, a write past an
  array). A function that may also never return has an \<open>option\<close> type: \<open>None\<close> stands for a
  call that blocks or loops for ever.
\<close>

datatype 'a outcome = Ret 'a | Exit int | Fault

text \<open>One step after another; the second one runs only if the first returned.\<close>

fun and_then :: "'a outcome \<Rightarrow> ('a \<Rightarrow> 'b outcome) \<Rightarrow> 'b outcome" where
  "and_then (Ret x) f = f x"
| "and_then (Exit e) f = Exit e"
| "and_then Fault f = Fault"

lemma and_then_Ret: "and_then m f = Ret y \<longleftrightarrow> (\<exists>x. m = Ret x \<and> f x = Ret y)"
  by (cases m) auto

named_theorems layout \<open>offsets and sizes of the message images\<close>
named_theorems balance \<open>effect of events on the resource balances\<close>

section \<open>Little-endian images\<close>

fun le_bytes :: "nat \<Rightarrow> nat \<Rightarrow> byte list" where
  "le_bytes 0 x = []"
| "le_bytes (Suc n) x = of_nat (x mod 256) # le_bytes n (x div 256)"

fun le_val :: "byte list \<Rightarrow> nat" where
  "le_val [] = 0"
| "le_val (b # bs) = unat b + 256 * le_val bs"

lemma unat_byte_less: "unat (b :: byte) < 256"
  using unsigned_less [of b, where ?'a = nat] by simp

lemma unat_u16_less: "unat (x :: u16) < 65536"
  using unsigned_less [of x, where ?'a = nat] by simp

lemma unat_u32_less: "unat (x :: u32) < 4294967296"
  using unsigned_less [of x, where ?'a = nat] by simp

lemma unat_u64_less: "unat (x :: u64) < 18446744073709551616"
  using unsigned_less [of x, where ?'a = nat] by simp

lemma sint_u32_small:
  assumes "unat (x :: u32) < 2147483648"
  shows "sint x = int (unat x)"
proof -
  have u: "int (unat x) = uint x" by (rule uint_nat [symmetric])
  then have "uint x < 2147483648" using assms by linarith
  then have "uint x div 2 ^ 31 = 0" using u by simp
  then have "\<not> bit (uint x) 31" by (simp add: bit_iff_odd)
  then have "signed_take_bit 31 (uint x) = take_bit 31 (uint x)" by (rule signed_take_bit_eq_if_positive)
  also have "\<dots> = uint x" using \<open>uint x < 2147483648\<close> u by (simp add: take_bit_int_eq_self)
  finally show ?thesis using u by (simp add: sint_uint)
qed

lemma sint_u64_small:
  assumes "unat (x :: u64) < 9223372036854775808"
  shows "sint x = int (unat x)"
proof -
  have u: "int (unat x) = uint x" by (rule uint_nat [symmetric])
  then have "uint x < 9223372036854775808" using assms by linarith
  then have "uint x div 2 ^ 63 = 0" using u by simp
  then have "\<not> bit (uint x) 63" by (simp add: bit_iff_odd)
  then have "signed_take_bit 63 (uint x) = take_bit 63 (uint x)" by (rule signed_take_bit_eq_if_positive)
  also have "\<dots> = uint x" using \<open>uint x < 9223372036854775808\<close> u by (simp add: take_bit_int_eq_self)
  finally show ?thesis using u by (simp add: sint_uint)
qed

lemma of_nat_u64_le_iff:
  assumes "a < 18446744073709551616" and "b < 18446744073709551616"
  shows "(of_nat a :: u64) \<le> of_nat b \<longleftrightarrow> a \<le> b"
  using assms by (simp add: word_le_nat_alt unat_of_nat take_bit_nat_def)

lemma unat_Suc_u32:
  assumes "x < y"
  shows "unat ((x :: u32) + 1) = Suc (unat x)"
proof -
  have "unat x < unat y" using assms by (simp add: word_less_nat_alt)
  then have "Suc (unat x) < 4294967296" using unat_u32_less [of y] by linarith
  moreover have "x + 1 = of_nat (Suc (unat x))" by simp
  ultimately show ?thesis by (simp only: unat_of_nat) (simp add: take_bit_nat_def)
qed

lemma unat_Suc_u64:
  assumes "Suc (unat (x :: u64)) < 18446744073709551616"
  shows "unat (x + 1) = Suc (unat x)"
proof -
  have "x + 1 = of_nat (Suc (unat x))" by simp
  with assms show ?thesis by (simp only: unat_of_nat) (simp add: take_bit_nat_def)
qed

lemma unat_pred_u32:
  assumes "0 < x"
  shows "unat ((x :: u32) - 1) = unat x - 1"
proof -
  have "0 < unat x" using assms by (simp add: word_less_nat_alt)
  then have "x - 1 = of_nat (unat x - 1)" by (simp add: of_nat_diff)
  moreover have "unat x - 1 < 4294967296" using unat_u32_less [of x] by linarith
  ultimately show ?thesis by (simp only: unat_of_nat) (simp add: take_bit_nat_def)
qed

lemma length_le_bytes [simp]: "length (le_bytes n x) = n"
  by (induction n arbitrary: x) auto

lemma unat_of_nat_byte [simp]: "unat (of_nat (x mod 256) :: byte) = x mod 256"
  by (simp add: unat_of_nat)

lemma le_val_le_bytes: "le_val (le_bytes n x) = x mod 256 ^ n"
  by (induction n arbitrary: x) (simp_all add: mod_mult2_eq mult.commute)

lemma le_val_less: "le_val bs < 256 ^ length bs"
proof (induction bs)
  case Nil
  show ?case by simp
next
  case (Cons b bs)
  have "unat b < 256" by (rule unat_byte_less)
  with Cons show ?case by simp
qed

lemma le_bytes_le_val: "le_bytes (length bs) (le_val bs) = bs"
proof (induction bs)
  case Nil
  show ?case by simp
next
  case (Cons b bs)
  have "unat b < 256" by (rule unat_byte_less)
  with Cons show ?case by simp
qed

definition le16 :: "u16 \<Rightarrow> byte list" where
  "le16 v = le_bytes 2 (unat v)"

definition le32 :: "u32 \<Rightarrow> byte list" where
  "le32 v = le_bytes 4 (unat v)"

lemma length_le16 [simp]: "length (le16 v) = 2"
  by (simp add: le16_def)

lemma le16_two: "le16 v = [of_nat (unat v mod 256), of_nat (unat v div 256 mod 256)]"
  by (simp add: le16_def numeral_2_eq_2)

lemma length_le32 [simp]: "length (le32 v) = 4"
  by (simp add: le32_def)

lemma le_val_le16 [simp]: "le_val (le16 v) = unat v"
  using unat_u16_less [of v] by (simp add: le16_def le_val_le_bytes)

lemma le_val_le32 [simp]: "le_val (le32 v) = unat v"
  using unat_u32_less [of v] by (simp add: le32_def le_val_le_bytes)

section \<open>Network byte order\<close>

text \<open>\<^verbatim>\<open>htons\<close> on a little-endian machine: the two bytes change places.\<close>

definition htons :: "u16 \<Rightarrow> u16" where
  "htons x = of_nat (256 * (unat x mod 256) + unat x div 256)"

lemma unat_htons: "unat (htons x) = 256 * (unat x mod 256) + unat x div 256"
proof -
  have "unat x < 65536" by (rule unat_u16_less)
  then have "256 * (unat x mod 256) + unat x div 256 < 65536" by linarith
  then show ?thesis by (simp add: htons_def unat_of_nat del: of_nat_add of_nat_mult)
qed

lemma htons_htons [simp]: "htons (htons x) = x"
proof -
  have "unat x < 65536" by (rule unat_u16_less)
  then have "unat (htons (htons x)) = unat x" by (simp add: unat_htons)
  then show ?thesis by (rule unsigned_word_eqI)
qed

lemma le16_htons: "le16 (htons x) = [of_nat (unat x div 256), of_nat (unat x mod 256)]"
proof -
  have "unat x < 65536" by (rule unat_u16_less)
  then show ?thesis by (simp add: le16_def unat_htons numeral_2_eq_2)
qed

section \<open>Writing into a memory image\<close>

text \<open>\<open>put off bs mem\<close> is \<^verbatim>\<open>memcpy(mem + off, bs, length bs)\<close> inside an object.\<close>

definition put :: "nat \<Rightarrow> byte list \<Rightarrow> byte list \<Rightarrow> byte list" where
  "put off bs mem = take off mem @ bs @ drop (off + length bs) mem"

definition bytes_at :: "nat \<Rightarrow> nat \<Rightarrow> byte list \<Rightarrow> byte list" where
  "bytes_at off n mem = take n (drop off mem)"

lemma length_put [simp]: "off + length bs \<le> length mem \<Longrightarrow> length (put off bs mem) = length mem"
  by (simp add: put_def)

lemma bytes_at_put_same:
  "off \<le> length mem \<Longrightarrow> n = length bs \<Longrightarrow> bytes_at off n (put off bs mem) = bs"
  by (simp add: put_def bytes_at_def)

lemma bytes_at_put_other:
  assumes "off + length bs \<le> length mem" and "o' + n \<le> off \<or> off + length bs \<le> o'"
  shows "bytes_at o' n (put off bs mem) = bytes_at o' n mem"
proof (rule nth_equalityI)
  show "length (bytes_at o' n (put off bs mem)) = length (bytes_at o' n mem)"
    using assms(1) by (simp add: bytes_at_def)
  fix i assume "i < length (bytes_at o' n (put off bs mem))"
  then have i: "i < n" "o' + i < length mem"
    using assms(1) by (auto simp: bytes_at_def)
  with assms show "bytes_at o' n (put off bs mem) ! i = bytes_at o' n mem ! i"
    by (auto simp: bytes_at_def put_def nth_append nth_drop)
qed

section \<open>Runs of partial steps\<close>

text \<open>
  A component is driven by a list of calls; a call that does not come back to its caller
  (the process ends, or the call never returns) ends the run.
\<close>

fun run_steps :: "('c \<Rightarrow> 's \<Rightarrow> 's option) \<Rightarrow> 'c list \<Rightarrow> 's \<Rightarrow> 's option" where
  "run_steps step [] s = Some s"
| "run_steps step (c # cs) s = (case step c s of None \<Rightarrow> None | Some s' \<Rightarrow> run_steps step cs s')"

lemma run_steps_append:
  "run_steps step (cs @ ds) s = Option.bind (run_steps step cs s) (run_steps step ds)"
  by (induction cs arbitrary: s) (auto split: option.splits)

text \<open>
  The contract of a component with a state invariant: no operation breaks it. The clients of
  the contract are the runs.
\<close>

locale invariant_steps =
  fixes step :: "'c \<Rightarrow> 's \<Rightarrow> 's option"
    and inv :: "'s \<Rightarrow> bool"
  assumes step_inv: "inv s \<Longrightarrow> step c s = Some s' \<Longrightarrow> inv s'"
begin

lemma run_inv: "inv s \<Longrightarrow> run_steps step cs s = Some s' \<Longrightarrow> inv s'"
proof (induction cs arbitrary: s)
  case Nil
  then show ?case by simp
next
  case (Cons c cs)
  from Cons.prems(2) obtain t where t: "step c s = Some t" and "run_steps step cs t = Some s'"
    by (auto split: option.splits)
  moreover have "inv t" using Cons.prems(1) t by (rule step_inv)
  ultimately show ?case using Cons.IH by blast
qed

lemma run_inv_prefix:
  assumes "inv s" and "run_steps step (cs @ ds) s = Some s'"
  shows "\<exists>t. run_steps step cs s = Some t \<and> inv t"
  using assms run_inv by (auto simp: run_steps_append bind_eq_Some_conv)

end

section \<open>Generic list lemmas\<close>

lemma take_replicate_append [simp]: "length xs \<le> n \<Longrightarrow> take n (xs @ replicate (n - length xs) z) = xs @ replicate (n - length xs) z"
  by simp

lemma takeWhile_append_stop: "(\<forall>x \<in> set xs. P x) \<Longrightarrow> \<not> P y \<Longrightarrow> takeWhile P (xs @ y # ys) = xs"
  by (induction xs) auto

end
