(* ===== verification/Posix.thy ===== *)
theory Posix
  imports Prelude
begin

text \<open>
  The operating system as the C sources see it. The kernel, the C allocator and the clock
  are not part of the repository, so they are a parameter: a record \<open>os\<close> of functions, each
  of which answers one system call from the history of everything that happened before.
  A model of a C function takes this record, extends the history with the calls it makes,
  and is proved correct for every \<open>os\<close>. The history doubles as the observable behaviour: the
  messages sent, the descriptors opened and closed, the memory allocated and freed.
\<close>

section \<open>Calls, answers and histories\<close>

record sockaddr_nl =
  nl_family :: nat
  nl_pid :: u32
  nl_groups :: u32

record timespec =
  tv_sec :: int
  tv_nsec :: int

text \<open>
  The answer of a receive call. \<open>IoBlock\<close>: the call never returns. \<open>IoErr\<close>: it returns -1
  and writes nothing. \<open>IoData src bs\<close>: a datagram \<open>bs\<close> from \<open>src\<close>; the call returns the number of
  bytes stored, which is 0 for an empty datagram.
\<close>

datatype io_result = IoBlock | IoErr | IoData sockaddr_nl "byte list"

datatype clockid = CLOCK_REALTIME | CLOCK_MONOTONIC

text \<open>The objects of libbpf that a program acquires and releases.\<close>

datatype bpf_resource = BpfObject | BpfLink | PerfBuffer

text \<open>
  Answers on stream sockets. Each blocking call has a case for never returning and, as the callers look at
  \<^verbatim>\<open>errno\<close>, separate cases for a call interrupted by a signal (\<^verbatim>\<open>EINTR\<close>) and for any other error.
\<close>

datatype send_answer = SendBlock | SendErr | SendEintr | SendOk nat

datatype recv_answer = RecvBlock | RecvErr | RecvEintr | RecvOk "byte list"

datatype poll_answer = PollErr | PollEintr | PollTimeout | PollReady

datatype accept_answer = AcceptBlock | AcceptErr | AcceptEintr | AcceptOk nat

datatype shut_how = SHUT_WR | SHUT_RDWR

datatype event =
    Socket int
  | Bind int sockaddr_nl int
  | Close int
  | Malloc nat ptr
  | Free ptr
  | SendTo int sockaddr_nl "byte list" int
  | RecvFrom int io_result
  | Clock clockid timespec
  | SetSockOpt int string "byte list" int
  | SslCtxNew bool
  | SslCtxFree
  | SslNew bool
  | SslFree
  | SslExport string nat int
  | FOpen string bool
  | FWrite string
  | FClose
  | BpfAcquire bpf_resource
  | BpfRelease bpf_resource
  | TcpConnect int u32 u16 int
  | TcpBind int u16 int
  | TcpListen int nat int
  | TcpAccept int accept_answer
  | TcpSend int "byte list" send_answer
  | TcpRecv int nat recv_answer
  | TcpPoll int poll_answer
  | TcpShutdown int shut_how
  | GetRusage

type_synonym hist = "event list"

record os =
  os_socket :: "hist \<Rightarrow> int"
  os_bind :: "hist \<Rightarrow> int \<Rightarrow> sockaddr_nl \<Rightarrow> int"
  os_malloc :: "hist \<Rightarrow> nat \<Rightarrow> ptr"
  os_sendto :: "hist \<Rightarrow> int \<Rightarrow> sockaddr_nl \<Rightarrow> byte list \<Rightarrow> int"
  os_recvfrom :: "hist \<Rightarrow> int \<Rightarrow> io_result"
  os_gettid :: "hist \<Rightarrow> u32"
  os_clock :: "hist \<Rightarrow> clockid \<Rightarrow> timespec"
  os_setsockopt :: "hist \<Rightarrow> int \<Rightarrow> string \<Rightarrow> byte list \<Rightarrow> int"
  os_stack :: "hist \<Rightarrow> nat \<Rightarrow> byte"
  os_fopen :: "hist \<Rightarrow> string \<Rightarrow> string option"
  os_fcreate :: "hist \<Rightarrow> string \<Rightarrow> bool"

text \<open>
  \<open>os_stack h i\<close> is the byte that an uninitialised stack object holds at offset \<open>i\<close>: C leaves
  it indeterminate, so it too is chosen by the environment. \<open>os_fopen h path\<close> opens a file for reading:
  \<open>None\<close> is a failure, \<open>Some s\<close> the contents; \<open>os_fcreate h path\<close> says whether a file can be opened for writing.
\<close>

definition uninit :: "os \<Rightarrow> hist \<Rightarrow> nat \<Rightarrow> byte list" where
  "uninit os h n = map (os_stack os h) [0..<n]"

lemma length_uninit [simp]: "length (uninit os h n) = n"
  by (simp add: uninit_def)

section \<open>Receiving into a zeroed buffer\<close>

text \<open>
  The sources clear the receive buffer, call \<^verbatim>\<open>recvfrom\<close> and look at the return value and the
  buffer. \<open>recv_ret\<close> is the value returned, \<open>recv_buf n\<close> the buffer afterwards.
\<close>

fun recv_ret :: "nat \<Rightarrow> io_result \<Rightarrow> int" where
  "recv_ret n (IoData src bs) = int (min n (length bs))"
| "recv_ret n _ = -1"

fun recv_buf :: "nat \<Rightarrow> io_result \<Rightarrow> byte list" where
  "recv_buf n (IoData src bs) = take n bs @ replicate (n - length bs) 0"
| "recv_buf n _ = replicate n 0"

fun recv_src :: "sockaddr_nl \<Rightarrow> io_result \<Rightarrow> sockaddr_nl" where
  "recv_src a (IoData src bs) = src"
| "recv_src a _ = a"

lemma length_recv_buf [simp]: "length (recv_buf n r) = n"
  by (cases r) auto

lemma recv_ret_0_iff: "0 < n \<Longrightarrow> recv_ret n r = 0 \<longleftrightarrow> (\<exists>src. r = IoData src [])"
  by (cases r) (auto simp: min_def split: if_splits)

section \<open>Resource balances\<close>

text \<open>
  How many more times a descriptor was opened than closed, and a block allocated than
  freed, along a history. A failed \<^verbatim>\<open>socket\<close> or \<^verbatim>\<open>malloc\<close> opens nothing.
\<close>

fun fd_delta :: "event \<Rightarrow> int \<Rightarrow> int" where
  "fd_delta (Socket fd) x = (if fd = x \<and> fd \<noteq> -1 then 1 else 0)"
| "fd_delta (TcpAccept s (AcceptOk fd)) x = (if int fd = x then 1 else 0)"
| "fd_delta (Close fd) x = (if fd = x then -1 else 0)"
| "fd_delta _ x = 0"

fun mem_delta :: "event \<Rightarrow> ptr \<Rightarrow> int" where
  "mem_delta (Malloc n p) x = (if p = x \<and> p \<noteq> NULL then 1 else 0)"
| "mem_delta (Free p) x = (if p = x \<and> p \<noteq> NULL then -1 else 0)"
| "mem_delta _ x = 0"

definition fd_balance :: "hist \<Rightarrow> int \<Rightarrow> int" where
  "fd_balance h x = sum_list (map (\<lambda>e. fd_delta e x) h)"

definition mem_balance :: "hist \<Rightarrow> ptr \<Rightarrow> int" where
  "mem_balance h x = sum_list (map (\<lambda>e. mem_delta e x) h)"

lemma fd_balance_Nil [balance]: "fd_balance [] x = 0"
  by (simp add: fd_balance_def)

lemma fd_balance_Cons [balance]: "fd_balance (e # h) x = fd_delta e x + fd_balance h x"
  by (simp add: fd_balance_def)

lemma fd_balance_append [balance]: "fd_balance (h @ h') x = fd_balance h x + fd_balance h' x"
  by (simp add: fd_balance_def)

lemma mem_balance_Nil [balance]: "mem_balance [] x = 0"
  by (simp add: mem_balance_def)

lemma mem_balance_Cons [balance]: "mem_balance (e # h) x = mem_delta e x + mem_balance h x"
  by (simp add: mem_balance_def)

lemma mem_balance_append [balance]: "mem_balance (h @ h') x = mem_balance h x + mem_balance h' x"
  by (simp add: mem_balance_def)

text \<open>How many streams are open.\<close>

fun file_delta :: "event \<Rightarrow> int" where
  "file_delta (FOpen p ok) = (if ok then 1 else 0)"
| "file_delta FClose = -1"
| "file_delta _ = 0"

definition file_balance :: "hist \<Rightarrow> int" where
  "file_balance h = sum_list (map file_delta h)"

lemma file_balance_simps [balance]:
  "file_balance [] = 0" "file_balance (e # h) = file_delta e + file_balance h"
  "file_balance (h @ h') = file_balance h + file_balance h'"
  by (simp_all add: file_balance_def)

text \<open>How many objects of a kind libbpf has handed out and not got back.\<close>

fun bpf_delta :: "event \<Rightarrow> bpf_resource \<Rightarrow> int" where
  "bpf_delta (BpfAcquire r) x = (if r = x then 1 else 0)"
| "bpf_delta (BpfRelease r) x = (if r = x then -1 else 0)"
| "bpf_delta _ x = 0"

definition bpf_balance :: "hist \<Rightarrow> bpf_resource \<Rightarrow> int" where
  "bpf_balance h x = sum_list (map (\<lambda>e. bpf_delta e x) h)"

lemma bpf_balance_simps [balance]:
  "bpf_balance [] x = 0" "bpf_balance (e # h) x = bpf_delta e x + bpf_balance h x"
  "bpf_balance (h @ h') x = bpf_balance h x + bpf_balance h' x"
  by (simp_all add: bpf_balance_def)

text \<open>\<open>extends h h'\<close>: the run that led from \<open>h\<close> to \<open>h'\<close> only added events.\<close>

definition extends :: "hist \<Rightarrow> hist \<Rightarrow> bool" where
  "extends h h' \<longleftrightarrow> (\<exists>es. h' = h @ es)"

lemma extends_refl [simp, intro]: "extends h h"
  by (simp add: extends_def)

lemma extends_trans [trans]: "extends h h' \<Longrightarrow> extends h' h'' \<Longrightarrow> extends h h''"
  by (auto simp: extends_def)

lemma extends_append [simp, intro]: "extends h (h @ es)"
  by (simp add: extends_def)

text \<open>\<open>neutral h h'\<close>: between \<open>h\<close> and \<open>h'\<close> every descriptor opened was closed and every block freed.\<close>

definition neutral :: "hist \<Rightarrow> hist \<Rightarrow> bool" where
  "neutral h h' \<longleftrightarrow> fd_balance h' = fd_balance h \<and> mem_balance h' = mem_balance h"

lemma neutral_refl [simp, intro]: "neutral h h"
  by (simp add: neutral_def)

lemma neutral_trans [trans]: "neutral h h' \<Longrightarrow> neutral h' h'' \<Longrightarrow> neutral h h''"
  by (simp add: neutral_def)

lemma neutral_snoc:
  assumes "\<And>x. fd_delta e x = 0" and "\<And>x. mem_delta e x = 0"
  shows "neutral h (h @ [e])"
  using assms by (simp add: neutral_def fun_eq_iff balance)

lemma neutral_recv [simp, intro]: "neutral h (h @ [RecvFrom fd r])"
  by (rule neutral_snoc) simp_all

section \<open>An environment to run against\<close>

text \<open>
  A concrete environment for the witnesses: descriptor 5, allocation succeeds, and every receive is answered with the
  same \<open>r\<close>.
\<close>

definition const_os :: "io_result \<Rightarrow> os" where
  "const_os r =
     \<lparr>os_socket = (\<lambda>h. 5), os_bind = (\<lambda>h fd a. 0), os_malloc = (\<lambda>h n. 4096),
      os_sendto = (\<lambda>h fd a bs. 32), os_recvfrom = (\<lambda>h fd. r),
      os_gettid = (\<lambda>h. 77), os_clock = (\<lambda>h c. \<lparr>tv_sec = 10, tv_nsec = 5\<rparr>),
      os_setsockopt = (\<lambda>h fd opt bs. 0), os_stack = (\<lambda>h i. 165), os_fopen = (\<lambda>h p. None),
      os_fcreate = (\<lambda>h p. True)\<rparr>"

lemma const_os_simps [simp]:
  "os_socket (const_os r) h = 5" "os_bind (const_os r) h fd a = 0" "os_malloc (const_os r) h n = 4096"
  "os_sendto (const_os r) h fd a bs = 32" "os_recvfrom (const_os r) h fd = r"
  "os_gettid (const_os r) h = 77" "os_setsockopt (const_os r) h fd opt bs = 0"
  by (simp_all add: const_os_def)

end
