(* ===== verification/Netlink_Msg.thy ===== *)
theory Netlink_Msg
  imports Posix
begin

text \<open>
  The TLShub Netlink protocol as both user-space clients of the repository speak it
  (\<^verbatim>\<open>tlshub-api/tlshub.c\<close> and \<^verbatim>\<open>capture/src/tlshub_client.c\<close>): the request \<^verbatim>\<open>struct my_msg\<close>, the
  reply \<^verbatim>\<open>user_msg_info\<close>, the key \<^verbatim>\<open>struct key_back\<close> inside a reply, all as byte images, and the
  loop that waits for a decisive reply.
\<close>

section \<open>Requests\<close>

datatype tls_opcode = TLS_SERVICE_INIT | TLS_SERVICE_START | TLS_SERVICE_FETCH

fun opcode_byte :: "tls_opcode \<Rightarrow> byte" where
  "opcode_byte TLS_SERVICE_INIT = 0"
| "opcode_byte TLS_SERVICE_START = 1"
| "opcode_byte TLS_SERVICE_FETCH = 2"

lemma opcode_byte_inj [simp]: "opcode_byte a = opcode_byte b \<longleftrightarrow> a = b"
  by (cases a; cases b) simp_all

text \<open>
  \<^verbatim>\<open>struct my_msg\<close>: two 32-bit addresses, two 16-bit ports, the opcode, the server flag and two
  bytes of padding. The record holds the values of the fields; an image is the 16 bytes the
  compiler lays out.
\<close>

record my_msg =
  client_pod_ip :: u32
  server_pod_ip :: u32
  client_pod_port :: u16
  server_pod_port :: u16
  opcode :: byte
  server :: byte

definition my_msg_size :: nat where
  [layout]: "my_msg_size = 16"

definition set_client_pod_ip :: "u32 \<Rightarrow> byte list \<Rightarrow> byte list" where
  "set_client_pod_ip v m = put 0 (le32 v) m"

definition set_server_pod_ip :: "u32 \<Rightarrow> byte list \<Rightarrow> byte list" where
  "set_server_pod_ip v m = put 4 (le32 v) m"

definition set_client_pod_port :: "u16 \<Rightarrow> byte list \<Rightarrow> byte list" where
  "set_client_pod_port v m = put 8 (le16 v) m"

definition set_server_pod_port :: "u16 \<Rightarrow> byte list \<Rightarrow> byte list" where
  "set_server_pod_port v m = put 10 (le16 v) m"

definition set_opcode :: "tls_opcode \<Rightarrow> byte list \<Rightarrow> byte list" where
  "set_opcode v m = put 12 [opcode_byte v] m"

definition set_server :: "bool \<Rightarrow> byte list \<Rightarrow> byte list" where
  "set_server v m = put 13 [if v then 1 else 0] m"

lemmas set_field_defs =
  set_client_pod_ip_def set_server_pod_ip_def set_client_pod_port_def
  set_server_pod_port_def set_opcode_def set_server_def

text \<open>How the receiver of a request reads the image.\<close>

definition read_my_msg :: "byte list \<Rightarrow> my_msg" where
  "read_my_msg m =
     \<lparr>client_pod_ip = of_nat (le_val (bytes_at 0 4 m)), server_pod_ip = of_nat (le_val (bytes_at 4 4 m)),
      client_pod_port = of_nat (le_val (bytes_at 8 2 m)), server_pod_port = of_nat (le_val (bytes_at 10 2 m)),
      opcode = hd (bytes_at 12 1 m @ [0]), server = hd (bytes_at 13 1 m @ [0])\<rparr>"

lemma length_set_fields [simp]:
  "length m = 16 \<Longrightarrow> length (set_client_pod_ip ip m) = 16"
  "length m = 16 \<Longrightarrow> length (set_server_pod_ip ip m) = 16"
  "length m = 16 \<Longrightarrow> length (set_client_pod_port p m) = 16"
  "length m = 16 \<Longrightarrow> length (set_server_pod_port p m) = 16"
  "length m = 16 \<Longrightarrow> length (set_opcode oc m) = 16"
  "length m = 16 \<Longrightarrow> length (set_server b m) = 16"
  by (simp_all add: set_field_defs)

text \<open>Every setter is read back, and none disturbs another field.\<close>

lemma read_set_fields [simp]:
  "length m = 16 \<Longrightarrow> read_my_msg (set_client_pod_ip ip m) = (read_my_msg m)\<lparr>client_pod_ip := ip\<rparr>"
  "length m = 16 \<Longrightarrow> read_my_msg (set_server_pod_ip ip m) = (read_my_msg m)\<lparr>server_pod_ip := ip\<rparr>"
  "length m = 16 \<Longrightarrow> read_my_msg (set_client_pod_port p m) = (read_my_msg m)\<lparr>client_pod_port := p\<rparr>"
  "length m = 16 \<Longrightarrow> read_my_msg (set_server_pod_port p m) = (read_my_msg m)\<lparr>server_pod_port := p\<rparr>"
  "length m = 16 \<Longrightarrow> read_my_msg (set_opcode oc m) = (read_my_msg m)\<lparr>opcode := opcode_byte oc\<rparr>"
  "length m = 16 \<Longrightarrow> read_my_msg (set_server b m) = (read_my_msg m)\<lparr>server := (if b then 1 else 0)\<rparr>"
  by (simp_all add: set_field_defs read_my_msg_def bytes_at_put_same bytes_at_put_other)

record nlmsghdr =
  nlmsg_len :: u32
  nlmsg_type :: u16
  nlmsg_flags :: u16
  nlmsg_seq :: u32
  nlmsg_pid :: u32

definition nlmsghdr_bytes :: "nlmsghdr \<Rightarrow> byte list" where
  "nlmsghdr_bytes n =
     le32 (nlmsg_len n) @ le16 (nlmsg_type n) @ le16 (nlmsg_flags n) @ le32 (nlmsg_seq n) @ le32 (nlmsg_pid n)"

lemma length_nlmsghdr_bytes [simp]: "length (nlmsghdr_bytes n) = 16"
  by (simp add: nlmsghdr_bytes_def)

text \<open>\<^verbatim>\<open>NLMSG_SPACE(MAX_PAYLOAD)\<close>, with \<^verbatim>\<open>MAX_PAYLOAD\<close> 125: header and payload rounded up to 4.\<close>

definition nlmsg_space :: nat where
  [layout]: "nlmsg_space = 144"

text \<open>The bytes of a request on the wire: header, then payload.\<close>

definition request_bytes :: "nlmsghdr \<Rightarrow> byte list \<Rightarrow> byte list" where
  "request_bytes n m = nlmsghdr_bytes n @ m"

definition request_payload :: "byte list \<Rightarrow> byte list" where
  "request_payload bs = drop 16 bs"

lemma request_payload_bytes [simp]: "request_payload (request_bytes n m) = m"
  by (simp add: request_payload_def request_bytes_def)

lemma request_bytes_neq_Nil [simp]: "request_bytes n m \<noteq> []"
  by (simp add: request_bytes_def flip: length_greater_0_conv)

lemma length_request_bytes [simp]: "length (request_bytes n m) = 16 + length m"
  by (simp add: request_bytes_def)

section \<open>Addresses and headers the clients use\<close>

definition zero_addr :: sockaddr_nl where
  "zero_addr = \<lparr>nl_family = 0, nl_pid = 0, nl_groups = 0\<rparr>"

definition kernel_addr :: sockaddr_nl where
  "kernel_addr = \<lparr>nl_family = 16, nl_pid = 0, nl_groups = 0\<rparr>"

definition bind_addr :: "u32 \<Rightarrow> sockaddr_nl" where
  "bind_addr tid = \<lparr>nl_family = 16, nl_pid = tid, nl_groups = 0\<rparr>"

definition new_hdr :: nlmsghdr where
  "new_hdr = \<lparr>nlmsg_len = 32, nlmsg_type = 0, nlmsg_flags = 0, nlmsg_seq = 0, nlmsg_pid = 0\<rparr>"

section \<open>Replies\<close>

text \<open>
  \<^verbatim>\<open>user_msg_info\<close>: a 16-byte header, the message type at offset 16, 125 bytes of message,
  rounded up to 144 bytes.
\<close>

definition user_msg_info_size :: nat where
  [layout]: "user_msg_info_size = 144"

definition u_msg_type :: "byte list \<Rightarrow> byte" where
  "u_msg_type u = hd (bytes_at 16 1 u @ [0])"

definition u_msg :: "byte list \<Rightarrow> byte list" where
  "u_msg u = bytes_at 17 125 u"

record key_back =
  status :: int
  masterkey :: "byte list"

text \<open>\<^verbatim>\<open>memcpy(&key, u_info.msg, sizeof(struct key_back))\<close>: a 32-bit signed status and 32 key bytes.\<close>

definition read_key_back :: "byte list \<Rightarrow> key_back" where
  "read_key_back bs =
     \<lparr>status = sint (of_nat (le_val (bytes_at 0 4 bs)) :: u32), masterkey = bytes_at 4 32 bs\<rparr>"

definition key_back_bytes :: "u32 \<Rightarrow> byte list \<Rightarrow> byte list" where
  "key_back_bytes st k = le32 st @ k"

lemma read_key_back_bytes:
  "length k = 32 \<Longrightarrow> read_key_back (key_back_bytes st k @ rest) = \<lparr>status = sint st, masterkey = k\<rparr>"
  by (simp add: read_key_back_def key_back_bytes_def bytes_at_def)

lemma length_u_msg [simp]: "length u = 144 \<Longrightarrow> length (u_msg u) = 125"
  by (simp add: u_msg_def bytes_at_def)

lemma bytes_at_replicate: "bytes_at off n (replicate k z) = replicate (min n (k - off)) z"
  by (simp add: bytes_at_def)

lemma le_val_replicate_0 [simp]: "le_val (replicate n 0) = 0"
  by (induction n) auto

lemma read_key_back_zero: "read_key_back (u_msg (replicate 144 0)) = \<lparr>status = 0, masterkey = replicate 32 0\<rparr>"
  by (simp add: read_key_back_def u_msg_def bytes_at_replicate)

lemma u_msg_type_zero: "u_msg_type (replicate 144 0) = 0"
  by (simp add: u_msg_type_def bytes_at_replicate)

end
