(* ===== verification/Netlink_Wait.thy ===== *)
theory Netlink_Wait
  imports Netlink_Msg
begin

text \<open>
  The loop \<^verbatim>\<open>while (1) { memset; recvfrom; if (!ret) ...; switch (u_info.msg_type) ... }\<close> that both
  Netlink clients use to wait for the kernel. The switch is a parameter: \<open>Some v\<close> is a case
  that leaves the loop with value \<open>v\<close>, \<open>None\<close> a case that only logs. The loop is defined as a
  partial function and characterised completely: it returns exactly when some reply is
  decisive and no call before it blocks, and then with the verdict on the first such reply.
\<close>

datatype wait_end = Decided int | RecvZero

partial_function (option) recv_loop ::
  "os \<Rightarrow> int \<Rightarrow> (byte \<Rightarrow> int option) \<Rightarrow> sockaddr_nl \<Rightarrow> hist \<Rightarrow> (wait_end \<times> sockaddr_nl \<times> hist) option"
where
  "recv_loop os fd sw a h =
     (let r = os_recvfrom os h fd; a' = recv_src a r; h' = h @ [RecvFrom fd r] in
      if r = IoBlock then None
      else if recv_ret user_msg_info_size r = 0 then Some (RecvZero, a', h')
      else case sw (u_msg_type (recv_buf user_msg_info_size r)) of
             Some v \<Rightarrow> Some (Decided v, a', h')
           | None \<Rightarrow> recv_loop os fd sw a' h')"

declare recv_loop.simps [code]

section \<open>What one reply decides\<close>

definition verdict :: "(byte \<Rightarrow> int option) \<Rightarrow> io_result \<Rightarrow> wait_end option" where
  "verdict sw r =
     (if recv_ret user_msg_info_size r = 0 then Some RecvZero
      else map_option Decided (sw (u_msg_type (recv_buf user_msg_info_size r))))"

lemma verdict_IoErr: "verdict sw IoErr = map_option Decided (sw 0)"
  by (simp add: verdict_def layout u_msg_type_zero)

lemma verdict_empty [simp]: "verdict sw (IoData src []) = Some RecvZero"
  by (simp add: verdict_def)

text \<open>
  The image of a reply of type \<open>t\<close> with message \<open>m\<close> after the Netlink header \<open>n\<close>, as the kernel lays it out. The header is
  any: the code never reads it.
\<close>

definition reply_bytes :: "nlmsghdr \<Rightarrow> byte \<Rightarrow> byte list \<Rightarrow> byte list" where
  "reply_bytes n t m = nlmsghdr_bytes n @ t # m"

lemma reply_bytes_16: "reply_bytes n t m ! 16 = t" "length (reply_bytes n t m) = 17 + length m"
  by (simp_all add: reply_bytes_def nth_append)

lemma recv_buf_reply_type: "u_msg_type (recv_buf user_msg_info_size (IoData src (reply_bytes n t m))) = t"
  by (simp add: u_msg_type_def reply_bytes_def bytes_at_def layout take_Cons' nth_append)

lemma verdict_reply: "verdict sw (IoData src (reply_bytes n t m)) = map_option Decided (sw t)"
  unfolding verdict_def recv_buf_reply_type
  by (simp add: reply_bytes_def layout min_def)

lemma recv_buf_reply_msg:
  "length m \<le> 125 \<Longrightarrow> u_msg (recv_buf user_msg_info_size (IoData src (reply_bytes n t m))) = m @ replicate (125 - length m) 0"
  by (simp add: u_msg_def bytes_at_def reply_bytes_def layout)

section \<open>The sequence of replies\<close>

fun recv_hist :: "os \<Rightarrow> int \<Rightarrow> nat \<Rightarrow> hist \<Rightarrow> hist" where
  "recv_hist os fd 0 h = h"
| "recv_hist os fd (Suc n) h = recv_hist os fd n (h @ [RecvFrom fd (os_recvfrom os h fd)])"

fun recv_addr :: "os \<Rightarrow> int \<Rightarrow> nat \<Rightarrow> sockaddr_nl \<Rightarrow> hist \<Rightarrow> sockaddr_nl" where
  "recv_addr os fd 0 a h = a"
| "recv_addr os fd (Suc n) a h =
     recv_addr os fd n (recv_src a (os_recvfrom os h fd)) (h @ [RecvFrom fd (os_recvfrom os h fd)])"

definition reply_at :: "os \<Rightarrow> int \<Rightarrow> hist \<Rightarrow> nat \<Rightarrow> io_result" where
  "reply_at os fd h n = os_recvfrom os (recv_hist os fd n h) fd"

lemma reply_at_0 [simp]: "reply_at os fd h 0 = os_recvfrom os h fd"
  by (simp add: reply_at_def)

lemma reply_at_Suc [simp]:
  "reply_at os fd h (Suc n) = reply_at os fd (h @ [RecvFrom fd (os_recvfrom os h fd)]) n"
  by (simp add: reply_at_def)

definition first_decisive :: "os \<Rightarrow> int \<Rightarrow> (byte \<Rightarrow> int option) \<Rightarrow> hist \<Rightarrow> nat \<Rightarrow> wait_end \<Rightarrow> bool" where
  "first_decisive os fd sw h n e \<longleftrightarrow>
     (\<forall>i < n. reply_at os fd h i \<noteq> IoBlock \<and> verdict sw (reply_at os fd h i) = None) \<and>
     reply_at os fd h n \<noteq> IoBlock \<and> verdict sw (reply_at os fd h n) = Some e"

lemma first_decisive_0:
  "first_decisive os fd sw h 0 e \<longleftrightarrow>
     os_recvfrom os h fd \<noteq> IoBlock \<and> verdict sw (os_recvfrom os h fd) = Some e"
  by (simp add: first_decisive_def)

lemma first_decisive_Suc:
  "first_decisive os fd sw h (Suc n) e \<longleftrightarrow>
     os_recvfrom os h fd \<noteq> IoBlock \<and> verdict sw (os_recvfrom os h fd) = None \<and>
     first_decisive os fd sw (h @ [RecvFrom fd (os_recvfrom os h fd)]) n e"
  unfolding first_decisive_def by (auto simp: All_less_Suc2)

lemma first_decisive_unique:
  assumes "first_decisive os fd sw h n e" and "first_decisive os fd sw h n' e'"
  shows "n = n' \<and> e = e'"
  using assms
proof (induction n arbitrary: h n')
  case 0
  then show ?case by (cases n') (auto simp: first_decisive_0 first_decisive_Suc)
next
  case (Suc n)
  then show ?case by (cases n') (auto simp: first_decisive_0 first_decisive_Suc)
qed

section \<open>The loop, characterised\<close>

lemma recv_loop_unfold:
  "recv_loop os fd sw a h =
     (let r = os_recvfrom os h fd; a' = recv_src a r; h' = h @ [RecvFrom fd r] in
      if r = IoBlock then None
      else case verdict sw r of Some e \<Rightarrow> Some (e, a', h') | None \<Rightarrow> recv_loop os fd sw a' h')"
  by (subst recv_loop.simps) (simp add: verdict_def Let_def split: option.splits)

lemma recv_loop_complete:
  "first_decisive os fd sw h n e \<Longrightarrow>
     recv_loop os fd sw a h = Some (e, recv_addr os fd (Suc n) a h, recv_hist os fd (Suc n) h)"
proof (induction n arbitrary: a h)
  case 0
  then show ?case by (subst recv_loop_unfold) (simp add: first_decisive_0 Let_def)
next
  case (Suc n)
  then show ?case by (subst recv_loop_unfold) (simp add: first_decisive_Suc Let_def)
qed

lemma recv_loop_sound:
  assumes "recv_loop os fd sw a h = Some res"
  shows "\<exists>n. first_decisive os fd sw h n (fst res)"
proof (rule recv_loop.raw_induct [where P = "\<lambda>os fd sw a h res. \<exists>n. first_decisive os fd sw h n (fst res)", OF _ assms])
  fix f and os :: os and fd sw a h res
  let ?r = "os_recvfrom os h fd"
  let ?h = "h @ [RecvFrom fd ?r]"
  assume IH: "\<And>(os :: os) fd sw a h res. f os fd sw a h = Some res \<Longrightarrow> \<exists>n. first_decisive os fd sw h n (fst res)"
    and eq: "(let r = os_recvfrom os h fd; a' = recv_src a r; h' = h @ [RecvFrom fd r] in
      if r = IoBlock then None
      else if recv_ret user_msg_info_size r = 0 then Some (RecvZero, a', h')
      else case sw (u_msg_type (recv_buf user_msg_info_size r)) of
             Some v \<Rightarrow> Some (Decided v, a', h')
           | None \<Rightarrow> f os fd sw a' h') = Some res"
  have nb: "?r \<noteq> IoBlock" using eq by (auto simp: Let_def)
  show "\<exists>n. first_decisive os fd sw h n (fst res)"
  proof (cases "verdict sw ?r")
    case None
    with eq nb have "f os fd sw (recv_src a ?r) ?h = Some res"
      by (auto simp: verdict_def Let_def split: if_splits option.splits)
    then obtain n where "first_decisive os fd sw ?h n (fst res)" using IH by blast
    with nb None have "first_decisive os fd sw h (Suc n) (fst res)" by (simp add: first_decisive_Suc)
    then show ?thesis by blast
  next
    case (Some e)
    with eq nb have "fst res = e"
      by (auto simp: verdict_def Let_def split: if_splits option.splits)
    with nb Some have "first_decisive os fd sw h 0 (fst res)" by (simp add: first_decisive_0)
    then show ?thesis by blast
  qed
qed

lemma recv_loop_iff:
  "recv_loop os fd sw a h = Some (e, a', h') \<longleftrightarrow>
     (\<exists>n. first_decisive os fd sw h n e \<and>
        a' = recv_addr os fd (Suc n) a h \<and> h' = recv_hist os fd (Suc n) h)"
  (is "?L \<longleftrightarrow> ?R")
proof
  assume L: ?L
  then obtain n where "first_decisive os fd sw h n e" using recv_loop_sound by fastforce
  with L show ?R using recv_loop_complete [of os fd sw h n e a] by auto
next
  assume ?R
  then show ?L using recv_loop_complete by auto
qed

lemma recv_loop_None_iff:
  "recv_loop os fd sw a h = None \<longleftrightarrow> (\<forall>n e. \<not> first_decisive os fd sw h n e)"
  by (metis not_None_eq prod_cases3 recv_loop_complete recv_loop_iff)

section \<open>Effect on the history\<close>

lemma neutral_recv_hist: "neutral h (recv_hist os fd n h)"
proof (induction n arbitrary: h)
  case 0
  show ?case by simp
next
  case (Suc n)
  have "neutral h (h @ [RecvFrom fd (os_recvfrom os h fd)])" by simp
  also have "neutral \<dots> (recv_hist os fd n (h @ [RecvFrom fd (os_recvfrom os h fd)]))" by (rule Suc)
  finally show ?case by simp
qed

lemma recv_loop_neutral: "recv_loop os fd sw a h = Some (e, a', h') \<Longrightarrow> neutral h h'"
  by (auto simp: recv_loop_iff neutral_recv_hist simp del: recv_hist.simps)

text \<open>
  Only receives on \<open>fd\<close> are added, and when every datagram comes from \<open>k\<close> and the address is
  \<open>k\<close> at the start, it is \<open>k\<close> at the end.
\<close>

lemma recv_hist_events:
  "\<exists>rs. recv_hist os fd n h = h @ map (RecvFrom fd) rs \<and> length rs = n"
proof (induction n arbitrary: h)
  case 0
  show ?case by simp
next
  case (Suc n)
  obtain rs where "recv_hist os fd n (h @ [RecvFrom fd (os_recvfrom os h fd)]) =
      (h @ [RecvFrom fd (os_recvfrom os h fd)]) @ map (RecvFrom fd) rs" and "length rs = n"
    using Suc by blast
  then show ?case by (intro exI [of _ "os_recvfrom os h fd # rs"]) simp
qed

lemma recv_loop_events:
  assumes "recv_loop os fd sw a h = Some (e, a', h')"
  shows "\<exists>rs. h' = h @ map (RecvFrom fd) rs"
  using assms recv_hist_events [of os fd _ h] by (auto simp: recv_loop_iff simp del: recv_hist.simps)

lemma recv_addr_const:
  assumes "\<And>h src bs. os_recvfrom os h fd = IoData src bs \<Longrightarrow> src = k"
  shows "recv_addr os fd n k h = k"
proof (induction n arbitrary: h)
  case 0
  show ?case by simp
next
  case (Suc n)
  have "recv_src k (os_recvfrom os h fd) = k"
    using assms by (cases "os_recvfrom os h fd") auto
  with Suc show ?case by simp
qed

section \<open>A kernel to run against\<close>

text \<open>
  The reply \<open>good_reply\<close> has the type of a completed first handshake and carries a key, so it serves both calls.
\<close>

definition reply_hdr :: "u32 \<Rightarrow> nlmsghdr" where
  "reply_hdr n = \<lparr>nlmsg_len = n, nlmsg_type = 3, nlmsg_flags = 0, nlmsg_seq = 1, nlmsg_pid = 77\<rparr>"

definition good_reply :: io_result where
  "good_reply = IoData kernel_addr (reply_bytes (reply_hdr 53) 1 (key_back_bytes 0 (replicate 32 9)))"

lemma good_reply_simps [simp]:
  "good_reply \<noteq> IoBlock" "good_reply \<noteq> IoErr" "recv_src a good_reply = kernel_addr"
  "verdict sw good_reply = map_option Decided (sw 1)" "recv_ret user_msg_info_size good_reply = 53"
  by (simp_all add: good_reply_def verdict_reply layout) (simp add: reply_bytes_def key_back_bytes_def)

lemma recv_loop_const:
  "r \<noteq> IoBlock \<Longrightarrow> verdict sw r = Some e \<Longrightarrow>
     recv_loop (const_os r) fd sw a h = Some (e, recv_src a r, h @ [RecvFrom fd r])"
  by (subst recv_loop_unfold) simp

text \<open>An environment in which every call before the receive succeeds.\<close>

definition net_up :: "os \<Rightarrow> bool" where
  "net_up os \<longleftrightarrow>
     (\<forall>h. 0 \<le> os_socket os h) \<and> (\<forall>h fd a. os_bind os h fd a = 0) \<and>
     (\<forall>h n. os_malloc os h n \<noteq> NULL) \<and> (\<forall>h fd a bs. os_sendto os h fd a bs \<noteq> 0)"

lemma net_up_const_os [simp]: "net_up (const_os r)"
  by (simp add: net_up_def)

lemma net_upD:
  assumes "net_up os"
  shows "0 \<le> os_socket os h" "os_socket os h \<noteq> -1" "os_bind os h fd a = 0"
    "os_malloc os h n \<noteq> NULL" "os_sendto os h fd a bs \<noteq> 0"
  using assms by (auto simp: net_up_def dest: spec [of _ h])

end
