(* ===== verification/Tlshub_Api.thy ===== *)
theory Tlshub_Api
  imports Netlink_Wait
begin

text \<open>
  The user-space API of TLShub, \<^verbatim>\<open>tlshub-api/tlshub.c\<close> and \<^verbatim>\<open>tlshub.h\<close>: the per-thread Netlink context,
  its set-up and clean-up, service initialisation, the Pod handshake and the key fetch.
  Diagnostics written with \<^verbatim>\<open>DEBUG_PRINTF\<close> are not part of the state; \<open>Api_Console\<close> adds those of the receive loop.
\<close>

section \<open>Log levels\<close>

datatype debug_level =
    DEBUG_LEVEL_ALL | DEBUG_LEVEL_INFO | DEBUG_LEVEL_DEBUG | DEBUG_LEVEL_WARNING
  | DEBUG_LEVEL_ERR | DEBUG_LEVEL_NONE

fun debug_level_num :: "debug_level \<Rightarrow> nat" where
  "debug_level_num DEBUG_LEVEL_ALL = 0"
| "debug_level_num DEBUG_LEVEL_INFO = 1"
| "debug_level_num DEBUG_LEVEL_DEBUG = 2"
| "debug_level_num DEBUG_LEVEL_WARNING = 3"
| "debug_level_num DEBUG_LEVEL_ERR = 4"
| "debug_level_num DEBUG_LEVEL_NONE = 5"

lemma debug_level_num_inj: "debug_level_num a = debug_level_num b \<Longrightarrow> a = b"
  by (cases a; cases b) simp_all

instantiation debug_level :: linorder
begin

definition less_eq_debug_level :: "debug_level \<Rightarrow> debug_level \<Rightarrow> bool" where
  "less_eq_debug_level a b \<longleftrightarrow> debug_level_num a \<le> debug_level_num b"

definition less_debug_level :: "debug_level \<Rightarrow> debug_level \<Rightarrow> bool" where
  "less_debug_level a b \<longleftrightarrow> debug_level_num a < debug_level_num b"

instance
  by standard (auto simp: less_eq_debug_level_def less_debug_level_def dest: debug_level_num_inj)

end

text \<open>\<^verbatim>\<open>log_fun\<close>: the text reaches the standard output when its level is at least the threshold.\<close>

definition log_fun :: "debug_level \<Rightarrow> debug_level \<Rightarrow> string \<Rightarrow> string" where
  "log_fun debugLevel level txt = (if debugLevel \<le> level then txt else [])"

section \<open>State\<close>

record nlbuf =
  buf_ptr :: ptr
  buf_hdr :: nlmsghdr

record netlink_context =
  sk_fd :: int
  nlh :: "nlbuf option"
  daddr :: sockaddr_nl

text \<open>The thread-local context and the statics of \<^verbatim>\<open>app_tm_interval\<close>.\<close>

record api_state =
  g_netlink_ctx :: netlink_context
  tm_start :: timespec
  tm_warning :: bool

definition empty_ctx :: netlink_context where
  "empty_ctx = \<lparr>sk_fd = -1, nlh = None, daddr = zero_addr\<rparr>"

definition api_init :: api_state where
  "api_init = \<lparr>g_netlink_ctx = empty_ctx, tm_start = \<lparr>tv_sec = 0, tv_nsec = 0\<rparr>, tm_warning = True\<rparr>"

definition TM_START :: int where "TM_START = 1"

definition timespec_secs :: "timespec \<Rightarrow> real" where
  "timespec_secs t = of_int (tv_sec t) + of_int (tv_nsec t) / 1000000000"

definition app_tm_interval :: "os \<Rightarrow> int \<Rightarrow> int \<Rightarrow> api_state \<Rightarrow> hist \<Rightarrow> real \<times> api_state \<times> hist" where
  "app_tm_interval os stop user_time s h =
     (let s1 = (if user_time \<noteq> 0 \<and> tm_warning s then s\<lparr>tm_warning := False\<rparr> else s);
          now = os_clock os h CLOCK_REALTIME;
          h' = h @ [Clock CLOCK_REALTIME now]
      in if stop = TM_START then (0, s1\<lparr>tm_start := now\<rparr>, h')
         else (timespec_secs now - timespec_secs (tm_start s1), s1, h'))"

section \<open>Netlink context operations\<close>

definition netlink_ctx_init :: "os \<Rightarrow> netlink_context \<Rightarrow> hist \<Rightarrow> int \<times> netlink_context \<times> hist" where
  "netlink_ctx_init os ctx h =
     (if sk_fd ctx \<noteq> -1 then (0, ctx, h)
      else
        let fd = os_socket os h; h1 = h @ [Socket fd] in
        if fd = -1 then (-1, ctx\<lparr>sk_fd := -1\<rparr>, h1)
        else
          let saddr = bind_addr (os_gettid os h1); r = os_bind os h1 fd saddr; h2 = h1 @ [Bind fd saddr r] in
          if r \<noteq> 0 then (-1, ctx\<lparr>sk_fd := -1\<rparr>, h2 @ [Close fd])
          else (0, ctx\<lparr>sk_fd := fd, daddr := kernel_addr\<rparr>, h2))"

definition netlink_ctx_alloc_msg :: "os \<Rightarrow> netlink_context \<Rightarrow> hist \<Rightarrow> int \<times> netlink_context \<times> hist" where
  "netlink_ctx_alloc_msg os ctx h =
     (if nlh ctx \<noteq> None then (0, ctx, h)
      else
        let p = os_malloc os h nlmsg_space; h1 = h @ [Malloc nlmsg_space p] in
        if p = NULL then (-1, ctx, h1)
        else (0, ctx\<lparr>nlh := Some \<lparr>buf_ptr = p, buf_hdr = new_hdr\<rparr>\<rparr>, h1))"

definition netlink_ctx_cleanup :: "netlink_context \<Rightarrow> bool \<Rightarrow> hist \<Rightarrow> netlink_context \<times> hist" where
  "netlink_ctx_cleanup ctx close_socket h =
     (let (ctx1, h1) = (case nlh ctx of
                          Some b \<Rightarrow> (ctx\<lparr>nlh := None\<rparr>, h @ [Free (buf_ptr b)])
                        | None \<Rightarrow> (ctx, h))
      in if close_socket \<and> sk_fd ctx1 \<noteq> -1 then (ctx1\<lparr>sk_fd := -1\<rparr>, h1 @ [Close (sk_fd ctx1)])
         else (ctx1, h1))"

definition init_user_netlink :: "os \<Rightarrow> hist \<Rightarrow> int \<times> hist" where
  "init_user_netlink os h =
     (let fd = os_socket os h; h1 = h @ [Socket fd] in
      if fd = -1 then (-1, h1)
      else
        let saddr = bind_addr (os_gettid os h1); r = os_bind os h1 fd saddr; h2 = h1 @ [Bind fd saddr r] in
        if r \<noteq> 0 then (-1, h2 @ [Close fd]) else (fd, h2))"

text \<open>
  The result of \<^verbatim>\<open>malloc\<close> is passed to \<^verbatim>\<open>memset\<close> unchecked: a failed allocation is a null
  dereference, before the caller's own check.
\<close>

definition malloc_netlink_pkthdr :: "os \<Rightarrow> hist \<Rightarrow> nlbuf outcome \<times> hist" where
  "malloc_netlink_pkthdr os h =
     (let p = os_malloc os h nlmsg_space; h1 = h @ [Malloc nlmsg_space p] in
      if p = NULL then (Fault, h1)
      else (Ret \<lparr>buf_ptr = p, buf_hdr = new_hdr\<lparr>nlmsg_pid := os_gettid os h1\<rparr>\<rparr>, h1))"

section \<open>The API functions\<close>

definition service_init_switch :: "byte \<Rightarrow> int option" where
  "service_init_switch t = (if t = 7 then Some 0 else None)"

definition tlshub_service_init :: "os \<Rightarrow> api_state \<Rightarrow> hist \<Rightarrow> (int outcome \<times> api_state \<times> hist) option" where
  "tlshub_service_init os s h =
     (let (fd, h1) = init_user_netlink os h in
      if fd < 0 then Some (Ret (-1), s, h1)
      else case malloc_netlink_pkthdr os h1 of
        (Ret b, h2) \<Rightarrow>
          (let mmsg = set_server True (set_opcode TLS_SERVICE_INIT (uninit os h2 my_msg_size));
               (t, s1, h3) = app_tm_interval os TM_START 0 s h2;
               bs = request_bytes (buf_hdr b) mmsg;
               ret = os_sendto os h3 fd kernel_addr bs;
               h4 = h3 @ [SendTo fd kernel_addr bs ret]
           in if ret = 0 then Some (Exit (-1), s1, h4 @ [Close fd])
              else case recv_loop os fd service_init_switch kernel_addr h4 of
                None \<Rightarrow> None
              | Some (RecvZero, a, h5) \<Rightarrow> Some (Ret (-2), s1, h5)
              | Some (Decided v, a, h5) \<Rightarrow>
                  (let (t', s2, h6) = app_tm_interval os 0 0 s1 h5
                   in Some (Ret v, s2, h6 @ [Close fd, Free (buf_ptr b)])))
      | (_, h2) \<Rightarrow> Some (Fault, s, h2))"

definition handshake_switch :: "byte \<Rightarrow> int option" where
  "handshake_switch t =
     (if t = 1 \<or> t = 2 \<or> t = 5 then Some 0 else if t = 3 then Some (-1) else None)"

definition handshake_msg :: "u32 \<Rightarrow> u32 \<Rightarrow> u16 \<Rightarrow> u16 \<Rightarrow> byte list \<Rightarrow> byte list" where
  "handshake_msg cip sip cport sport m =
     set_server False (set_server_pod_port (htons sport) (set_client_pod_port (htons cport)
       (set_server_pod_ip sip (set_client_pod_ip cip (set_opcode TLS_SERVICE_START m)))))"

text \<open>
  The exchange proper (from \<^verbatim>\<open>app_tm_interval(TM_START, 0)\<close> to the end), on a context whose
  buffer is \<open>b\<close>; then the whole function.
\<close>

definition handshake_exchange ::
  "os \<Rightarrow> nlbuf \<Rightarrow> byte list \<Rightarrow> api_state \<Rightarrow> hist \<Rightarrow> (int outcome \<times> api_state \<times> hist) option"
where
  "handshake_exchange os b mmsg s h =
     (let c = g_netlink_ctx s;
          (t, s1, h1) = app_tm_interval os TM_START 0 s h
      in if sk_fd c < 0 then Some (Ret (-1), s1, h1)
         else
           let bs = request_bytes (buf_hdr b) mmsg;
               ret = os_sendto os h1 (sk_fd c) (daddr c) bs;
               h2 = h1 @ [SendTo (sk_fd c) (daddr c) bs ret]
           in if ret = 0 then
                (let (c', h3) = netlink_ctx_cleanup c True h2
                 in Some (Exit (-1), s1\<lparr>g_netlink_ctx := c'\<rparr>, h3))
              else case recv_loop os (sk_fd c) handshake_switch (daddr c) h2 of
                None \<Rightarrow> None
              | Some (RecvZero, a, h3) \<Rightarrow> Some (Ret (-2), s1\<lparr>g_netlink_ctx := c\<lparr>daddr := a\<rparr>\<rparr>, h3)
              | Some (Decided v, a, h3) \<Rightarrow>
                  (let (t', s2, h4) = app_tm_interval os 0 0 (s1\<lparr>g_netlink_ctx := c\<lparr>daddr := a\<rparr>\<rparr>) h3
                   in Some (Ret v, s2, h4)))"

definition tlshub_handshake ::
  "os \<Rightarrow> u32 \<Rightarrow> u32 \<Rightarrow> u16 \<Rightarrow> u16 \<Rightarrow> api_state \<Rightarrow> hist \<Rightarrow> (int outcome \<times> api_state \<times> hist) option"
where
  "tlshub_handshake os cip sip cport sport s h =
     (let (r1, c1, h1) = netlink_ctx_init os (g_netlink_ctx s) h in
      if r1 \<noteq> 0 then Some (Ret (-1), s\<lparr>g_netlink_ctx := c1\<rparr>, h1)
      else
        let (r2, c2, h2) = netlink_ctx_alloc_msg os c1 h1 in
        if r2 \<noteq> 0 then Some (Ret (-1), s\<lparr>g_netlink_ctx := c2\<rparr>, h2)
        else case nlh c2 of
          None \<Rightarrow> Some (Fault, s\<lparr>g_netlink_ctx := c2\<rparr>, h2)
        | Some b \<Rightarrow>
            (let b' = b\<lparr>buf_hdr := (buf_hdr b)\<lparr>nlmsg_pid := os_gettid os h2\<rparr>\<rparr>
             in handshake_exchange os b' (handshake_msg cip sip cport sport (uninit os h2 my_msg_size))
                  (s\<lparr>g_netlink_ctx := c2\<lparr>nlh := Some b'\<rparr>\<rparr>) h2))"

definition fetch_msg :: "u32 \<Rightarrow> u32 \<Rightarrow> u16 \<Rightarrow> u16 \<Rightarrow> byte list \<Rightarrow> byte list" where
  "fetch_msg cip sip cport sport m =
     set_server_pod_port (htons sport) (set_client_pod_port (htons cport)
       (set_server_pod_ip sip (set_client_pod_ip cip (set_opcode TLS_SERVICE_FETCH m))))"

definition zero_key_back :: key_back where
  "zero_key_back = \<lparr>status = 0, masterkey = replicate 32 0\<rparr>"

definition fetch_exchange ::
  "os \<Rightarrow> netlink_context \<Rightarrow> byte list \<Rightarrow> api_state \<Rightarrow> hist \<Rightarrow> (key_back outcome \<times> api_state \<times> hist) option"
where
  "fetch_exchange os c bs s h =
     (let (t, s1, h1) = app_tm_interval os TM_START 0 s h;
          ret = os_sendto os h1 (sk_fd c) (daddr c) bs;
          h2 = h1 @ [SendTo (sk_fd c) (daddr c) bs ret]
      in if ret = 0 then Some (Exit (-1), s1, snd (netlink_ctx_cleanup c True h2))
         else
           let r = os_recvfrom os h2 (sk_fd c); h3 = h2 @ [RecvFrom (sk_fd c) r] in
           if r = IoBlock then None
           else if recv_ret user_msg_info_size r = 0 then
             Some (Exit (-1), s1, snd (netlink_ctx_cleanup c True h3))
           else
             let key = read_key_back (u_msg (recv_buf user_msg_info_size r));
                 h4 = snd (netlink_ctx_cleanup c True h3);
                 (t', s2, h5) = app_tm_interval os 0 0 s1 h4
             in Some (Ret key, s2, h5))"

definition tlshub_fetch_key ::
  "os \<Rightarrow> u32 \<Rightarrow> u32 \<Rightarrow> u16 \<Rightarrow> u16 \<Rightarrow> api_state \<Rightarrow> hist \<Rightarrow> (key_back outcome \<times> api_state \<times> hist) option"
where
  "tlshub_fetch_key os cip sip cport sport s h =
     (let (r1, c1, h1) = netlink_ctx_init os empty_ctx h in
      if r1 \<noteq> 0 then Some (Ret zero_key_back, s, h1)
      else
        let (r2, c2, h2) = netlink_ctx_alloc_msg os c1 h1 in
        if r2 \<noteq> 0 then Some (Ret zero_key_back, s, snd (netlink_ctx_cleanup c2 True h2))
        else case nlh c2 of
          None \<Rightarrow> Some (Fault, s, h2)
        | Some b \<Rightarrow>
            fetch_exchange os c2
              (request_bytes ((buf_hdr b)\<lparr>nlmsg_pid := os_gettid os h2\<rparr>)
                 (fetch_msg cip sip cport sport (uninit os h2 my_msg_size))) s h2)"

section \<open>Ownership of sockets and buffers\<close>

text \<open>
  Relative to a base history \<open>h0\<close>, a context owns exactly the socket in \<^verbatim>\<open>sk_fd\<close> and the buffer in
  \<^verbatim>\<open>nlh\<close>: nothing else is open or allocated. This is the invariant of the context operations.
\<close>

definition fd_owned :: "netlink_context \<Rightarrow> int \<Rightarrow> int" where
  "fd_owned c x = (if sk_fd c = x \<and> x \<noteq> -1 then 1 else 0)"

definition mem_owned :: "netlink_context \<Rightarrow> ptr \<Rightarrow> int" where
  "mem_owned c x = (case nlh c of None \<Rightarrow> 0 | Some b \<Rightarrow> if buf_ptr b = x \<and> x \<noteq> NULL then 1 else 0)"

definition owns :: "hist \<Rightarrow> netlink_context \<Rightarrow> hist \<Rightarrow> bool" where
  "owns h0 c h \<longleftrightarrow>
     (\<forall>x. fd_balance h x = fd_balance h0 x + fd_owned c x) \<and>
     (\<forall>x. mem_balance h x = mem_balance h0 x + mem_owned c x)"

lemmas own_simps = owns_def fd_owned_def mem_owned_def balance

lemma owns_empty_ctx: "owns h empty_ctx h"
  by (simp add: own_simps empty_ctx_def)

lemma owns_nothing: "owns h0 c h \<Longrightarrow> sk_fd c = -1 \<Longrightarrow> nlh c = None \<Longrightarrow> neutral h0 h"
  by (auto simp: owns_def fd_owned_def mem_owned_def neutral_def fun_eq_iff)

lemma owns_neutral: "owns h0 c h \<Longrightarrow> neutral h h' \<Longrightarrow> owns h0 c h'"
  by (simp add: owns_def neutral_def)

lemma owns_cong:
  "owns h0 c h \<Longrightarrow> sk_fd c' = sk_fd c \<Longrightarrow> map_option buf_ptr (nlh c') = map_option buf_ptr (nlh c) \<Longrightarrow> owns h0 c' h"
  by (auto simp: owns_def fd_owned_def mem_owned_def split: option.splits)

lemma netlink_ctx_init_owns:
  "netlink_ctx_init os c h = (r, c', h') \<Longrightarrow> owns h0 c h \<Longrightarrow> owns h0 c' h'"
  by (auto simp: netlink_ctx_init_def Let_def own_simps split: if_splits)

lemma netlink_ctx_alloc_msg_owns:
  "netlink_ctx_alloc_msg os c h = (r, c', h') \<Longrightarrow> owns h0 c h \<Longrightarrow> owns h0 c' h'"
  by (auto simp: netlink_ctx_alloc_msg_def Let_def own_simps split: if_splits)

lemma netlink_ctx_cleanup_owns:
  "netlink_ctx_cleanup c b h = (c', h') \<Longrightarrow> owns h0 c h \<Longrightarrow> owns h0 c' h'"
  by (auto simp: netlink_ctx_cleanup_def Let_def own_simps split: if_splits option.splits prod.splits)

lemma netlink_ctx_cleanup_empties:
  "netlink_ctx_cleanup c True h = (c', h') \<Longrightarrow> sk_fd c' = -1 \<and> nlh c' = None"
  by (auto simp: netlink_ctx_cleanup_def Let_def split: if_splits option.splits prod.splits)

lemma netlink_ctx_init_ok: "netlink_ctx_init os c h = (0, c', h') \<Longrightarrow> sk_fd c' \<noteq> -1 \<and> nlh c' = nlh c"
  by (auto simp: netlink_ctx_init_def Let_def split: if_splits)

lemma netlink_ctx_init_addr:
  "netlink_ctx_init os c h = (0, c', h') \<Longrightarrow> sk_fd c = -1 \<or> daddr c = kernel_addr \<Longrightarrow> daddr c' = kernel_addr"
  by (auto simp: netlink_ctx_init_def Let_def split: if_splits)

lemma netlink_ctx_init_fail: "netlink_ctx_init os c h = (r, c', h') \<Longrightarrow> r \<noteq> 0 \<Longrightarrow> sk_fd c' = -1 \<and> nlh c' = nlh c"
  by (auto simp: netlink_ctx_init_def Let_def split: if_splits)

lemma netlink_ctx_alloc_msg_ok:
  "netlink_ctx_alloc_msg os c h = (0, c', h') \<Longrightarrow> (\<exists>b. nlh c' = Some b) \<and> sk_fd c' = sk_fd c \<and> daddr c' = daddr c"
  by (auto simp: netlink_ctx_alloc_msg_def Let_def split: if_splits)

text \<open>Both calls of \<^verbatim>\<open>app_tm_interval\<close> read the clock once and leave the context alone.\<close>

definition tm_event :: "os \<Rightarrow> hist \<Rightarrow> event" where
  "tm_event os h = Clock CLOCK_REALTIME (os_clock os h CLOCK_REALTIME)"

lemma app_tm_interval_start:
  "app_tm_interval os TM_START 0 s h = (0, s\<lparr>tm_start := os_clock os h CLOCK_REALTIME\<rparr>, h @ [tm_event os h])"
  by (simp add: app_tm_interval_def tm_event_def Let_def)

lemma app_tm_interval_stop:
  "app_tm_interval os 0 0 s h =
     (timespec_secs (os_clock os h CLOCK_REALTIME) - timespec_secs (tm_start s), s, h @ [tm_event os h])"
  by (simp add: app_tm_interval_def tm_event_def Let_def TM_START_def)

lemmas tm_simps = app_tm_interval_start app_tm_interval_stop

lemma fd_delta_tm [simp]: "fd_delta (tm_event os h) x = 0"
  by (simp add: tm_event_def)

lemma mem_delta_tm [simp]: "mem_delta (tm_event os h) x = 0"
  by (simp add: tm_event_def)

lemma owns_snoc [simp]:
  "owns h0 c (h @ [tm_event os h1]) = owns h0 c h"
  "owns h0 c (h @ [SendTo fd a bs r]) = owns h0 c h"
  "owns h0 c (h @ [RecvFrom fd io]) = owns h0 c h"
  "owns h0 c (h @ [e, SendTo fd a bs r]) = owns h0 c (h @ [e])"
  by (simp_all add: owns_def balance)

lemma owns_daddr [simp]: "owns h0 (c\<lparr>daddr := a\<rparr>) h = owns h0 c h"
  by (simp add: own_simps)

lemma owns_buf [simp]: "buf_ptr b' = buf_ptr b \<Longrightarrow> nlh c = Some b \<Longrightarrow> owns h0 (c\<lparr>nlh := Some b'\<rparr>) h = owns h0 c h"
  by (simp add: own_simps)

section \<open>The handshake\<close>

lemma handshake_exchange_owns:
  assumes "handshake_exchange os b m s h = Some (out, s', h')" and "owns h0 (g_netlink_ctx s) h"
  shows "owns h0 (g_netlink_ctx s') h'"
proof -
  let ?c = "g_netlink_ctx s" and ?h1 = "h @ [tm_event os h]"
  let ?bs = "request_bytes (buf_hdr b) m"
  let ?h2 = "?h1 @ [SendTo (sk_fd ?c) (daddr ?c) ?bs (os_sendto os ?h1 (sk_fd ?c) (daddr ?c) ?bs)]"
  have own: "owns h0 ?c ?h2" using assms(2) by simp
  show ?thesis
  proof (cases "recv_loop os (sk_fd ?c) handshake_switch (daddr ?c) ?h2")
    case None
    with assms own show ?thesis
      by (auto simp: handshake_exchange_def Let_def tm_simps
          split: if_splits prod.splits intro: netlink_ctx_cleanup_owns)
  next
    case (Some r)
    then obtain e a h3 where r: "recv_loop os (sk_fd ?c) handshake_switch (daddr ?c) ?h2 = Some (e, a, h3)"
      by (metis prod_cases3)
    then have "owns h0 ?c h3" using own owns_neutral recv_loop_neutral by blast
    with assms own r show ?thesis
      by (auto simp: handshake_exchange_def Let_def tm_simps
          split: if_splits prod.splits wait_end.splits intro: netlink_ctx_cleanup_owns)
  qed
qed

lemma tlshub_handshake_owns:
  assumes "tlshub_handshake os cip sip cport sport s h = Some (out, s', h')"
    and "owns h0 (g_netlink_ctx s) h"
  shows "owns h0 (g_netlink_ctx s') h'"
proof -
  obtain r1 c1 h1 where 1: "netlink_ctx_init os (g_netlink_ctx s) h = (r1, c1, h1)" by (metis prod_cases3)
  obtain r2 c2 h2 where 2: "netlink_ctx_alloc_msg os c1 h1 = (r2, c2, h2)" by (metis prod_cases3)
  have own1: "owns h0 c1 h1" using netlink_ctx_init_owns [OF 1 assms(2)] .
  have own2: "owns h0 c2 h2" using netlink_ctx_alloc_msg_owns [OF 2 own1] .
  show ?thesis
  proof (cases "r1 = 0 \<and> r2 = 0")
    case False
    with assms 1 2 own1 own2 show ?thesis
      by (auto simp: tlshub_handshake_def Let_def split: if_splits)
  next
    case True
    then obtain b where b: "nlh c2 = Some b" using 2 netlink_ctx_alloc_msg_ok by blast
    let ?b = "b\<lparr>buf_hdr := (buf_hdr b)\<lparr>nlmsg_pid := os_gettid os h2\<rparr>\<rparr>"
    have "handshake_exchange os ?b (handshake_msg cip sip cport sport (uninit os h2 my_msg_size))
        (s\<lparr>g_netlink_ctx := c2\<lparr>nlh := Some ?b\<rparr>\<rparr>) h2 = Some (out, s', h')"
      using assms(1) 1 2 b True by (simp add: tlshub_handshake_def Let_def)
    then show ?thesis by (rule handshake_exchange_owns) (simp add: b own2)
  qed
qed

section \<open>The key fetch\<close>

lemma cleanup_neutral: "owns h0 c h \<Longrightarrow> neutral h0 (snd (netlink_ctx_cleanup c True h))"
  by (metis netlink_ctx_cleanup_empties netlink_ctx_cleanup_owns owns_nothing prod.collapse)

lemma neutral_tm [simp]: "neutral h (h' @ [tm_event os h'']) = neutral h h'"
  by (simp add: neutral_def fun_eq_iff balance)

lemma fetch_exchange_neutral:
  assumes "fetch_exchange os c bs s h = Some (out, s', h')" and "owns h0 c h"
  shows "neutral h0 h' \<and> g_netlink_ctx s' = g_netlink_ctx s"
proof -
  let ?h1 = "h @ [tm_event os h]"
  let ?h2 = "?h1 @ [SendTo (sk_fd c) (daddr c) bs (os_sendto os ?h1 (sk_fd c) (daddr c) bs)]"
  let ?h3 = "?h2 @ [RecvFrom (sk_fd c) (os_recvfrom os ?h2 (sk_fd c))]"
  have "owns h0 c ?h2" and "owns h0 c ?h3" using assms(2) by (simp_all add: owns_def balance)
  then have "neutral h0 (snd (netlink_ctx_cleanup c True ?h2))" and "neutral h0 (snd (netlink_ctx_cleanup c True ?h3))"
    by (simp_all only: cleanup_neutral)
  with assms(1) show ?thesis
    by (auto simp: fetch_exchange_def Let_def tm_simps split: if_splits)
qed

lemma fetch_key_neutral:
  assumes "tlshub_fetch_key os cip sip cport sport s h = Some (out, s', h')"
  shows "neutral h h' \<and> g_netlink_ctx s' = g_netlink_ctx s"
proof -
  obtain r1 c1 h1 where 1: "netlink_ctx_init os empty_ctx h = (r1, c1, h1)" by (metis prod_cases3)
  obtain r2 c2 h2 where 2: "netlink_ctx_alloc_msg os c1 h1 = (r2, c2, h2)" by (metis prod_cases3)
  have own1: "owns h c1 h1" using netlink_ctx_init_owns [OF 1 owns_empty_ctx] .
  have own2: "owns h c2 h2" using netlink_ctx_alloc_msg_owns [OF 2 own1] .
  consider "r1 \<noteq> 0" | "r1 = 0" "r2 \<noteq> 0" | b where "r1 = 0" "r2 = 0" "nlh c2 = Some b"
    using 2 netlink_ctx_alloc_msg_ok by blast
  then show ?thesis
  proof cases
    case 1
    then have "sk_fd c1 = -1 \<and> nlh c1 = None"
      using netlink_ctx_init_fail [OF \<open>netlink_ctx_init os empty_ctx h = (r1, c1, h1)\<close>] by (simp add: empty_ctx_def)
    then have "neutral h h1" using own1 owns_nothing by blast
    with assms \<open>netlink_ctx_init os empty_ctx h = (r1, c1, h1)\<close> 1 show ?thesis
      by (simp add: tlshub_fetch_key_def Let_def)
  next
    case 2
    with assms \<open>netlink_ctx_init os empty_ctx h = (r1, c1, h1)\<close> \<open>netlink_ctx_alloc_msg os c1 h1 = (r2, c2, h2)\<close>
    show ?thesis by (auto simp: tlshub_fetch_key_def Let_def cleanup_neutral [OF own2])
  next
    case 3
    with assms \<open>netlink_ctx_init os empty_ctx h = (r1, c1, h1)\<close> \<open>netlink_ctx_alloc_msg os c1 h1 = (r2, c2, h2)\<close>
    show ?thesis using fetch_exchange_neutral [OF _ own2]
      by (simp add: tlshub_fetch_key_def Let_def)
  qed
qed

lemma tlshub_fetch_key_owns:
  assumes "tlshub_fetch_key os cip sip cport sport s h = Some (out, s', h')"
    and "owns h0 (g_netlink_ctx s) h"
  shows "owns h0 (g_netlink_ctx s') h'"
  using fetch_key_neutral [OF assms(1)] owns_neutral [OF assms(2)] by simp

section \<open>A thread that uses the API\<close>

datatype api_call = Handshake u32 u32 u16 u16 | FetchKey u32 u32 u16 u16

text \<open>What a call returns, and a call as the function computes it.\<close>

datatype result = Code int | Key key_back

fun call_result :: "os \<Rightarrow> api_call \<Rightarrow> api_state \<Rightarrow> hist \<Rightarrow> (result outcome \<times> api_state \<times> hist) option" where
  "call_result os (Handshake cip sip cp sp) s h = map_option (apfst (map_outcome Code)) (tlshub_handshake os cip sip cp sp s h)"
| "call_result os (FetchKey cip sip cp sp) s h = map_option (apfst (map_outcome Key)) (tlshub_fetch_key os cip sip cp sp s h)"

text \<open>A call of a thread that goes on; the state collects the results of its calls.\<close>

fun api_step :: "os \<Rightarrow> api_call \<Rightarrow> result list \<times> api_state \<times> hist \<Rightarrow> (result list \<times> api_state \<times> hist) option" where
  "api_step os c (rs, s, h) = (case call_result os c s h of Some (Ret v, s', h') \<Rightarrow> Some (rs @ [v], s', h') | _ \<Rightarrow> None)"

lemma map_outcome_Ret: "map_outcome f m = Ret y \<longleftrightarrow> (\<exists>x. m = Ret x \<and> y = f x)"
  by (cases m) auto

lemma api_stepE:
  assumes "api_step os c (rs, s, h) = Some (rs', s', h')"
  obtains cip sip cp sp v where "c = Handshake cip sip cp sp" "rs' = rs @ [Code v]" "tlshub_handshake os cip sip cp sp s h = Some (Ret v, s', h')"
    | cip sip cp sp k where "c = FetchKey cip sip cp sp" "rs' = rs @ [Key k]" "tlshub_fetch_key os cip sip cp sp s h = Some (Ret k, s', h')"
  using assms by (cases c) (auto simp: map_outcome_Ret split: option.splits prod.splits outcome.splits)

definition api_owns :: "hist \<Rightarrow> result list \<times> api_state \<times> hist \<Rightarrow> bool" where
  "api_owns h0 = (\<lambda>(rs, s, h). owns h0 (g_netlink_ctx s) h)"

interpretation api: invariant_steps "api_step os" "api_owns h0" for os h0
proof
  fix st c st' assume "api_owns h0 st" and "api_step os c st = Some st'"
  then show "api_owns h0 st'"
    by (cases st; cases st') (auto simp: api_owns_def elim!: api_stepE intro: tlshub_handshake_owns tlshub_fetch_key_owns
        simp del: api_step.simps)
qed

lemmas api_defs =
  tlshub_handshake_def handshake_exchange_def tlshub_fetch_key_def fetch_exchange_def
  tlshub_service_init_def netlink_ctx_init_def netlink_ctx_alloc_msg_def netlink_ctx_cleanup_def
  init_user_netlink_def malloc_netlink_pkthdr_def tm_simps

section \<open>Properties\<close>

lemma handshake_msg_read:
  "length m = 16 \<Longrightarrow> read_my_msg (handshake_msg cip sip cport sport m) =
     \<lparr>client_pod_ip = cip, server_pod_ip = sip, client_pod_port = htons cport,
      server_pod_port = htons sport, opcode = opcode_byte TLS_SERVICE_START, server = 0\<rparr>"
  by (simp add: handshake_msg_def)

lemma length_handshake_msg [simp]: "length m = 16 \<Longrightarrow> length (handshake_msg cip sip cport sport m) = 16"
  by (simp add: handshake_msg_def)

text \<open>
  A context that an earlier call has set up; the request it sends; the history once the
  request is out; the value a decisive reply stands for.
\<close>

definition ready_ctx :: "netlink_context \<Rightarrow> bool" where
  "ready_ctx c \<longleftrightarrow> sk_fd c \<ge> 0 \<and> nlh c \<noteq> None"

definition handshake_request :: "os \<Rightarrow> u32 \<Rightarrow> u32 \<Rightarrow> u16 \<Rightarrow> u16 \<Rightarrow> netlink_context \<Rightarrow> hist \<Rightarrow> byte list" where
  "handshake_request os cip sip cport sport c h =
     request_bytes ((buf_hdr (the (nlh c)))\<lparr>nlmsg_pid := os_gettid os h\<rparr>)
       (handshake_msg cip sip cport sport (uninit os h my_msg_size))"

definition after_request :: "os \<Rightarrow> netlink_context \<Rightarrow> byte list \<Rightarrow> hist \<Rightarrow> hist" where
  "after_request os c bs h =
     h @ [tm_event os h, SendTo (sk_fd c) (daddr c) bs (os_sendto os (h @ [tm_event os h]) (sk_fd c) (daddr c) bs)]"

fun wait_value :: "wait_end \<Rightarrow> int" where
  "wait_value (Decided v) = v"
| "wait_value RecvZero = -2"

lemma tlshub_handshake_ready:
  assumes "ready_ctx c" and "g_netlink_ctx s = c"
    and "os_sendto os (h @ [tm_event os h]) (sk_fd c) (daddr c) (handshake_request os cip sip cport sport c h) \<noteq> 0"
  shows "\<exists>s1 c1. g_netlink_ctx s1 = c1 \<and> sk_fd c1 = sk_fd c \<and> nlh c1 \<noteq> None \<and>
    tlshub_handshake os cip sip cport sport s h =
     (case recv_loop os (sk_fd c) handshake_switch (daddr c)
             (after_request os c (handshake_request os cip sip cport sport c h) h) of
        None \<Rightarrow> None
      | Some (e, a, h') \<Rightarrow> Some (Ret (wait_value e), s1\<lparr>g_netlink_ctx := c1\<lparr>daddr := a\<rparr>\<rparr>,
                            if e = RecvZero then h' else h' @ [tm_event os h']))"
proof -
  obtain b where b: "nlh c = Some b" using assms(1) by (auto simp: ready_ctx_def)
  let ?b = "b\<lparr>buf_hdr := (buf_hdr b)\<lparr>nlmsg_pid := os_gettid os h\<rparr>\<rparr>"
  let ?c1 = "c\<lparr>nlh := Some ?b\<rparr>"
  show ?thesis
    by (rule exI [of _ "s\<lparr>g_netlink_ctx := ?c1, tm_start := os_clock os h CLOCK_REALTIME\<rparr>"],
        rule exI [of _ ?c1])
      (use assms b in \<open>auto simp: tlshub_handshake_def netlink_ctx_init_def netlink_ctx_alloc_msg_def
          handshake_exchange_def handshake_request_def after_request_def ready_ctx_def Let_def tm_simps
          split: option.splits wait_end.splits\<close>)
qed

text \<open>
  What a datagram means for a handshake, by the protocol: the byte after the 16-byte header is the message type. A failed
  receive and a datagram without a type say nothing.
\<close>

definition handshake_answer :: "io_result \<Rightarrow> int option" where
  "handshake_answer r =
     (case r of
        IoData src bs \<Rightarrow>
          if bs = [] then Some (-2)
          else if length bs \<le> 16 then None
          else if bs ! 16 = 1 \<or> bs ! 16 = 2 \<or> bs ! 16 = 5 then Some 0
          else if bs ! 16 = 3 then Some (-1)
          else None
      | _ \<Rightarrow> None)"

lemma recv_buf_type:
  "u_msg_type (recv_buf user_msg_info_size (IoData src bs)) = (if length bs \<le> 16 then 0 else bs ! 16)"
proof (cases "length bs \<le> 16")
  case True
  then show ?thesis by (simp add: u_msg_type_def bytes_at_def layout)
next
  case False
  then have "drop 16 bs = bs ! 16 # drop 17 bs" using Cons_nth_drop_Suc [of 16 bs] by simp
  with False show ?thesis by (simp add: u_msg_type_def bytes_at_def layout drop_take)
qed

lemma verdict_handshake: "map_option wait_value (verdict handshake_switch r) = handshake_answer r"
proof (cases r)
  case (IoData src bs)
  have "recv_ret user_msg_info_size r = 0 \<longleftrightarrow> bs = []" using IoData by (auto simp: layout min_def)
  then show ?thesis using recv_buf_type [of src bs] IoData
    by (auto simp: verdict_def handshake_answer_def handshake_switch_def simp del: recv_buf.simps recv_ret.simps)
qed (simp_all add: verdict_def handshake_answer_def handshake_switch_def layout u_msg_type_zero)

lemma verdict_handshake_iff:
  "verdict handshake_switch r = None \<longleftrightarrow> handshake_answer r = None"
  "(\<exists>e. verdict handshake_switch r = Some e \<and> v = wait_value e) \<longleftrightarrow> handshake_answer r = Some v"
  unfolding verdict_handshake [symmetric] by auto

text \<open>
  Property C8 (handshake_follows_first_decisive_reply). On a thread whose context is set up and
  whose request goes out, \<^verbatim>\<open>tlshub_handshake\<close> returns exactly when the kernel eventually sends a
  decisive reply and no earlier receive blocks for ever; the value is 0 for the first reply of
  type 1, 2 or 5, -1 for type 3, -2 for an empty datagram. No handshake succeeds without a
  success message, and log messages or failed receives before it only delay it.
\<close>

theorem handshake_follows_first_decisive_reply:
  assumes "ready_ctx (g_netlink_ctx s)"
    and "os_sendto os (h @ [tm_event os h]) (sk_fd (g_netlink_ctx s)) (daddr (g_netlink_ctx s))
           (handshake_request os cip sip cport sport (g_netlink_ctx s) h) \<noteq> 0"
  defines "reply \<equiv> reply_at os (sk_fd (g_netlink_ctx s))
             (after_request os (g_netlink_ctx s) (handshake_request os cip sip cport sport (g_netlink_ctx s) h) h)"
  shows "(\<exists>s' h'. tlshub_handshake os cip sip cport sport s h = Some (Ret v, s', h')) \<longleftrightarrow>
         (\<exists>n. (\<forall>i < n. reply i \<noteq> IoBlock \<and> handshake_answer (reply i) = None) \<and> handshake_answer (reply n) = Some v)"
proof -
  let ?c = "g_netlink_ctx s"
  let ?h = "after_request os ?c (handshake_request os cip sip cport sport ?c h) h"
  let ?l = "recv_loop os (sk_fd ?c) handshake_switch (daddr ?c) ?h"
  have "(\<exists>s' h'. tlshub_handshake os cip sip cport sport s h = Some (Ret v, s', h')) \<longleftrightarrow>
      (\<exists>e a h'. ?l = Some (e, a, h') \<and> v = wait_value e)"
    using tlshub_handshake_ready [OF assms(1) refl assms(2)] by (auto split: option.splits)
  also have "\<dots> \<longleftrightarrow> (\<exists>n e. first_decisive os (sk_fd ?c) handshake_switch ?h n e \<and> v = wait_value e)"
    by (auto simp: recv_loop_iff simp del: recv_hist.simps recv_addr.simps)
  also have "\<dots> \<longleftrightarrow> (\<exists>n. (\<forall>i < n. reply i \<noteq> IoBlock \<and> handshake_answer (reply i) = None) \<and>
      reply n \<noteq> IoBlock \<and> (\<exists>e. verdict handshake_switch (reply n) = Some e \<and> v = wait_value e))"
    unfolding first_decisive_def reply_def verdict_handshake_iff(1) by blast
  also have "\<dots> \<longleftrightarrow> (\<exists>n. (\<forall>i < n. reply i \<noteq> IoBlock \<and> handshake_answer (reply i) = None) \<and> handshake_answer (reply n) = Some v)"
    unfolding verdict_handshake_iff(2) by (auto simp: handshake_answer_def)
  finally show ?thesis .
qed

theorem handshake_follows_first_decisive_reply_witness:
  "let c = \<lparr>sk_fd = 5, nlh = Some \<lparr>buf_ptr = 4096, buf_hdr = new_hdr\<rparr>, daddr = kernel_addr\<rparr>;
       s = api_init\<lparr>g_netlink_ctx := c\<rparr>
   in ready_ctx c \<and> (\<exists>s' h'. tlshub_handshake (const_os good_reply) 1 2 80 443 s [] = Some (Ret 0, s', h'))"
proof -
  let ?c = "\<lparr>sk_fd = 5, nlh = Some \<lparr>buf_ptr = 4096, buf_hdr = new_hdr\<rparr>, daddr = kernel_addr\<rparr>"
  let ?s = "api_init\<lparr>g_netlink_ctx := ?c\<rparr>"
  have ready: "ready_ctx (g_netlink_ctx ?s)" by (simp add: ready_ctx_def)
  have "handshake_answer good_reply = Some 0"
    by (simp add: handshake_answer_def good_reply_def reply_bytes_16) (simp add: reply_bytes_def)
  then have "\<exists>s' h'. tlshub_handshake (const_os good_reply) 1 2 80 443 ?s [] = Some (Ret 0, s', h')"
    by (subst handshake_follows_first_decisive_reply [OF ready])
      (auto simp: handshake_request_def intro!: exI [of _ 0])
  with ready show ?thesis by (simp add: Let_def)
qed

text \<open>
  Remark (handshake_request_layout). The payload of the handshake request, whatever the
  uninitialised stack bytes were, is read by the receiver as the caller's tuple with opcode
  \<open>START\<close>; its port fields are big-endian on the wire and the whole message has the length
  its header announces.
\<close>

theorem handshake_request_layout:
  "read_my_msg (request_payload (handshake_request os cip sip cport sport c h)) =
     \<lparr>client_pod_ip = cip, server_pod_ip = sip, client_pod_port = htons cport,
      server_pod_port = htons sport, opcode = opcode_byte TLS_SERVICE_START, server = 0\<rparr> \<and>
   bytes_at 8 2 (request_payload (handshake_request os cip sip cport sport c h)) =
     [of_nat (unat cport div 256), of_nat (unat cport mod 256)] \<and>
   bytes_at 10 2 (request_payload (handshake_request os cip sip cport sport c h)) =
     [of_nat (unat sport div 256), of_nat (unat sport mod 256)] \<and>
   length (handshake_request os cip sip cport sport c h) = unat (nlmsg_len new_hdr)"
  by (simp add: handshake_request_def handshake_msg_read my_msg_size_def new_hdr_def)
    (simp add: handshake_msg_def set_field_defs bytes_at_put_same bytes_at_put_other le16_htons)

text \<open>
  Property C11 (api_calls_leak_nothing). After any sequence of handshakes and key fetches
  that all came back, the thread holds at most the one socket and the one message buffer that
  its context records, compared with where it started; everything else was closed and freed.
\<close>

theorem api_calls_leak_nothing:
  assumes "run_steps (api_step os) cs ([], api_init, h0) = Some (rs, s, h)"
  shows "fd_balance h x = fd_balance h0 x +
           (if sk_fd (g_netlink_ctx s) = x \<and> x \<noteq> -1 then 1 else 0) \<and>
         mem_balance h p = mem_balance h0 p +
           (case nlh (g_netlink_ctx s) of None \<Rightarrow> 0 | Some b \<Rightarrow> if buf_ptr b = p \<and> p \<noteq> NULL then 1 else 0)"
proof -
  have "api_owns h0 ([], api_init, h0)" by (simp add: api_owns_def api_init_def owns_empty_ctx)
  then have "api_owns h0 (rs, s, h)" using assms by (rule api.run_inv)
  then show ?thesis by (simp add: api_owns_def owns_def fd_owned_def mem_owned_def)
qed

theorem api_calls_leak_nothing_witness:
  "\<exists>rs s h. run_steps (api_step (const_os good_reply))
        [Handshake 1 2 80 443, FetchKey 1 2 80 443, Handshake 1 2 80 444] ([], api_init, []) = Some (rs, s, h) \<and>
      fd_balance h 5 = 1 \<and> mem_balance h 4096 = 1"
proof -
  obtain rs s h where run: "run_steps (api_step (const_os good_reply))
      [Handshake 1 2 80 443, FetchKey 1 2 80 443, Handshake 1 2 80 444] ([], api_init, []) = Some (rs, s, h)"
    and "sk_fd (g_netlink_ctx s) = 5" "map_option buf_ptr (nlh (g_netlink_ctx s)) = Some 4096"
    by (simp add: api_defs Let_def recv_loop_const handshake_switch_def api_init_def empty_ctx_def)
  then show ?thesis
    using api_calls_leak_nothing [OF run, of 5 4096] by (auto simp: balance)
qed

subsection \<open>Where requests go\<close>

text \<open>
  The context's peer address is also the buffer \<^verbatim>\<open>recvfrom\<close> fills in, so requests reach the
  kernel only as long as the kernel is the only sender.
\<close>

definition sends_to_kernel :: "hist \<Rightarrow> bool" where
  "sends_to_kernel h \<longleftrightarrow> list_all (\<lambda>e. case e of SendTo fd a bs r \<Rightarrow> a = kernel_addr | _ \<Rightarrow> True) h"

lemma sends_to_kernel_simps [simp]:
  "sends_to_kernel []" "sends_to_kernel (h @ h') \<longleftrightarrow> sends_to_kernel h \<and> sends_to_kernel h'"
  "sends_to_kernel (SendTo fd a bs r # h) \<longleftrightarrow> a = kernel_addr \<and> sends_to_kernel h"
  "sends_to_kernel (tm_event os h1 # h) = sends_to_kernel h" "sends_to_kernel (RecvFrom fd io # h) = sends_to_kernel h"
  "sends_to_kernel (Socket n # h) = sends_to_kernel h" "sends_to_kernel (Bind n b n' # h) = sends_to_kernel h"
  "sends_to_kernel (Close n # h) = sends_to_kernel h" "sends_to_kernel (Malloc k q # h) = sends_to_kernel h"
  "sends_to_kernel (Free q # h) = sends_to_kernel h" "sends_to_kernel (map (RecvFrom fd) rs)"
  by (simp_all add: sends_to_kernel_def tm_event_def list.pred_map list.pred_True comp_def)

definition peer_ok :: "netlink_context \<Rightarrow> bool" where
  "peer_ok c \<longleftrightarrow> sk_fd c = -1 \<or> daddr c = kernel_addr"

definition kernel_only :: "os \<Rightarrow> bool" where
  "kernel_only os \<longleftrightarrow> (\<forall>h fd src bs. os_recvfrom os h fd = IoData src bs \<longrightarrow> src = kernel_addr)"

lemma ctx_ops_kernel:
  "netlink_ctx_init os c h = (r, c', h') \<Longrightarrow> peer_ok c \<Longrightarrow> sends_to_kernel h \<Longrightarrow> peer_ok c' \<and> sends_to_kernel h'"
  "netlink_ctx_alloc_msg os c h = (r, c', h') \<Longrightarrow> peer_ok c \<Longrightarrow> sends_to_kernel h \<Longrightarrow> peer_ok c' \<and> sends_to_kernel h'"
  "netlink_ctx_cleanup c b h = (c', h') \<Longrightarrow> peer_ok c \<Longrightarrow> sends_to_kernel h \<Longrightarrow> peer_ok c' \<and> sends_to_kernel h'"
  by (auto simp: netlink_ctx_init_def netlink_ctx_alloc_msg_def netlink_ctx_cleanup_def peer_ok_def Let_def
      split: if_splits option.splits prod.splits)

lemma recv_loop_kernel:
  assumes "kernel_only os" and "recv_loop os fd sw kernel_addr h = Some (e, a, h')" and "sends_to_kernel h"
  shows "a = kernel_addr \<and> sends_to_kernel h'"
proof -
  obtain n where "a = recv_addr os fd (Suc n) kernel_addr h"
    using assms(2) by (auto simp: recv_loop_iff simp del: recv_addr.simps)
  moreover have "recv_addr os fd (Suc n) kernel_addr h = kernel_addr"
    using assms(1) by (intro recv_addr_const) (auto simp: kernel_only_def)
  moreover obtain rs where "h' = h @ map (RecvFrom fd) rs" using recv_loop_events [OF assms(2)] by blast
  ultimately show ?thesis using assms(3) by simp
qed

lemma handshake_exchange_kernel:
  assumes "kernel_only os" and "handshake_exchange os b m s h = Some (out, s', h')"
    and "peer_ok (g_netlink_ctx s)" and "sends_to_kernel h"
  shows "peer_ok (g_netlink_ctx s') \<and> sends_to_kernel h'"
proof (cases "sk_fd (g_netlink_ctx s) < 0")
  case True
  with assms show ?thesis by (auto simp: handshake_exchange_def Let_def tm_simps)
next
  case False
  then have a: "daddr (g_netlink_ctx s) = kernel_addr" using assms(3) by (auto simp: peer_ok_def)
  let ?h2 = "after_request os (g_netlink_ctx s) (request_bytes (buf_hdr b) m) h"
  have h2: "sends_to_kernel ?h2" using assms(4) by (simp add: after_request_def a)
  with assms(2,3) False show ?thesis
    by (auto simp: handshake_exchange_def Let_def tm_simps a after_request_def peer_ok_def
        split: if_splits option.splits prod.splits wait_end.splits
        dest!: recv_loop_kernel [OF assms(1)] ctx_ops_kernel(3) [unfolded peer_ok_def])
qed

lemma fetch_exchange_kernel:
  assumes "fetch_exchange os c bs s h = Some (out, s', h')" and "daddr c = kernel_addr"
    and "sends_to_kernel h"
  shows "sends_to_kernel h'"
  using assms
  by (auto simp: fetch_exchange_def netlink_ctx_cleanup_def Let_def tm_simps split: if_splits option.splits)

lemma tlshub_handshake_kernel:
  assumes "kernel_only os" and "tlshub_handshake os cip sip cp sp s h = Some (out, s', h')"
    and "peer_ok (g_netlink_ctx s)" and "sends_to_kernel h"
  shows "peer_ok (g_netlink_ctx s') \<and> sends_to_kernel h'"
proof -
  obtain r1 c1 h1 where 1: "netlink_ctx_init os (g_netlink_ctx s) h = (r1, c1, h1)" by (metis prod_cases3)
  obtain r2 c2 h2 where 2: "netlink_ctx_alloc_msg os c1 h1 = (r2, c2, h2)" by (metis prod_cases3)
  have k1: "peer_ok c1 \<and> sends_to_kernel h1" using ctx_ops_kernel(1) [OF 1 assms(3,4)] .
  then have k2: "peer_ok c2 \<and> sends_to_kernel h2" using ctx_ops_kernel(2) [OF 2] by blast
  show ?thesis
  proof (cases "r1 = 0 \<and> r2 = 0")
    case False
    with assms(2) 1 2 k1 k2 show ?thesis by (auto simp: tlshub_handshake_def Let_def split: if_splits)
  next
    case True
    then obtain b where b: "nlh c2 = Some b" using 2 netlink_ctx_alloc_msg_ok by blast
    let ?b = "b\<lparr>buf_hdr := (buf_hdr b)\<lparr>nlmsg_pid := os_gettid os h2\<rparr>\<rparr>"
    have "handshake_exchange os ?b (handshake_msg cip sip cp sp (uninit os h2 my_msg_size))
        (s\<lparr>g_netlink_ctx := c2\<lparr>nlh := Some ?b\<rparr>\<rparr>) h2 = Some (out, s', h')"
      using assms(2) 1 2 b True by (simp add: tlshub_handshake_def Let_def)
    then show ?thesis by (rule handshake_exchange_kernel [OF assms(1)]) (use k2 in \<open>simp_all add: peer_ok_def\<close>)
  qed
qed

lemma tlshub_fetch_key_kernel:
  assumes "tlshub_fetch_key os cip sip cp sp s h = Some (out, s', h')" and "sends_to_kernel h"
  shows "sends_to_kernel h'"
proof -
  obtain r1 c1 h1 where 1: "netlink_ctx_init os empty_ctx h = (r1, c1, h1)" by (metis prod_cases3)
  obtain r2 c2 h2 where 2: "netlink_ctx_alloc_msg os c1 h1 = (r2, c2, h2)" by (metis prod_cases3)
  have k1: "peer_ok c1 \<and> sends_to_kernel h1"
    using ctx_ops_kernel(1) [OF 1] assms(2) by (simp add: peer_ok_def empty_ctx_def)
  then have k2: "peer_ok c2 \<and> sends_to_kernel h2" using ctx_ops_kernel(2) [OF 2] by blast
  have "sends_to_kernel (snd (netlink_ctx_cleanup c2 True h2))"
    using ctx_ops_kernel(3) [of c2 True h2] k2 by (metis prod.collapse)
  moreover have "r1 = 0 \<Longrightarrow> r2 = 0 \<Longrightarrow> daddr c2 = kernel_addr"
    using netlink_ctx_init_addr netlink_ctx_alloc_msg_ok 1 2 by (fastforce simp: empty_ctx_def)
  ultimately show ?thesis using assms(1) 1 2 k1 k2
    by (auto simp: tlshub_fetch_key_def Let_def split: if_splits option.splits dest: fetch_exchange_kernel)
qed

definition api_kernel :: "result list \<times> api_state \<times> hist \<Rightarrow> bool" where
  "api_kernel = (\<lambda>(rs, s, h). peer_ok (g_netlink_ctx s) \<and> sends_to_kernel h)"

lemma api_kernel_steps: "kernel_only os \<Longrightarrow> invariant_steps (api_step os) api_kernel"
proof
  fix st c st' assume k: "kernel_only os" "api_kernel st" "api_step os c st = Some st'"
  then show "api_kernel st'"
    by (cases st; cases st') (auto simp: api_kernel_def elim!: api_stepE dest: tlshub_handshake_kernel [OF k(1)]
        tlshub_fetch_key_kernel fetch_key_neutral simp del: api_step.simps)
qed

text \<open>
  Property C12 (api_requests_reach_kernel). If every datagram the thread receives comes from the
  kernel, then every request of any sequence of API calls is addressed to the kernel.
\<close>

theorem api_requests_reach_kernel:
  assumes "kernel_only os" and "run_steps (api_step os) cs ([], api_init, []) = Some (rs, s, h)"
    and "SendTo fd a bs r \<in> set h"
  shows "a = kernel_addr"
proof -
  have "api_kernel ([], api_init, [])" by (simp add: api_kernel_def api_init_def empty_ctx_def peer_ok_def)
  then have "api_kernel (rs, s, h)"
    using assms(2) by (rule invariant_steps.run_inv [OF api_kernel_steps [OF assms(1)]])
  with assms(3) show ?thesis by (fastforce simp: api_kernel_def sends_to_kernel_def list_all_iff)
qed

theorem api_requests_reach_kernel_witness:
  "\<exists>rs s h bs. run_steps (api_step (const_os good_reply)) [Handshake 1 2 80 443] ([], api_init, []) = Some (rs, s, h) \<and>
     SendTo 5 kernel_addr bs 32 \<in> set h"
proof -
  let ?os = "const_os good_reply"
  have k: "kernel_only ?os" by (simp add: kernel_only_def good_reply_def)
  obtain rs s h a bs where run: "run_steps (api_step ?os) [Handshake 1 2 80 443] ([], api_init, []) = Some (rs, s, h)"
    and mem: "SendTo 5 a bs 32 \<in> set h"
    by (simp add: api_defs Let_def recv_loop_const handshake_switch_def api_init_def empty_ctx_def
        tm_event_def)
  show ?thesis using run mem api_requests_reach_kernel [OF k run mem] by blast
qed

subsection \<open>What a key fetch returns\<close>

text \<open>The history of a key fetch up to the receive, when every call before it succeeds.\<close>

definition fetch_hist :: "os \<Rightarrow> u32 \<Rightarrow> u32 \<Rightarrow> u16 \<Rightarrow> u16 \<Rightarrow> hist \<Rightarrow> hist" where
  "fetch_hist os cip sip cport sport h =
     (let fd = os_socket os h;
          h1 = h @ [Socket fd, Bind fd (bind_addr (os_gettid os (h @ [Socket fd]))) 0];
          h2 = h1 @ [Malloc nlmsg_space (os_malloc os h1 nlmsg_space)];
          h3 = h2 @ [tm_event os h2];
          bs = request_bytes (new_hdr\<lparr>nlmsg_pid := os_gettid os h2\<rparr>)
                 (fetch_msg cip sip cport sport (uninit os h2 my_msg_size))
      in h3 @ [SendTo fd kernel_addr bs (os_sendto os h3 fd kernel_addr bs)])"

lemma fetch_key_up:
  assumes "net_up os" and "r = os_recvfrom os (fetch_hist os cip sip cport sport h) (os_socket os h)"
    and "r \<noteq> IoBlock" and "recv_ret user_msg_info_size r \<noteq> 0"
  shows "\<exists>s' h'. tlshub_fetch_key os cip sip cport sport s h =
           Some (Ret (read_key_back (u_msg (recv_buf user_msg_info_size r))), s', h')"
  using assms(2-4) by (simp add: api_defs Let_def fetch_hist_def empty_ctx_def net_upD [OF assms(1)])

text \<open>
  Property C9 (fetch_key_roundtrip). When the system calls up to the receive succeed and the kernel answers a key fetch with a
  status and a 32-byte master key, behind any Netlink header and message type and from any sender, \<^verbatim>\<open>tlshub_fetch_key\<close> returns
  exactly this status (as a signed integer) and key.
\<close>

theorem fetch_key_roundtrip:
  assumes "net_up os" and "length k = 32"
    and "os_recvfrom os (fetch_hist os cip sip cport sport h) (os_socket os h) =
           IoData src (reply_bytes n t (key_back_bytes st k))"
  shows "\<exists>s' h'. tlshub_fetch_key os cip sip cport sport s h =
           Some (Ret \<lparr>status = sint st, masterkey = k\<rparr>, s', h')"
proof -
  let ?r = "IoData src (reply_bytes n t (key_back_bytes st k))"
  have len: "length (key_back_bytes st k) = 36" using assms(2) by (simp add: key_back_bytes_def)
  have "recv_ret user_msg_info_size ?r \<noteq> 0" by (simp add: reply_bytes_def layout len)
  moreover have "read_key_back (u_msg (recv_buf user_msg_info_size ?r)) = \<lparr>status = sint st, masterkey = k\<rparr>"
    using assms(2) by (simp add: recv_buf_reply_msg len read_key_back_bytes del: recv_buf.simps)
  ultimately show ?thesis
    using fetch_key_up [OF assms(1) refl, of cip sip cport sport h s] assms(3) by simp
qed

theorem fetch_key_roundtrip_witness:
  "\<exists>s' h'. tlshub_fetch_key (const_os good_reply) 1 2 80 443 api_init [] =
     Some (Ret \<lparr>status = 0, masterkey = replicate 32 9\<rparr>, s', h')"
  using fetch_key_roundtrip [of "const_os good_reply" "replicate 32 9" 1 2 80 443 "[]" kernel_addr "reply_hdr 53" 1 0 api_init]
  by (simp add: net_up_def good_reply_def)

text \<open>
  Remark (fetch_key_failure_reports_status_0). The status of the key is documented as 0 for
  a key, -1 when there is none. But when the socket cannot be created, and also when the
  receive fails, the function returns status 0 with an all-zero master key: its caller cannot
  tell this from a key.
\<close>

theorem fetch_key_failure_reports_status_0:
  assumes "os_socket os h = -1 \<or>
      net_up os \<and> os_recvfrom os (fetch_hist os cip sip cport sport h) (os_socket os h) = IoErr"
  shows "\<exists>s' h'. tlshub_fetch_key os cip sip cport sport s h =
           Some (Ret \<lparr>status = 0, masterkey = replicate 32 0\<rparr>, s', h')"
proof (cases "os_socket os h = -1")
  case True
  then show ?thesis
    by (simp add: tlshub_fetch_key_def netlink_ctx_init_def empty_ctx_def zero_key_back_def Let_def)
next
  case False
  with assms have up: "net_up os"
    and r: "os_recvfrom os (fetch_hist os cip sip cport sport h) (os_socket os h) = IoErr" by auto
  show ?thesis
    using fetch_key_up [OF up refl, of cip sip cport sport h s] by (simp add: r layout read_key_back_zero)
qed

theorem fetch_key_failure_reports_status_0_witness:
  "\<exists>s' h'. tlshub_fetch_key (const_os IoErr) 1 2 80 443 api_init [] =
     Some (Ret \<lparr>status = 0, masterkey = replicate 32 0\<rparr>, s', h')"
  using fetch_key_failure_reports_status_0 [of "const_os IoErr" "[]" 1 2 80 443 api_init]
  by (simp add: net_up_def)

subsection \<open>Service initialisation\<close>

text \<open>
  Remark (service_init_resources). Service initialisation that returns 0 or -1 has closed its
  socket and freed its message; when it returns -2 (the kernel sent an empty datagram) the
  socket and the message it created are left behind.
\<close>

theorem service_init_resources:
  assumes "tlshub_service_init os s h = Some (Ret v, s', h')" and "-1 \<le> os_socket os h"
  shows "(v = 0 \<or> v = -1) \<and> neutral h h' \<or>
         v = -2 \<and> (\<exists>p. p \<noteq> NULL \<and> fd_balance h' = (fd_balance h)(os_socket os h := fd_balance h (os_socket os h) + 1) \<and>
                     mem_balance h' = (mem_balance h)(p := mem_balance h p + 1))"
proof -
  obtain fd h1 where i: "init_user_netlink os h = (fd, h1)" by fastforce
  show ?thesis
  proof (cases "fd < 0")
    case True
    then have "neutral h h1" using i assms(2)
      by (auto simp: init_user_netlink_def Let_def neutral_def fun_eq_iff balance split: if_splits)
    with True assms(1) i show ?thesis by (simp add: tlshub_service_init_def)
  next
    case False
    then have fd: "fd = os_socket os h" "fd \<noteq> -1" and h1: "h1 = h @ [Socket fd, Bind fd (bind_addr (os_gettid os (h @ [Socket fd]))) 0]"
      using i by (auto simp: init_user_netlink_def Let_def split: if_splits)
    obtain b h2 where m: "malloc_netlink_pkthdr os h1 = (Ret b, h2)"
      using assms(1) i False
      by (auto simp: tlshub_service_init_def malloc_netlink_pkthdr_def Let_def split: if_splits)
    then have b: "buf_ptr b \<noteq> NULL" and h2: "h2 = h1 @ [Malloc nlmsg_space (buf_ptr b)]"
      by (auto simp: malloc_netlink_pkthdr_def Let_def split: if_splits)
    obtain bs ret e a h5 where h5: "recv_loop os fd service_init_switch kernel_addr
        (h2 @ [tm_event os h2, SendTo fd kernel_addr bs ret]) = Some (e, a, h5)"
      and res: "(case e of Decided w \<Rightarrow> v = w \<and> h' = h5 @ [tm_event os h5, Close fd, Free (buf_ptr b)]
               | RecvZero \<Rightarrow> v = -2 \<and> h' = h5)"
      using assms(1) i False m
      by (auto simp: tlshub_service_init_def Let_def tm_simps split: if_splits option.splits prod.splits wait_end.splits)
    have v: "e = Decided w \<Longrightarrow> w = 0" for w
      using h5 by (auto simp: recv_loop_iff first_decisive_def verdict_def service_init_switch_def split: if_splits)
    have bal: "fd_balance h5 x = fd_balance h x + (if fd = x then 1 else 0)"
      "mem_balance h5 p = mem_balance h p + (if buf_ptr b = p then 1 else 0)" for x p
      using recv_loop_neutral [OF h5] fd b by (simp_all add: neutral_def h1 h2 balance)
    show ?thesis
    proof (cases e)
      case (Decided w)
      then show ?thesis using res v bal b by (auto simp: neutral_def fun_eq_iff balance)
    next
      case RecvZero
      then show ?thesis using res bal b fd by (auto simp: fun_eq_iff intro!: exI [of _ "buf_ptr b"])
    qed
  qed
qed

theorem service_init_resources_witness:
  "\<exists>s' h'. tlshub_service_init (const_os (IoData kernel_addr [])) api_init [] = Some (Ret (-2), s', h') \<and> fd_balance h' 5 = 1"
proof -
  obtain s' h' where run: "tlshub_service_init (const_os (IoData kernel_addr [])) api_init [] = Some (Ret (-2), s', h')"
    by (simp add: api_defs Let_def recv_loop_const)
  show ?thesis using run service_init_resources [OF run] by (auto simp: balance)
qed

end
