(* ===== verification/Hypertls_Api.thy ===== *)
theory Hypertls_Api
  imports Tlshub_Api
begin

text \<open>
  The library \<^verbatim>\<open>tlshub-api/hypertls.c\<close>, under its older name: a second text of the API with its own copies of all functions. The
  structures and the wire format are those of \<open>Netlink_Msg\<close>. Every function is translated from this text and then
  proved equal to its counterpart, so whatever holds of one library holds of the other.
\<close>

section \<open>The library\<close>

definition hyper_log_fun :: "debug_level \<Rightarrow> debug_level \<Rightarrow> string \<Rightarrow> string" where
  "hyper_log_fun debugLevel level txt = (if debugLevel \<le> level then txt else [])"

definition hyper_tm_interval :: "os \<Rightarrow> int \<Rightarrow> int \<Rightarrow> api_state \<Rightarrow> hist \<Rightarrow> real \<times> api_state \<times> hist" where
  "hyper_tm_interval os stop user_time s h =
     (let s1 = (if user_time \<noteq> 0 \<and> tm_warning s then s\<lparr>tm_warning := False\<rparr> else s);
          now = os_clock os h CLOCK_REALTIME;
          h' = h @ [Clock CLOCK_REALTIME now]
      in if stop = TM_START then (0, s1\<lparr>tm_start := now\<rparr>, h')
         else (timespec_secs now - timespec_secs (tm_start s1), s1, h'))"

definition hyper_ctx_init :: "os \<Rightarrow> netlink_context \<Rightarrow> hist \<Rightarrow> int \<times> netlink_context \<times> hist" where
  "hyper_ctx_init os ctx h =
     (if sk_fd ctx \<noteq> -1 then (0, ctx, h)
      else
        let fd = os_socket os h; h1 = h @ [Socket fd] in
        if fd = -1 then (-1, ctx\<lparr>sk_fd := -1\<rparr>, h1)
        else
          let saddr = bind_addr (os_gettid os h1); r = os_bind os h1 fd saddr; h2 = h1 @ [Bind fd saddr r] in
          if r \<noteq> 0 then (-1, ctx\<lparr>sk_fd := -1\<rparr>, h2 @ [Close fd])
          else (0, ctx\<lparr>sk_fd := fd, daddr := kernel_addr\<rparr>, h2))"

definition hyper_ctx_alloc_msg :: "os \<Rightarrow> netlink_context \<Rightarrow> hist \<Rightarrow> int \<times> netlink_context \<times> hist" where
  "hyper_ctx_alloc_msg os ctx h =
     (if nlh ctx \<noteq> None then (0, ctx, h)
      else
        let p = os_malloc os h nlmsg_space; h1 = h @ [Malloc nlmsg_space p] in
        if p = NULL then (-1, ctx, h1)
        else (0, ctx\<lparr>nlh := Some \<lparr>buf_ptr = p, buf_hdr = new_hdr\<rparr>\<rparr>, h1))"

definition hyper_ctx_cleanup :: "netlink_context \<Rightarrow> bool \<Rightarrow> hist \<Rightarrow> netlink_context \<times> hist" where
  "hyper_ctx_cleanup ctx close_socket h =
     (let (ctx1, h1) = (case nlh ctx of
                          Some b \<Rightarrow> (ctx\<lparr>nlh := None\<rparr>, h @ [Free (buf_ptr b)])
                        | None \<Rightarrow> (ctx, h))
      in if close_socket \<and> sk_fd ctx1 \<noteq> -1 then (ctx1\<lparr>sk_fd := -1\<rparr>, h1 @ [Close (sk_fd ctx1)])
         else (ctx1, h1))"

definition hyper_init_user_netlink :: "os \<Rightarrow> hist \<Rightarrow> int \<times> hist" where
  "hyper_init_user_netlink os h =
     (let fd = os_socket os h; h1 = h @ [Socket fd] in
      if fd = -1 then (-1, h1)
      else
        let saddr = bind_addr (os_gettid os h1); r = os_bind os h1 fd saddr; h2 = h1 @ [Bind fd saddr r] in
        if r \<noteq> 0 then (-1, h2 @ [Close fd]) else (fd, h2))"

definition hyper_malloc_pkthdr :: "os \<Rightarrow> hist \<Rightarrow> nlbuf outcome \<times> hist" where
  "hyper_malloc_pkthdr os h =
     (let p = os_malloc os h nlmsg_space; h1 = h @ [Malloc nlmsg_space p] in
      if p = NULL then (Fault, h1)
      else (Ret \<lparr>buf_ptr = p, buf_hdr = new_hdr\<lparr>nlmsg_pid := os_gettid os h1\<rparr>\<rparr>, h1))"

text \<open>\<^verbatim>\<open>nlh < 0\<close>, the check after the allocation: no pointer is below the null pointer.\<close>

definition ptr_less_0 :: "ptr \<Rightarrow> bool" where
  "ptr_less_0 p \<longleftrightarrow> p < NULL"

definition hyper_service_init_switch :: "byte \<Rightarrow> int option" where
  "hyper_service_init_switch t = (if t = 7 then Some 0 else None)"

definition hypertls_service_init :: "os \<Rightarrow> api_state \<Rightarrow> hist \<Rightarrow> (int outcome \<times> api_state \<times> hist) option" where
  "hypertls_service_init os s h =
     (let (fd, h1) = hyper_init_user_netlink os h in
      if fd < 0 then Some (Ret (-1), s, h1)
      else case hyper_malloc_pkthdr os h1 of
        (Ret b, h2) \<Rightarrow>
          if ptr_less_0 (buf_ptr b) then Some (Ret (-1), s, h2)
          else
          (let mmsg = set_server True (set_opcode TLS_SERVICE_INIT (uninit os h2 my_msg_size));
               (t, s1, h3) = hyper_tm_interval os TM_START 0 s h2;
               bs = request_bytes (buf_hdr b) mmsg;
               ret = os_sendto os h3 fd kernel_addr bs;
               h4 = h3 @ [SendTo fd kernel_addr bs ret]
           in if ret = 0 then Some (Exit (-1), s1, h4 @ [Close fd])
              else case recv_loop os fd hyper_service_init_switch kernel_addr h4 of
                None \<Rightarrow> None
              | Some (RecvZero, a, h5) \<Rightarrow> Some (Ret (-2), s1, h5)
              | Some (Decided v, a, h5) \<Rightarrow>
                  (let (t', s2, h6) = hyper_tm_interval os 0 0 s1 h5
                   in Some (Ret v, s2, h6 @ [Close fd, Free (buf_ptr b)])))
      | (_, h2) \<Rightarrow> Some (Fault, s, h2))"

definition hyper_handshake_switch :: "byte \<Rightarrow> int option" where
  "hyper_handshake_switch t =
     (if t = 1 \<or> t = 2 \<or> t = 5 then Some 0 else if t = 3 then Some (-1) else None)"

definition hyper_handshake_msg :: "u32 \<Rightarrow> u32 \<Rightarrow> u16 \<Rightarrow> u16 \<Rightarrow> byte list \<Rightarrow> byte list" where
  "hyper_handshake_msg cip sip cport sport m =
     set_server False (set_server_pod_port (htons sport) (set_client_pod_port (htons cport)
       (set_server_pod_ip sip (set_client_pod_ip cip (set_opcode TLS_SERVICE_START m)))))"

definition hyper_handshake_exchange ::
  "os \<Rightarrow> nlbuf \<Rightarrow> byte list \<Rightarrow> api_state \<Rightarrow> hist \<Rightarrow> (int outcome \<times> api_state \<times> hist) option"
where
  "hyper_handshake_exchange os b mmsg s h =
     (let c = g_netlink_ctx s;
          (t, s1, h1) = hyper_tm_interval os TM_START 0 s h
      in if sk_fd c < 0 then Some (Ret (-1), s1, h1)
         else
           let bs = request_bytes (buf_hdr b) mmsg;
               ret = os_sendto os h1 (sk_fd c) (daddr c) bs;
               h2 = h1 @ [SendTo (sk_fd c) (daddr c) bs ret]
           in if ret = 0 then
                (let (c', h3) = hyper_ctx_cleanup c True h2
                 in Some (Exit (-1), s1\<lparr>g_netlink_ctx := c'\<rparr>, h3))
              else case recv_loop os (sk_fd c) hyper_handshake_switch (daddr c) h2 of
                None \<Rightarrow> None
              | Some (RecvZero, a, h3) \<Rightarrow> Some (Ret (-2), s1\<lparr>g_netlink_ctx := c\<lparr>daddr := a\<rparr>\<rparr>, h3)
              | Some (Decided v, a, h3) \<Rightarrow>
                  (let (t', s2, h4) = hyper_tm_interval os 0 0 (s1\<lparr>g_netlink_ctx := c\<lparr>daddr := a\<rparr>\<rparr>) h3
                   in Some (Ret v, s2, h4)))"

definition hypertls_handshake ::
  "os \<Rightarrow> u32 \<Rightarrow> u32 \<Rightarrow> u16 \<Rightarrow> u16 \<Rightarrow> api_state \<Rightarrow> hist \<Rightarrow> (int outcome \<times> api_state \<times> hist) option"
where
  "hypertls_handshake os cip sip cport sport s h =
     (let (r1, c1, h1) = hyper_ctx_init os (g_netlink_ctx s) h in
      if r1 \<noteq> 0 then Some (Ret (-1), s\<lparr>g_netlink_ctx := c1\<rparr>, h1)
      else
        let (r2, c2, h2) = hyper_ctx_alloc_msg os c1 h1 in
        if r2 \<noteq> 0 then Some (Ret (-1), s\<lparr>g_netlink_ctx := c2\<rparr>, h2)
        else case nlh c2 of
          None \<Rightarrow> Some (Fault, s\<lparr>g_netlink_ctx := c2\<rparr>, h2)
        | Some b \<Rightarrow>
            (let b' = b\<lparr>buf_hdr := (buf_hdr b)\<lparr>nlmsg_pid := os_gettid os h2\<rparr>\<rparr>
             in hyper_handshake_exchange os b' (hyper_handshake_msg cip sip cport sport (uninit os h2 my_msg_size))
                  (s\<lparr>g_netlink_ctx := c2\<lparr>nlh := Some b'\<rparr>\<rparr>) h2))"

definition hyper_fetch_msg :: "u32 \<Rightarrow> u32 \<Rightarrow> u16 \<Rightarrow> u16 \<Rightarrow> byte list \<Rightarrow> byte list" where
  "hyper_fetch_msg cip sip cport sport m =
     set_server_pod_port (htons sport) (set_client_pod_port (htons cport)
       (set_server_pod_ip sip (set_client_pod_ip cip (set_opcode TLS_SERVICE_FETCH m))))"

definition hyper_fetch_exchange ::
  "os \<Rightarrow> netlink_context \<Rightarrow> byte list \<Rightarrow> api_state \<Rightarrow> hist \<Rightarrow> (key_back outcome \<times> api_state \<times> hist) option"
where
  "hyper_fetch_exchange os c bs s h =
     (let (t, s1, h1) = hyper_tm_interval os TM_START 0 s h;
          ret = os_sendto os h1 (sk_fd c) (daddr c) bs;
          h2 = h1 @ [SendTo (sk_fd c) (daddr c) bs ret]
      in if ret = 0 then Some (Exit (-1), s1, snd (hyper_ctx_cleanup c True h2))
         else
           let r = os_recvfrom os h2 (sk_fd c); h3 = h2 @ [RecvFrom (sk_fd c) r] in
           if r = IoBlock then None
           else if recv_ret user_msg_info_size r = 0 then
             Some (Exit (-1), s1, snd (hyper_ctx_cleanup c True h3))
           else
             let key = read_key_back (u_msg (recv_buf user_msg_info_size r));
                 h4 = snd (hyper_ctx_cleanup c True h3);
                 (t', s2, h5) = hyper_tm_interval os 0 0 s1 h4
             in Some (Ret key, s2, h5))"

definition hypertls_fetch_key ::
  "os \<Rightarrow> u32 \<Rightarrow> u32 \<Rightarrow> u16 \<Rightarrow> u16 \<Rightarrow> api_state \<Rightarrow> hist \<Rightarrow> (key_back outcome \<times> api_state \<times> hist) option"
where
  "hypertls_fetch_key os cip sip cport sport s h =
     (let (r1, c1, h1) = hyper_ctx_init os empty_ctx h in
      if r1 \<noteq> 0 then Some (Ret zero_key_back, s, h1)
      else
        let (r2, c2, h2) = hyper_ctx_alloc_msg os c1 h1 in
        if r2 \<noteq> 0 then Some (Ret zero_key_back, s, snd (hyper_ctx_cleanup c2 True h2))
        else case nlh c2 of
          None \<Rightarrow> Some (Fault, s, h2)
        | Some b \<Rightarrow>
            hyper_fetch_exchange os c2
              (request_bytes ((buf_hdr b)\<lparr>nlmsg_pid := os_gettid os h2\<rparr>)
                 (hyper_fetch_msg cip sip cport sport (uninit os h2 my_msg_size))) s h2)"

section \<open>Equality with the TLShub API\<close>

lemma hyper_log_fun_eq: "hyper_log_fun = log_fun"
  by (simp add: fun_eq_iff hyper_log_fun_def log_fun_def)

lemma hyper_tm_interval_eq: "hyper_tm_interval = app_tm_interval"
  by (simp add: fun_eq_iff hyper_tm_interval_def app_tm_interval_def)

lemma hyper_ctx_init_eq: "hyper_ctx_init = netlink_ctx_init"
  by (simp add: fun_eq_iff hyper_ctx_init_def netlink_ctx_init_def)

lemma hyper_ctx_alloc_msg_eq: "hyper_ctx_alloc_msg = netlink_ctx_alloc_msg"
  by (simp add: fun_eq_iff hyper_ctx_alloc_msg_def netlink_ctx_alloc_msg_def)

lemma hyper_ctx_cleanup_eq: "hyper_ctx_cleanup = netlink_ctx_cleanup"
  by (simp add: fun_eq_iff hyper_ctx_cleanup_def netlink_ctx_cleanup_def)

lemma hyper_init_user_netlink_eq: "hyper_init_user_netlink = init_user_netlink"
  by (simp add: fun_eq_iff hyper_init_user_netlink_def init_user_netlink_def)

lemma hyper_malloc_pkthdr_eq: "hyper_malloc_pkthdr = malloc_netlink_pkthdr"
  by (simp add: fun_eq_iff hyper_malloc_pkthdr_def malloc_netlink_pkthdr_def)

lemmas hyper_eqs =
  hyper_tm_interval_eq hyper_ctx_init_eq hyper_ctx_alloc_msg_eq hyper_ctx_cleanup_eq hyper_init_user_netlink_eq hyper_malloc_pkthdr_eq

lemma hyper_service_init_switch_eq: "hyper_service_init_switch = service_init_switch"
  by (simp add: fun_eq_iff hyper_service_init_switch_def service_init_switch_def)

lemma hyper_handshake_switch_eq: "hyper_handshake_switch = handshake_switch"
  by (simp add: fun_eq_iff hyper_handshake_switch_def handshake_switch_def)

lemma hyper_handshake_msg_eq: "hyper_handshake_msg = handshake_msg"
  by (simp add: fun_eq_iff hyper_handshake_msg_def handshake_msg_def)

lemma hyper_fetch_msg_eq: "hyper_fetch_msg = fetch_msg"
  by (simp add: fun_eq_iff hyper_fetch_msg_def fetch_msg_def)

lemma never_less_0: "ptr_less_0 p = False"
  by (simp add: ptr_less_0_def)

lemma hypertls_service_init_eq: "hypertls_service_init = tlshub_service_init"
  unfolding fun_eq_iff hypertls_service_init_def tlshub_service_init_def hyper_eqs hyper_service_init_switch_eq
    never_less_0 if_False by blast

lemma hyper_handshake_exchange_eq: "hyper_handshake_exchange = handshake_exchange"
  unfolding fun_eq_iff hyper_handshake_exchange_def handshake_exchange_def hyper_eqs hyper_handshake_switch_eq by blast

lemma hypertls_handshake_eq: "hypertls_handshake = tlshub_handshake"
  unfolding fun_eq_iff hypertls_handshake_def tlshub_handshake_def hyper_eqs
    hyper_handshake_exchange_eq hyper_handshake_msg_eq by blast

lemma hyper_fetch_exchange_eq: "hyper_fetch_exchange = fetch_exchange"
  unfolding fun_eq_iff hyper_fetch_exchange_def fetch_exchange_def hyper_eqs by blast

lemma hypertls_fetch_key_eq: "hypertls_fetch_key = tlshub_fetch_key"
  unfolding fun_eq_iff hypertls_fetch_key_def tlshub_fetch_key_def hyper_eqs
    hyper_fetch_exchange_eq hyper_fetch_msg_eq by blast

text \<open>A client of the HyperTLS library: what a call returns, and a call of a thread that collects its results.\<close>

fun hyper_result :: "os \<Rightarrow> api_call \<Rightarrow> api_state \<Rightarrow> hist \<Rightarrow> (result outcome \<times> api_state \<times> hist) option" where
  "hyper_result os (Handshake cip sip cp sp) s h = map_option (apfst (map_outcome Code)) (hypertls_handshake os cip sip cp sp s h)"
| "hyper_result os (FetchKey cip sip cp sp) s h = map_option (apfst (map_outcome Key)) (hypertls_fetch_key os cip sip cp sp s h)"

fun hyper_step :: "os \<Rightarrow> api_call \<Rightarrow> result list \<times> api_state \<times> hist \<Rightarrow> (result list \<times> api_state \<times> hist) option" where
  "hyper_step os c (rs, s, h) = (case hyper_result os c s h of Some (Ret v, s', h') \<Rightarrow> Some (rs @ [v], s', h') | _ \<Rightarrow> None)"

lemma hyper_result_eq: "hyper_result os c s h = call_result os c s h"
  by (cases c) (simp_all add: hypertls_handshake_eq hypertls_fetch_key_eq)

lemma hyper_step_eq: "hyper_step os = api_step os"
  by (intro ext) (auto simp: hyper_result_eq)

text \<open>
  Property C10 (hypertls_equals_tlshub). The HyperTLS library and the TLShub library cannot be told apart, in any environment:
  service initialisation, and a handshake or key fetch from any state of the thread, return the same value (the return code, or
  the status and key bytes), leave the same thread state and make the same system calls, and fail, block or end the process in the
  same cases; and any sequence of calls collects the same list of results. In particular the unreachable check
  \<^verbatim>\<open>nlh < 0\<close> makes no difference, because the null pointer it misses has been dereferenced before.
\<close>

theorem hypertls_equals_tlshub:
  "hypertls_service_init os s h = tlshub_service_init os s h \<and>
   hypertls_handshake os cip sip cp sp s h = tlshub_handshake os cip sip cp sp s h \<and>
   hypertls_fetch_key os cip sip cp sp s h = tlshub_fetch_key os cip sip cp sp s h \<and>
   run_steps (hyper_step os) cs st = run_steps (api_step os) cs st"
  by (simp add: hypertls_service_init_eq hypertls_handshake_eq hypertls_fetch_key_eq hyper_step_eq)

end
