(* ===== verification/CLib.thy ===== *)
theory CLib
  imports Prelude
begin

text \<open>
  The part of the C string and stream library the sources use, on characters: zero-terminated
  arrays, \<^verbatim>\<open>fgets\<close>, the \<^verbatim>\<open>%s\<close> conversions of \<^verbatim>\<open>sscanf\<close>, \<^verbatim>\<open>strncpy\<close>, \<^verbatim>\<open>strcmp\<close>, the number conversions and the
  decimal and padded output of \<^verbatim>\<open>printf\<close>.
\<close>

section \<open>Zero-terminated arrays\<close>

definition NUL :: char where "NUL = CHR 0x00"

text \<open>The string that starts at the beginning of an array: everything before the first zero byte.\<close>

definition c_str :: "string \<Rightarrow> string" where
  "c_str a = takeWhile (\<lambda>c. c \<noteq> NUL) a"

lemma c_str_append_NUL [simp]: "NUL \<notin> set s \<Longrightarrow> c_str (s @ NUL # t) = s"
  unfolding c_str_def by (rule takeWhile_append_stop) auto

lemma c_str_no_NUL [simp]: "NUL \<notin> set (c_str a)"
  by (auto simp: c_str_def dest: set_takeWhileD)

lemma c_str_id: "NUL \<notin> set s \<Longrightarrow> c_str s = s"
  unfolding c_str_def by (rule takeWhile_eq_all_conv [THEN iffD2]) auto

lemma c_str_replicate_NUL [simp]: "c_str (replicate n NUL) = []"
  by (cases n) (simp_all add: c_str_def)

text \<open>
  \<^verbatim>\<open>strncpy(dst, src, n)\<close>: the characters of \<open>src\<close>, cut to \<open>n\<close>, then zero bytes up to \<open>n\<close>; the bytes of
  \<open>dst\<close> from \<open>n\<close> on keep their value, so nothing terminates a source of \<open>n\<close> or more characters.
\<close>

definition strncpy :: "string \<Rightarrow> string \<Rightarrow> nat \<Rightarrow> string" where
  "strncpy dst src n = take n src @ replicate (n - length src) NUL @ drop n dst"

lemma length_strncpy [simp]: "n \<le> length dst \<Longrightarrow> length (strncpy dst src n) = length dst"
  by (auto simp: strncpy_def)

lemma c_str_strncpy:
  assumes "NUL \<notin> set src" and "length src \<le> n" and "length dst = Suc n" and "dst ! n = NUL"
  shows "c_str (strncpy dst src n) = src"
proof -
  have "drop n dst = [NUL]" using assms(3,4) by (simp add: Cons_nth_drop_Suc [symmetric])
  then have "strncpy dst src n = src @ NUL # replicate (n - length src) NUL"
    using assms(2) by (simp add: strncpy_def replicate_append_same)
  then show ?thesis using assms(1) by simp
qed

text \<open>A character array of \<open>n\<close> elements whose last byte is zero, hence holding a string whatever its other bytes are.\<close>

definition terminated :: "nat \<Rightarrow> string \<Rightarrow> bool" where
  "terminated n a \<longleftrightarrow> length a = n \<and> 0 < n \<and> a ! (n - 1) = NUL"

lemma terminated_strncpy: "terminated (Suc n) a \<Longrightarrow> terminated (Suc n) (strncpy a s n)"
  by (auto simp: terminated_def strncpy_def nth_append min_def)

section \<open>Reading lines\<close>

text \<open>
  \<^verbatim>\<open>fgets\<close> with a buffer of \<open>n\<close> bytes on the unread rest of a file: at most \<open>n - 1\<close> characters, up to and
  including the first newline. \<open>None\<close> is the null pointer at the end of the file.
\<close>

fun upto_newline :: "nat \<Rightarrow> string \<Rightarrow> string \<times> string" where
  "upto_newline 0 s = ([], s)"
| "upto_newline (Suc n) [] = ([], [])"
| "upto_newline (Suc n) (c # s) =
     (if c = CHR 0x0A then ([c], s) else let (l, r) = upto_newline n s in (c # l, r))"

definition fgets :: "nat \<Rightarrow> string \<Rightarrow> (string \<times> string) option" where
  "fgets n s = (if s = [] then None else Some (upto_newline (n - 1) s))"

lemma upto_newline_append: "upto_newline n s = (l, r) \<Longrightarrow> s = l @ r"
  by (induction n s arbitrary: l r rule: upto_newline.induct) (auto split: if_splits prod.splits)

lemma upto_newline_length: "upto_newline n s = (l, r) \<Longrightarrow> length l \<le> n"
  by (induction n s arbitrary: l r rule: upto_newline.induct) (auto split: if_splits prod.splits)

lemma upto_newline_shorter: "0 < n \<Longrightarrow> s \<noteq> [] \<Longrightarrow> upto_newline n s = (l, r) \<Longrightarrow> length r < length s"
  by (cases n; cases s) (auto dest: upto_newline_append split: if_splits prod.splits)

lemma upto_newline_line:
  "CHR 0x0A \<notin> set l \<Longrightarrow> length l < n \<Longrightarrow> upto_newline n (l @ CHR 0x0A # s) = (l @ [CHR 0x0A], s)"
  by (induction l arbitrary: n) (auto simp: less_Suc_eq_0_disj gr0_conv_Suc split: prod.splits elim!: Suc_lessE)

lemma fgets_shorter [termination_simp]: "fgets n s = Some (l, r) \<Longrightarrow> 2 \<le> n \<Longrightarrow> length r < length s"
  using upto_newline_shorter [of "n - 1" s l r] by (auto simp: fgets_def split: if_splits)

lemma fgets_length: "fgets n s = Some (l, r) \<Longrightarrow> length l \<le> n - 1"
  by (auto simp: fgets_def split: if_splits intro: upto_newline_length)

lemma fgets_line:
  "CHR 0x0A \<notin> set l \<Longrightarrow> length l < n - 1 \<Longrightarrow> fgets n (l @ CHR 0x0A # s) = Some (l @ [CHR 0x0A], s)"
  by (simp add: fgets_def upto_newline_line)

text \<open>All the buffers a loop over \<^verbatim>\<open>fgets\<close> sees, as strings.\<close>

fun chunks :: "nat \<Rightarrow> string \<Rightarrow> string list" where
  "chunks n s = (if n < 2 then [] else case fgets n s of None \<Rightarrow> [] | Some (l, r) \<Rightarrow> c_str l # chunks n r)"

declare chunks.simps [simp del]

text \<open>The first byte of the buffer: the terminating zero when the string is empty.\<close>

definition first_char :: "string \<Rightarrow> char" where
  "first_char s = (case s of [] \<Rightarrow> NUL | c # _ \<Rightarrow> c)"

section \<open>Scanning words\<close>

definition isspace :: "char \<Rightarrow> bool" where
  "isspace c \<longleftrightarrow> c \<in> {CHR '' '', CHR 0x09, CHR 0x0A, CHR 0x0B, CHR 0x0C, CHR 0x0D}"

text \<open>\<^verbatim>\<open>%s\<close>: white space is skipped, then a maximal non-empty run of other characters is taken.\<close>

definition skip_ws :: "string \<Rightarrow> string" where
  "skip_ws s = dropWhile isspace s"

definition scan_word :: "string \<Rightarrow> (string \<times> string) option" where
  "scan_word s =
     (let t = skip_ws s; w = takeWhile (\<lambda>c. \<not> isspace c) t
      in if w = [] then None else Some (w, dropWhile (\<lambda>c. \<not> isspace c) t))"

definition is_word :: "string \<Rightarrow> bool" where
  "is_word w \<longleftrightarrow> w \<noteq> [] \<and> (\<forall>c \<in> set w. \<not> isspace c \<and> c \<noteq> NUL)"

lemma scan_word_is_word: "scan_word s = Some (w, r) \<Longrightarrow> NUL \<notin> set s \<Longrightarrow> is_word w"
  by (auto simp: scan_word_def Let_def is_word_def skip_ws_def split: if_splits dest!: set_takeWhileD set_dropWhileD)

lemma scan_word_length: "scan_word s = Some (w, r) \<Longrightarrow> length w \<le> length s"
  by (auto simp: scan_word_def Let_def skip_ws_def split: if_splits
      intro: order_trans [OF length_takeWhile_le length_dropWhile_le])

lemma scan_word_words:
  assumes "is_word w" and "isspace c" and "list_all isspace p"
  shows "scan_word (p @ w @ c # r) = Some (w, c # r)"
proof -
  obtain d v where w: "w = d # v" "\<not> isspace d" using assms(1) by (cases w) (auto simp: is_word_def)
  have "skip_ws (p @ w @ c # r) = w @ c # r"
    using assms(3) w by (induction p) (auto simp: skip_ws_def)
  moreover have "takeWhile (\<lambda>c. \<not> isspace c) (w @ c # r) = w" "dropWhile (\<lambda>c. \<not> isspace c) (w @ c # r) = c # r"
    using assms(1,2) by (auto simp: is_word_def intro: takeWhile_append_stop)
  ultimately show ?thesis using w by (simp add: scan_word_def)
qed

text \<open>
  A conversion \<^verbatim>\<open>%s\<close> into an array of \<open>n\<close> bytes writes the word and a zero byte. There is no width in the
  formats the sources use, so a word of \<open>n\<close> or more characters is written past the end.
\<close>

datatype scan_result = Scanned "string list" string | ScanFault

fun scan_into :: "nat \<Rightarrow> string \<Rightarrow> scan_result" where
  "scan_into n s =
     (case scan_word s of
        None \<Rightarrow> Scanned [] s
      | Some (w, r) \<Rightarrow> if n \<le> length w then ScanFault else Scanned [w] r)"

text \<open>\<^verbatim>\<open>sscanf(s, "%s %s", a, b)\<close> with arrays of \<open>n\<close> and \<open>m\<close> bytes; the length of the list is the result.\<close>

definition sscanf_s_s :: "nat \<Rightarrow> nat \<Rightarrow> string \<Rightarrow> scan_result" where
  "sscanf_s_s n m s =
     (case scan_into n s of
        Scanned [a] r \<Rightarrow> (case scan_into m (skip_ws r) of Scanned bs r' \<Rightarrow> Scanned (a # bs) r' | ScanFault \<Rightarrow> ScanFault)
      | x \<Rightarrow> x)"

text \<open>\<^verbatim>\<open>sscanf(s, "%s = %s", a, b)\<close>.\<close>

definition sscanf_s_eq_s :: "nat \<Rightarrow> nat \<Rightarrow> string \<Rightarrow> scan_result" where
  "sscanf_s_eq_s n m s =
     (case scan_into n s of
        Scanned [a] r \<Rightarrow>
          (case skip_ws r of
             c # r' \<Rightarrow> if c = CHR ''='' then
                 (case scan_into m (skip_ws r') of Scanned bs r'' \<Rightarrow> Scanned (a # bs) r'' | ScanFault \<Rightarrow> ScanFault)
               else Scanned [a] (c # r')
           | [] \<Rightarrow> Scanned [a] [])
      | x \<Rightarrow> x)"

section \<open>Scanning numbers\<close>

definition is_digit :: "char \<Rightarrow> bool" where
  "is_digit c \<longleftrightarrow> 48 \<le> (of_char c :: nat) \<and> (of_char c :: nat) \<le> 57"

definition digit_val :: "char \<Rightarrow> nat" where
  "digit_val c = of_char c - 48"

definition dec_val :: "string \<Rightarrow> nat" where
  "dec_val ds = foldl (\<lambda>n c. 10 * n + digit_val c) 0 ds"

text \<open>An optional sign, then a non-empty run of digits.\<close>

definition scan_sign :: "string \<Rightarrow> bool \<times> string" where
  "scan_sign s = (case s of c # r \<Rightarrow> if c = CHR ''-'' then (True, r) else if c = CHR ''+'' then (False, r) else (False, s) | [] \<Rightarrow> (False, s))"

definition scan_digits :: "string \<Rightarrow> (nat \<times> string) option" where
  "scan_digits s = (let ds = takeWhile is_digit s in if ds = [] then None else Some (dec_val ds, dropWhile is_digit s))"

text \<open>
  \<^verbatim>\<open>%llu\<close>, with the conversion of \<^verbatim>\<open>strtoull\<close>: a value out of range gives the largest 64-bit number, and a minus
  sign negates modulo 2 to the 64.
\<close>

definition scan_ull :: "string \<Rightarrow> (u64 \<times> string) option" where
  "scan_ull s =
     (let (neg, t) = scan_sign (skip_ws s) in
      case scan_digits t of
        None \<Rightarrow> None
      | Some (n, r) \<Rightarrow>
          Some (if n < 2 ^ 64 then (if neg then - of_nat n else of_nat n) else - 1, r))"

text \<open>A sequence of such conversions, up to the first that fails.\<close>

fun scan_ulls :: "nat \<Rightarrow> string \<Rightarrow> u64 list" where
  "scan_ulls 0 s = []"
| "scan_ulls (Suc n) s = (case scan_ull s of None \<Rightarrow> [] | Some (v, r) \<Rightarrow> v # scan_ulls n r)"

text \<open>Literal characters of a format.\<close>

definition match_lit :: "string \<Rightarrow> string \<Rightarrow> string option" where
  "match_lit lit s = (if take (length lit) s = lit then Some (drop (length lit) s) else None)"

section \<open>Printing\<close>

definition digit_char :: "nat \<Rightarrow> char" where
  "digit_char d = char_of (48 + d)"

fun show_nat :: "nat \<Rightarrow> string" where
  "show_nat n = (if n < 10 then [digit_char n] else show_nat (n div 10) @ [digit_char (n mod 10)])"

declare show_nat.simps [simp del]

definition show_int :: "int \<Rightarrow> string" where
  "show_int i = (if i < 0 then CHR ''-'' # show_nat (nat (- i)) else show_nat (nat i))"

text \<open>\<^verbatim>\<open>%-ns\<close>: left-justified, padded with spaces to at least \<open>n\<close> characters.\<close>

definition pad_right :: "nat \<Rightarrow> string \<Rightarrow> string" where
  "pad_right n s = s @ replicate (n - length s) (CHR '' '')"

text \<open>
  \<^verbatim>\<open>%.kf\<close> of a real number: rounded to \<open>k\<close> decimals, ties to even, with a sign, at least one digit before
  the point and exactly \<open>k\<close> after it.
\<close>

definition round_even :: "real \<Rightarrow> int" where
  "round_even x = (let f = \<lfloor>x\<rfloor>; d = x - of_int f in if d < 1 / 2 then f else if d > 1 / 2 then f + 1 else if even f then f else f + 1)"

definition pad_zeros :: "nat \<Rightarrow> string \<Rightarrow> string" where
  "pad_zeros n s = replicate (n - length s) (CHR ''0'') @ s"

definition show_fixed :: "nat \<Rightarrow> real \<Rightarrow> string" where
  "show_fixed k x =
     (let n = nat (round_even (\<bar>x\<bar> * 10 ^ k))
      in (if x < 0 then ''-'' else []) @ show_nat (n div 10 ^ k) @ ''.'' @ pad_zeros k (show_nat (n mod 10 ^ k)))"

section \<open>Reading back what was printed\<close>

lemma of_char_digit_char: "d < 10 \<Longrightarrow> (of_char (digit_char d) :: nat) = 48 + d"
  by (simp add: digit_char_def of_char_of take_bit_nat_def)

lemma digit_char_values:
  "digit_char 0 = CHR ''0''" "digit_char (Suc 0) = CHR ''1''" "digit_char 2 = CHR ''2''" "digit_char 3 = CHR ''3''"
  "digit_char 4 = CHR ''4''" "digit_char 5 = CHR ''5''" "digit_char 6 = CHR ''6''" "digit_char 7 = CHR ''7''"
  "digit_char 8 = CHR ''8''" "digit_char 9 = CHR ''9''"
  by (simp_all add: digit_char_def char_of_def bit_iff_odd)

text \<open>Two equations that let the simplifier print a number.\<close>

lemma show_nat_steps:
  "n < 10 \<Longrightarrow> show_nat n = [digit_char n]"
  "10 \<le> n \<Longrightarrow> show_nat n = show_nat (n div 10) @ [digit_char (n mod 10)]"
  by (subst show_nat.simps, simp)+

lemma is_digit_digit_char [simp]: "d < 10 \<Longrightarrow> is_digit (digit_char d)"
  by (simp add: is_digit_def of_char_digit_char)

lemma digit_val_digit_char [simp]: "d < 10 \<Longrightarrow> digit_val (digit_char d) = d"
  by (simp add: digit_val_def of_char_digit_char)

lemma show_nat_digits: "\<forall>c \<in> set (show_nat n). is_digit c"
  by (induction n rule: show_nat.induct) (subst show_nat.simps, auto)

lemma show_nat_not_Nil [simp]: "show_nat n \<noteq> []"
  by (subst show_nat.simps) simp

lemma dec_val_snoc: "dec_val (ds @ [c]) = 10 * dec_val ds + digit_val c"
  by (simp add: dec_val_def)

lemma dec_val_show_nat [simp]: "dec_val (show_nat n) = n"
proof (induction n rule: show_nat.induct)
  case (1 n)
  show ?case
  proof (cases "n < 10")
    case True
    then show ?thesis by (subst show_nat.simps) (simp add: dec_val_def)
  next
    case False
    then show ?thesis using 1 by (subst show_nat.simps) (simp add: dec_val_snoc)
  qed
qed

lemma not_digit_first: "c \<in> {CHR ''-'', CHR ''+''} \<or> isspace c \<Longrightarrow> \<not> is_digit c"
  by (auto simp: isspace_def is_digit_def)

lemma scan_digits_show:
  assumes "r = [] \<or> \<not> is_digit (hd r)"
  shows "scan_digits (show_nat n @ r) = Some (n, r)"
proof -
  have t: "takeWhile is_digit r = []" "dropWhile is_digit r = r" using assms by (cases r; auto)+
  have "takeWhile is_digit (show_nat n @ r) = show_nat n" "dropWhile is_digit (show_nat n @ r) = r"
    using show_nat_digits [of n] t by (simp_all add: takeWhile_append2 dropWhile_append2)
  then show ?thesis by (simp add: scan_digits_def)
qed

lemma scan_ull_show:
  assumes "list_all isspace p" and "r = [] \<or> \<not> is_digit (hd r)"
  shows "scan_ull (p @ show_nat (unat v) @ r) = Some (v, r)"
proof -
  obtain c cs where c: "show_nat (unat v) = c # cs" by (cases "show_nat (unat v)") auto
  then have d: "is_digit c" using show_nat_digits [of "unat v"] by simp
  have "skip_ws (p @ show_nat (unat v) @ r) = show_nat (unat v) @ r"
    using assms(1) not_digit_first [of c] d by (induction p) (auto simp: skip_ws_def c)
  moreover have "scan_sign (show_nat (unat v) @ r) = (False, show_nat (unat v) @ r)"
    using not_digit_first [of c] d by (auto simp: scan_sign_def c)
  ultimately show ?thesis
    using scan_digits_show [OF assms(2), of "unat v"] unat_u64_less [of v] by (simp add: scan_ull_def)
qed

section \<open>Dotted addresses\<close>

fun split_on :: "char \<Rightarrow> string \<Rightarrow> string list" where
  "split_on d [] = [[]]"
| "split_on d (c # s) =
     (if c = d then [] # split_on d s
      else case split_on d s of [] \<Rightarrow> [[c]] | w # ws \<Rightarrow> (c # w) # ws)"

lemma split_on_not_Nil [simp]: "split_on d s \<noteq> []"
  by (induction s) (auto split: list.splits)

lemma split_on_word [simp]: "d \<notin> set w \<Longrightarrow> split_on d w = [w]"
  by (induction w) auto

lemma split_on_append: "d \<notin> set w \<Longrightarrow> split_on d (w @ d # s) = w # split_on d s"
  by (induction w) auto

text \<open>
  \<^verbatim>\<open>inet_pton(AF_INET, s, &addr)\<close>: four decimal numbers up to 255 without leading zeros; the bytes of the address are
  stored in this order, so the value read on a little-endian machine has the first number lowest.
\<close>

definition is_octet :: "string \<Rightarrow> bool" where
  "is_octet p \<longleftrightarrow> p \<noteq> [] \<and> list_all is_digit p \<and> dec_val p \<le> 255 \<and> (hd p = CHR ''0'' \<longrightarrow> length p = 1)"

definition inet_pton4 :: "string \<Rightarrow> u32 option" where
  "inet_pton4 s =
     (let ps = split_on (CHR ''.'') s in
      if length ps = 4 \<and> list_all is_octet ps then Some (of_nat (le_val (map (\<lambda>p. of_nat (dec_val p)) ps))) else None)"

definition show_ipv4 :: "byte \<Rightarrow> byte \<Rightarrow> byte \<Rightarrow> byte \<Rightarrow> string" where
  "show_ipv4 a b c d =
     show_nat (unat a) @ ''.'' @ show_nat (unat b) @ ''.'' @ show_nat (unat c) @ ''.'' @ show_nat (unat d)"

lemma show_nat_hd: "hd (show_nat n) = CHR ''0'' \<Longrightarrow> n = 0"
proof (induction n rule: show_nat.induct)
  case (1 n)
  show ?case
  proof (cases "n < 10")
    case True
    then have "hd (show_nat n) = digit_char n" by (subst show_nat.simps) simp
    with 1 have "digit_val (digit_char n) = digit_val (CHR ''0'')" by simp
    with True show ?thesis by (simp add: digit_val_def of_char_digit_char)
  next
    case False
    then have "hd (show_nat n) = hd (show_nat (n div 10))" by (subst show_nat.simps) (simp add: hd_append)
    with 1 False show ?thesis by fastforce
  qed
qed

lemma is_octet_show: "n < 256 \<Longrightarrow> is_octet (show_nat n)"
proof -
  assume n: "n < 256"
  have "hd (show_nat n) = CHR ''0'' \<Longrightarrow> length (show_nat n) = 1"
    using show_nat_hd [of n] by (simp add: show_nat.simps)
  then show ?thesis using n show_nat_digits [of n] by (simp add: is_octet_def list_all_iff)
qed

lemma inet_pton4_show: "inet_pton4 (show_ipv4 a b c d) = Some (of_nat (le_val [a, b, c, d]))"
proof -
  have "CHR ''.'' \<notin> set (show_nat n)" for n using show_nat_digits [of n] by (auto simp: is_digit_def)
  then have "split_on (CHR ''.'') (show_ipv4 a b c d) = map (\<lambda>x. show_nat (unat x)) [a, b, c, d]"
    by (simp add: show_ipv4_def split_on_append)
  then show ?thesis by (simp add: inet_pton4_def is_octet_show unat_byte_less)
qed

end
