(* ===== verification/Handshake_Driver.thy ===== *)
theory Handshake_Driver
  imports Hypertls_Api CLib
begin

text \<open>
  The test drivers \<^verbatim>\<open>tlshub-api/tlshub_handshake.c\<close> and \<^verbatim>\<open>tlshub-api/hypertls_handshake.c\<close>: three handshakes between two Pods given on
  the command line, on random ports, under an alarm of 30 seconds. The two programs differ only in the library they
  call, so the driver takes the handshake function as an argument.
\<close>

section \<open>Addresses\<close>

text \<open>
  \<^verbatim>\<open>inet_addr\<close>: one to four numbers in C notation (decimal, octal or hexadecimal) separated by points; the last one
  fills the remaining bytes. White space ends the text. The result is the address in network byte order, all ones for
  anything else.
\<close>

definition hex_val :: "char \<Rightarrow> nat" where
  "hex_val c =
     (let n = of_char c in
      if 48 \<le> n \<and> n \<le> 57 then n - 48 else if 97 \<le> n \<and> n \<le> 102 then n - 87 else if 65 \<le> n \<and> n \<le> 70 then n - 55 else 99)"

definition scan_base :: "nat \<Rightarrow> string \<Rightarrow> nat \<times> string" where
  "scan_base b s =
     (foldl (\<lambda>n c. b * n + hex_val c) 0 (takeWhile (\<lambda>c. hex_val c < b) s), dropWhile (\<lambda>c. hex_val c < b) s)"

definition strtoul0 :: "string \<Rightarrow> nat \<times> string" where
  "strtoul0 s =
     (if take 1 s = ''0'' then
        (case tl s of
           x # d # r \<Rightarrow> if (x = CHR ''x'' \<or> x = CHR ''X'') \<and> hex_val d < 16 then scan_base 16 (d # r) else scan_base 8 s
         | _ \<Rightarrow> scan_base 8 s)
      else scan_base 10 s)"

fun aton_parts :: "nat \<Rightarrow> string \<Rightarrow> nat list option" where
  "aton_parts n s =
     (if s = [] \<or> \<not> is_digit (hd s) then None
      else
        let (v, r) = strtoul0 s in
        if v > 4294967295 then None
        else if r = [] \<or> isspace (hd r) then Some [v]
        else if hd r = CHR ''.'' \<and> 0 < n \<and> v \<le> 255 then map_option (Cons v) (aton_parts (n - 1) (tl r))
        else None)"

declare aton_parts.simps [simp del]

definition inet_addr :: "string \<Rightarrow> u32" where
  "inet_addr s =
     (case aton_parts 3 s of
        None \<Rightarrow> 4294967295
      | Some ps \<Rightarrow>
          (let k = 5 - length ps in
           if last ps < 256 ^ k
           then of_nat (le_val (map of_nat (butlast ps) @ rev (le_bytes k (last ps))))
           else 4294967295))"

section \<open>The drivers\<close>

type_synonym handshake_fun =
  "os \<Rightarrow> u32 \<Rightarrow> u32 \<Rightarrow> u16 \<Rightarrow> u16 \<Rightarrow> api_state \<Rightarrow> hist \<Rightarrow> (int outcome \<times> api_state \<times> hist) option"

definition MIN_PORT :: int where "MIN_PORT = 10000"
definition MAX_PORT :: int where "MAX_PORT = 65000"

text \<open>The argument is the result of \<^verbatim>\<open>rand()\<close>, which is not negative.\<close>

definition get_random_port :: "nat \<Rightarrow> int" where
  "get_random_port r = MIN_PORT + int r mod (MAX_PORT - MIN_PORT + 1)"

definition TIMEOUT_SECONDS :: nat where "TIMEOUT_SECONDS = 30"

text \<open>What the signal handler writes to the standard error output, and how it ends the process.\<close>

definition timeout_handler :: "string \<times> int outcome" where
  "timeout_handler =
     (''ERROR: Test execution timed out after '' @ show_nat TIMEOUT_SECONDS @ '' seconds'' @ [CHR 0x0A], Exit 1)"

text \<open>
  The loop with \<open>k\<close> attempts to go. \<open>rnd\<close> is the sequence of random numbers, \<open>alarm i\<close> says whether the alarm goes off during
  the attempt \<open>i\<close> or the pause after it. A handshake that never returns is ended by the alarm.
\<close>

fun attempts ::
  "handshake_fun \<Rightarrow> os \<Rightarrow> (nat \<Rightarrow> nat) \<Rightarrow> (nat \<Rightarrow> bool) \<Rightarrow> u32 \<Rightarrow> u32 \<Rightarrow> nat \<Rightarrow> nat \<Rightarrow> api_state \<Rightarrow> hist \<Rightarrow>
     int outcome \<times> api_state \<times> hist"
where
  "attempts hs os rnd alarm cip sip 0 i s h = (Ret 0, s, h)"
| "attempts hs os rnd alarm cip sip (Suc k) i s h =
     (let client_port = get_random_port (rnd (2 * i)); server_port = get_random_port (rnd (2 * i + 1)) in
      case hs os cip sip (of_int client_port) (of_int server_port) s h of
        None \<Rightarrow> (snd timeout_handler, s, h)
      | Some (out, s', h') \<Rightarrow>
          if alarm i then (snd timeout_handler, s', h')
          else case out of
                 Ret rc \<Rightarrow> if rc = 0 then attempts hs os rnd alarm cip sip k (Suc i) s' h' else (Ret rc, s', h')
               | x \<Rightarrow> (x, s', h'))"

definition driver_main ::
  "handshake_fun \<Rightarrow> os \<Rightarrow> (nat \<Rightarrow> nat) \<Rightarrow> (nat \<Rightarrow> bool) \<Rightarrow> string list \<Rightarrow> api_state \<Rightarrow> hist \<Rightarrow> int outcome \<times> api_state \<times> hist"
where
  "driver_main hs os rnd alarm args s h =
     (case args of
        client_ip # server_ip # rest \<Rightarrow> attempts hs os rnd alarm (inet_addr client_ip) (inet_addr server_ip) 3 0 s h
      | _ \<Rightarrow> (Ret 1, s, h))"

definition tlshub_driver ::
  "os \<Rightarrow> (nat \<Rightarrow> nat) \<Rightarrow> (nat \<Rightarrow> bool) \<Rightarrow> string list \<Rightarrow> api_state \<Rightarrow> hist \<Rightarrow> int outcome \<times> api_state \<times> hist"
where
  "tlshub_driver = driver_main tlshub_handshake"

definition hypertls_driver ::
  "os \<Rightarrow> (nat \<Rightarrow> nat) \<Rightarrow> (nat \<Rightarrow> bool) \<Rightarrow> string list \<Rightarrow> api_state \<Rightarrow> hist \<Rightarrow> int outcome \<times> api_state \<times> hist"
where
  "hypertls_driver = driver_main hypertls_handshake"

section \<open>Addresses as users write them\<close>

lemma hex_val_digit: "is_digit c \<Longrightarrow> hex_val c = digit_val c \<and> digit_val c < 10"
  by (auto simp: is_digit_def hex_val_def digit_val_def Let_def)

lemma scan_base_10_show:
  assumes "r = [] \<or> hex_val (hd r) \<ge> 10"
  shows "scan_base 10 (show_nat n @ r) = (n, r)"
proof -
  have d: "\<forall>c \<in> set (show_nat n). hex_val c < 10" using show_nat_digits [of n] hex_val_digit by fastforce
  have r: "takeWhile (\<lambda>c. hex_val c < 10) r = []" "dropWhile (\<lambda>c. hex_val c < 10) r = r" using assms by (cases r; auto)+
  have "foldl (\<lambda>n c. 10 * n + hex_val c) a ds = foldl (\<lambda>n c. 10 * n + digit_val c) a ds" if "\<forall>c \<in> set ds. is_digit c" for a ds
    using that by (induction ds arbitrary: a) (simp_all add: hex_val_digit)
  then have "foldl (\<lambda>n c. 10 * n + hex_val c) 0 (show_nat n) = n"
    using show_nat_digits [of n] dec_val_show_nat [of n] by (simp add: dec_val_def)
  then show ?thesis using d r by (simp add: scan_base_def takeWhile_append2 dropWhile_append2)
qed

lemma strtoul0_show:
  assumes "r = [] \<or> hd r = CHR ''.''"
  shows "strtoul0 (show_nat n @ r) = (n, r)"
proof (cases "n = 0")
  case True
  then have "show_nat n = ''0''" by (simp add: show_nat.simps digit_char_def char_of_def bit_0)
  then show ?thesis using assms True by (cases r) (auto simp: strtoul0_def scan_base_def hex_val_def split: list.splits)
next
  case False
  then have "hd (show_nat n) \<noteq> CHR ''0''" using show_nat_hd by blast
  then have "take 1 (show_nat n @ r) \<noteq> ''0''" by (cases "show_nat n") auto
  then show ?thesis using assms scan_base_10_show [of r n] by (auto simp: strtoul0_def hex_val_def)
qed

lemma aton_parts_show:
  assumes "n < 256"
  shows "aton_parts k (show_nat n) = Some [n]"
    "aton_parts (Suc k) (show_nat n @ CHR ''.'' # s) = map_option (Cons n) (aton_parts k s)"
proof -
  have d: "is_digit (hd (show_nat n))" using show_nat_digits [of n] by (cases "show_nat n") auto
  show "aton_parts k (show_nat n) = Some [n]"
    using assms d strtoul0_show [of "[]" n] by (subst aton_parts.simps) simp
  show "aton_parts (Suc k) (show_nat n @ CHR ''.'' # s) = map_option (Cons n) (aton_parts k s)"
    using assms d strtoul0_show [of "CHR ''.'' # s" n] by (subst aton_parts.simps) (simp add: isspace_def)
qed

lemma inet_addr_show: "inet_addr (show_ipv4 a b c d) = of_nat (le_val [a, b, c, d])"
proof -
  have "aton_parts 3 (show_ipv4 a b c d) = Some [unat a, unat b, unat c, unat d]"
    by (simp add: show_ipv4_def numeral_3_eq_3 aton_parts_show unat_byte_less)
  then show ?thesis using unat_byte_less [of d] by (simp add: inet_addr_def)
qed

section \<open>What a successful run shows\<close>

lemma random_port: "of_int (get_random_port r) = (of_nat (10000 + r mod 55001) :: u16)"
proof -
  have "get_random_port r = int (10000 + r mod 55001)" by (simp add: get_random_port_def MIN_PORT_def MAX_PORT_def of_nat_mod)
  then show ?thesis by (simp only: of_int_of_nat_eq)
qed

lemma timeout_exits [simp]: "snd timeout_handler = Exit 1"
  by (simp add: timeout_handler_def)

lemma run_results:
  "run_steps (api_step os) cs (rs, s, h) = Some (rs', s', h') \<Longrightarrow> \<exists>us. rs' = rs @ us \<and> length us = length cs"
proof (induction cs arbitrary: rs s h)
  case (Cons c cs)
  from Cons.prems obtain v s1 h1 where "run_steps (api_step os) cs (rs @ [v], s1, h1) = Some (rs', s', h')"
    by (auto split: option.splits outcome.splits)
  from Cons.IH [OF this] show ?case by auto
qed simp

text \<open>The call the attempt \<open>i\<close> makes.\<close>

abbreviation nth_call :: "(nat \<Rightarrow> nat) \<Rightarrow> u32 \<Rightarrow> u32 \<Rightarrow> nat \<Rightarrow> api_call" where
  "nth_call rnd cip sip i \<equiv>
     Handshake cip sip (of_nat (10000 + rnd (2 * i) mod 55001)) (of_nat (10000 + rnd (2 * i + 1) mod 55001))"

lemma attempts_success:
  "attempts tlshub_handshake os rnd alarm cip sip k i s h = (Ret 0, s', h') \<longleftrightarrow>
     (\<forall>j \<in> {i..<i + k}. \<not> alarm j) \<and>
     run_steps (api_step os) (map (nth_call rnd cip sip) [i..<i + k]) (rs, s, h) = Some (rs @ replicate k (Code 0), s', h')"
proof (induction k arbitrary: i rs s h)
  case (Suc k)
  let ?c = "nth_call rnd cip sip"
  have up: "[i..<Suc (i + k)] = i # [Suc i..<Suc (i + k)]" by (simp add: upt_conv_Cons del: upt_Suc)
  have al: "(\<forall>j \<in> {i..<Suc (i + k)}. \<not> alarm j) \<longleftrightarrow> \<not> alarm i \<and> (\<forall>j \<in> {Suc i..<Suc (i + k)}. \<not> alarm j)"
    by (auto simp: Suc_le_eq)
  show ?case
  proof (cases "\<exists>s1 h1. call_result os (?c i) s h = Some (Ret (Code 0), s1, h1)")
    case True
    then obtain s1 h1 where one: "tlshub_handshake os cip sip (of_int (get_random_port (rnd (2 * i))))
        (of_int (get_random_port (rnd (2 * i + 1)))) s h = Some (Ret 0, s1, h1)"
      by (auto simp: map_outcome_Ret random_port)
    then have "api_step os (?c i) (rs, s, h) = Some (rs @ [Code 0], s1, h1)" by (simp add: random_port)
    then show ?thesis using Suc.IH [of "Suc i" s1 h1 "rs @ [Code 0]"] one
      by (auto simp: up al Let_def simp del: upt_Suc api_step.simps)
  next
    case False
    have "attempts tlshub_handshake os rnd alarm cip sip (Suc k) i s h \<noteq> (Ret 0, s', h')"
      using False by (auto simp: Let_def map_outcome_Ret random_port split: option.splits prod.splits if_splits outcome.splits)
    moreover have "run_steps (api_step os) (map ?c [i..<i + Suc k]) (rs, s, h) \<noteq> Some (rs @ replicate (Suc k) (Code 0), s', h')"
    proof
      assume run: "run_steps (api_step os) (map ?c [i..<i + Suc k]) (rs, s, h) = Some (rs @ replicate (Suc k) (Code 0), s', h')"
      then obtain v s1 h1 where c: "call_result os (?c i) s h = Some (Ret v, s1, h1)"
        and rest: "run_steps (api_step os) (map ?c [Suc i..<Suc i + k]) (rs @ [v], s1, h1) = Some (rs @ replicate (Suc k) (Code 0), s', h')"
        by (auto simp: up simp del: upt_Suc call_result.simps split: option.splits outcome.splits)
      from run_results [OF rest] have "v = Code 0" by auto
      with c False show False by blast
    qed
    ultimately show ?thesis by blast
  qed
qed auto

text \<open>
  Property C35 (driver_success_means_three_handshakes). The test driver, given two dotted addresses, ends with status 0 exactly
  when the alarm stays silent and the three handshakes with these addresses, on the ports drawn from the range 10000 to 65000,
  all return 0 from the library; it then leaves the state and the history of these three calls. The driver for the HyperTLS
  library behaves identically for every command line, whatever the status.
\<close>

theorem driver_success_means_three_handshakes:
  "(tlshub_driver os rnd alarm [show_ipv4 a b c d, show_ipv4 a' b' c' d'] s h = (Ret 0, s', h') \<longleftrightarrow>
     \<not> alarm 0 \<and> \<not> alarm 1 \<and> \<not> alarm 2 \<and>
     run_steps (api_step os)
       (map (\<lambda>i. Handshake (of_nat (le_val [a, b, c, d])) (of_nat (le_val [a', b', c', d']))
               (of_nat (10000 + rnd (2 * i) mod 55001)) (of_nat (10000 + rnd (2 * i + 1) mod 55001))) [0, 1, 2])
       ([], s, h) = Some ([Code 0, Code 0, Code 0], s', h')) \<and>
   hypertls_driver os rnd alarm args s h = tlshub_driver os rnd alarm args s h"
proof -
  have "[0..<0 + 3] = [0, 1, 2 :: nat]" "replicate 3 (Code 0) = [Code 0, Code 0, Code 0]" "{0..<0 + 3} = {0, 1, 2 :: nat}"
    by (auto simp: upt_conv_Cons numeral_3_eq_3)
  then show ?thesis
    using attempts_success [of os rnd alarm "of_nat (le_val [a, b, c, d])" "of_nat (le_val [a', b', c', d'])" 3 0 s h s' h' "[]"]
    by (simp add: tlshub_driver_def hypertls_driver_def driver_main_def inet_addr_show hypertls_handshake_eq
        del: le_val.simps api_step.simps)
qed

theorem driver_success_means_three_handshakes_witness:
  "\<exists>s' h'. tlshub_driver (const_os good_reply) (\<lambda>i. i) (\<lambda>i. False) [show_ipv4 10 0 0 1, show_ipv4 10 0 0 2] api_init [] = (Ret 0, s', h')"
  by (subst driver_success_means_three_handshakes [THEN conjunct1])
    (simp add: api_defs Let_def recv_loop_const handshake_switch_def api_init_def empty_ctx_def del: le_val.simps)

end
