(* ===== verification/Text_Export.thy ===== *)
theory Text_Export
  imports CLib
begin

text \<open>
  The pieces of text that the JSON and CSV writers of both programs of the repository are made of, and what a reader of
  such a text needs: lists with separators and lines.
\<close>

section \<open>JSON pieces\<close>

definition nl :: string where "nl = [CHR 0x0A]"

definition quoted :: "string \<Rightarrow> string" where
  "quoted s = [CHR 0x22] @ s @ [CHR 0x22]"

definition show_u64 :: "u64 \<Rightarrow> string" where
  "show_u64 v = show_nat (unat v)"

text \<open>One member of a JSON object on a line of its own: indentation, name, value and separator.\<close>

definition member :: "nat \<Rightarrow> string \<Rightarrow> string \<Rightarrow> string \<Rightarrow> string" where
  "member n name val sep = replicate n (CHR '' '') @ quoted name @ '': '' @ val @ sep @ nl"

section \<open>Separated lists\<close>

fun join :: "'a list \<Rightarrow> 'a list list \<Rightarrow> 'a list" where
  "join sep [] = []"
| "join sep [x] = x"
| "join sep (x # y # ys) = x @ sep @ join sep (y # ys)"

lemma join_snoc: "xs \<noteq> [] \<Longrightarrow> join sep (xs @ [x]) = join sep xs @ sep @ x"
  by (induction sep xs rule: join.induct) auto

lemma concat_join:
  "concat (map (\<lambda>i. f i @ (if i < n then c else []) @ e) [0..<Suc n]) = join (c @ e) (map f [0..<Suc n]) @ e"
proof -
  have "concat (map (\<lambda>i. f i @ c @ e) [0..<n]) @ f n = join (c @ e) (map f [0..<Suc n])"
  proof (induction n)
    case (Suc n)
    have "map f [0..<Suc n] \<noteq> []" by simp
    then have "join (c @ e) (map f [0..<Suc n] @ [f (Suc n)]) = join (c @ e) (map f [0..<Suc n]) @ (c @ e) @ f (Suc n)"
      by (rule join_snoc)
    then show ?case using Suc by (simp flip: append_assoc)
  qed simp
  note body = this
  have eq: "map (\<lambda>i. f i @ (if i < n then c else []) @ e) [0..<n] = map (\<lambda>i. f i @ c @ e) [0..<n]" by simp
  have "concat (map (\<lambda>i. f i @ (if i < n then c else []) @ e) [0..<Suc n]) = (concat (map (\<lambda>i. f i @ c @ e) [0..<n]) @ f n) @ e"
    by (simp add: eq)
  then show ?thesis unfolding body .
qed

section \<open>Lines\<close>

fun split_lines :: "string \<Rightarrow> string list" where
  "split_lines [] = []"
| "split_lines (c # s) =
     (if c = CHR 0x0A then [] # split_lines s
      else case split_lines s of [] \<Rightarrow> [[c]] | l # ls \<Rightarrow> (c # l) # ls)"

lemma split_lines_line: "CHR 0x0A \<notin> set l \<Longrightarrow> split_lines (l @ CHR 0x0A # s) = l # split_lines s"
  by (induction l) auto

text \<open>Lines of text, each with its newline.\<close>

definition text_lines :: "string list \<Rightarrow> string" where
  "text_lines ls = concat (map (\<lambda>l. l @ nl) ls)"

lemma split_text_lines: "\<forall>l \<in> set ls. CHR 0x0A \<notin> set l \<Longrightarrow> split_lines (text_lines ls) = ls"
  by (induction ls) (simp_all add: text_lines_def nl_def split_lines_line)

lemma show_nat_no_newline: "CHR 0x0A \<notin> set (show_nat n)"
  using show_nat_digits [of n] by (auto simp: is_digit_def)

lemma show_fixed_no_newline: "CHR 0x0A \<notin> set (show_fixed k x)"
  using show_nat_no_newline by (auto simp: show_fixed_def Let_def pad_zeros_def)

end
