(* ===== verification/Api_Console.thy ===== *)
theory Api_Console
  imports Handshake_Driver Text_Export
begin

text \<open>
  What the two API libraries print: the diagnostics of \<^verbatim>\<open>DEBUG_PRINTF\<close> and the hex dump. Printing has one effect on the
  behaviour: the receive loops print the message of each reply with \<^verbatim>\<open>%s\<close>, which reads the array up to a zero byte and past its
  end when there is none.
\<close>

section \<open>Diagnostics\<close>

text \<open>\<^verbatim>\<open>DEBUG_PRINTF\<close>: the position of the call, then the text.\<close>

definition debug_printf :: "debug_level \<Rightarrow> debug_level \<Rightarrow> string \<Rightarrow> string \<Rightarrow> int \<Rightarrow> string \<Rightarrow> string" where
  "debug_printf debugLevel level file func line msg =
     log_fun debugLevel level (file @ ''-->'' @ func @ ''('' @ show_int line @ ''): '' @ msg)"

definition hyper_debug_printf :: "debug_level \<Rightarrow> debug_level \<Rightarrow> string \<Rightarrow> string \<Rightarrow> int \<Rightarrow> string \<Rightarrow> string" where
  "hyper_debug_printf debugLevel level file func line msg =
     hyper_log_fun debugLevel level (file @ ''-->'' @ func @ ''('' @ show_int line @ ''): '' @ msg)"

text \<open>A character array printed with \<^verbatim>\<open>%s\<close>; \<open>None\<close> is a read past its end, into the padding of the
  structure at first.\<close>

definition print_s :: "byte list \<Rightarrow> string option" where
  "print_s bs = (if 0 \<in> set bs then Some (map (char_of \<circ> unat) (takeWhile (\<lambda>b. b \<noteq> 0) bs)) else None)"

text \<open>
  The receive loop with its diagnostics. \<open>say\<close> prints a text at one of the two places of the loop, \<open>shown\<close> says whether
  the threshold lets debug messages through (otherwise \<^verbatim>\<open>vfprintf\<close> is not called and nothing is read), \<open>msg\<close> is the text of
  the error message. The output is added to \<open>out\<close>.
\<close>

record loop_log =
  say_error :: string
  say_message :: "string \<Rightarrow> string"
  shown :: bool

partial_function (option) recv_loop_printing ::
  "loop_log \<Rightarrow> os \<Rightarrow> int \<Rightarrow> (byte \<Rightarrow> int option) \<Rightarrow> sockaddr_nl \<Rightarrow> hist \<Rightarrow> string \<Rightarrow>
     ((wait_end \<times> sockaddr_nl \<times> hist) outcome \<times> string) option"
where
  "recv_loop_printing l os fd sw a h out =
     (let r = os_recvfrom os h fd; a' = recv_src a r; h' = h @ [RecvFrom fd r]; u_info = recv_buf user_msg_info_size r in
      if r = IoBlock then None
      else if recv_ret user_msg_info_size r = 0 then Some (Ret (RecvZero, a', h'), out @ say_error l)
      else if shown l \<and> print_s (u_msg u_info) = None then Some (Fault, out)
      else
        let out' = (if shown l then out @ say_message l (the (print_s (u_msg u_info)) @ nl) else out) in
        case sw (u_msg_type u_info) of
          Some v \<Rightarrow> Some (Ret (Decided v, a', h'), out')
        | None \<Rightarrow> recv_loop_printing l os fd sw a' h' out')"

declare recv_loop_printing.simps [code]

text \<open>The texts of \<^verbatim>\<open>tlshub_handshake\<close> and of its HyperTLS counterpart.\<close>

definition handshake_log :: "debug_level \<Rightarrow> loop_log" where
  "handshake_log debugLevel =
     \<lparr>say_error = debug_printf debugLevel DEBUG_LEVEL_ERR ''tlshub.c'' ''tlshub_handshake'' 350 (''recv from kernel error'' @ nl),
      say_message = debug_printf debugLevel DEBUG_LEVEL_DEBUG ''tlshub.c'' ''tlshub_handshake'' 353,
      shown = (debugLevel \<le> DEBUG_LEVEL_DEBUG)\<rparr>"

definition hyper_handshake_log :: "debug_level \<Rightarrow> loop_log" where
  "hyper_handshake_log debugLevel =
     \<lparr>say_error = hyper_debug_printf debugLevel DEBUG_LEVEL_ERR ''hypertls.c'' ''hypertls_handshake'' 350 (''recv form kernel error'' @ nl),
      say_message = hyper_debug_printf debugLevel DEBUG_LEVEL_DEBUG ''hypertls.c'' ''hypertls_handshake'' 353,
      shown = (debugLevel \<le> DEBUG_LEVEL_DEBUG)\<rparr>"

section \<open>Printing does not change the result, unless it reads too far\<close>

text \<open>A reply whose message can be printed: it ends in a zero byte within the array, as every reply shorter than it does.\<close>

definition printable :: "io_result \<Rightarrow> bool" where
  "printable r \<longleftrightarrow> 0 \<in> set (u_msg (recv_buf user_msg_info_size r))"

lemma printable_short: "length m < 125 \<Longrightarrow> printable (IoData src (reply_bytes n t m))"
  by (auto simp: printable_def recv_buf_reply_msg simp del: recv_buf.simps)

lemma printable_error: "printable IoErr"
  by (simp add: printable_def layout u_msg_def bytes_at_replicate)

lemma recv_loop_printing_unfold:
  "recv_loop_printing l os fd sw a h out =
     (let r = os_recvfrom os h fd; a' = recv_src a r; h' = h @ [RecvFrom fd r] in
      if r = IoBlock then None
      else if recv_ret user_msg_info_size r = 0 then Some (Ret (RecvZero, a', h'), out @ say_error l)
      else if shown l \<and> \<not> printable r then Some (Fault, out)
      else
        let out' = (if shown l then out @ say_message l (the (print_s (u_msg (recv_buf user_msg_info_size r))) @ nl) else out) in
        case verdict sw r of
          Some e \<Rightarrow> Some (Ret (e, a', h'), out')
        | None \<Rightarrow> recv_loop_printing l os fd sw a' h' out')"
  by (subst recv_loop_printing.simps) (simp add: verdict_def printable_def print_s_def Let_def split: option.splits)

lemma printing_complete:
  assumes "first_decisive os fd sw h n e" and "shown l \<Longrightarrow> \<forall>i \<le> n. printable (reply_at os fd h i)"
  shows "\<exists>out'. recv_loop_printing l os fd sw a h out =
           Some (Ret (e, recv_addr os fd (Suc n) a h, recv_hist os fd (Suc n) h), out')"
  using assms
proof (induction n arbitrary: a h out)
  case 0
  have "e = RecvZero" if "recv_ret user_msg_info_size (os_recvfrom os h fd) = 0"
    using 0 that by (simp add: first_decisive_0 verdict_def)
  then show ?case using 0 by (subst recv_loop_printing_unfold) (auto simp: first_decisive_0 Let_def)
next
  case (Suc n)
  let ?r = "os_recvfrom os h fd"
  have r: "?r \<noteq> IoBlock" "verdict sw ?r = None" and d: "first_decisive os fd sw (h @ [RecvFrom fd ?r]) n e"
    using Suc.prems(1) by (simp_all add: first_decisive_Suc)
  have nz: "recv_ret user_msg_info_size ?r \<noteq> 0" using r(2) by (auto simp: verdict_def)
  have p: "shown l \<Longrightarrow> printable ?r" using Suc.prems(2) [THEN spec, of 0] by simp
  have "\<forall>i \<le> n. printable (reply_at os fd (h @ [RecvFrom fd ?r]) i)" if "shown l"
    using Suc.prems(2) [OF that] by (metis Suc_le_mono reply_at_Suc)
  from Suc.IH [OF d this] show ?case using r nz p by (subst recv_loop_printing_unfold) (simp add: Let_def)
qed

lemma printing_sound:
  assumes "recv_loop_printing l os fd sw a h out = Some res" and "\<forall>n. printable (reply_at os fd h n)"
  shows "\<exists>n e. first_decisive os fd sw h n e"
proof (rule recv_loop_printing.raw_induct [where P = "\<lambda>l os fd sw a h out res. (\<forall>n. printable (reply_at os fd h n)) \<longrightarrow> (\<exists>n e. first_decisive os fd sw h n e)", THEN mp, OF _ assms(1) assms(2)], goal_cases)
  case (1 f l os fd sw a h out res)
  let ?r = "os_recvfrom os h fd"
  let ?h = "h @ [RecvFrom fd ?r]"
  show ?case
  proof (intro impI)
    assume p: "\<forall>n. printable (reply_at os fd h n)"
    have nb: "?r \<noteq> IoBlock" using 1(2) by (auto simp: Let_def)
    show "\<exists>n e. first_decisive os fd sw h n e"
    proof (cases "verdict sw ?r")
      case None
      have pr: "print_s (u_msg (recv_buf user_msg_info_size ?r)) \<noteq> None"
        using p [THEN spec, of 0] by (simp add: printable_def print_s_def)
      then obtain out' where "f l os fd sw (recv_src a ?r) ?h out' = Some res"
        using 1(2) None nb by (auto simp: verdict_def Let_def split: if_splits option.splits)
      moreover have "\<forall>n. printable (reply_at os fd ?h n)" using p by (metis reply_at_Suc)
      ultimately obtain n e where "first_decisive os fd sw ?h n e" using 1(1) by blast
      with nb None have "first_decisive os fd sw h (Suc n) e" by (simp add: first_decisive_Suc)
      then show ?thesis by blast
    next
      case (Some e)
      with nb have "first_decisive os fd sw h 0 e" by (simp add: first_decisive_0)
      then show ?thesis by blast
    qed
  qed
qed

text \<open>
  Property C40 (diagnostics_can_overrun). When the threshold lets debug messages through, a handshake that receives a datagram
  with the full header and message whose 125 message bytes (bytes 17 to 141) contain no zero reads past the message array,
  whatever its header and type, provided the receives before it returned, could be printed (their message bytes contain a zero)
  and decided nothing.
\<close>

theorem diagnostics_can_overrun:
  assumes "debugLevel \<le> DEBUG_LEVEL_DEBUG"
    and "\<forall>i < n. reply_at os fd h i \<noteq> IoBlock \<and> printable (reply_at os fd h i) \<and> handshake_answer (reply_at os fd h i) = None"
    and "reply_at os fd h n = IoData src bs" and "142 \<le> length bs" and "0 \<notin> set (take 125 (drop 17 bs))"
  shows "\<exists>out'. recv_loop_printing (handshake_log debugLevel) os fd handshake_switch a h out = Some (Fault, out')"
  using assms(2,3)
proof (induction n arbitrary: a h out)
  case 0
  have "u_msg (recv_buf user_msg_info_size (IoData src bs)) = take 125 (drop 17 bs)"
    using assms(4) by (simp add: u_msg_def bytes_at_def layout drop_take)
  then have "\<not> printable (os_recvfrom os h fd)" using 0 assms(5) by (simp add: printable_def)
  moreover have "recv_ret user_msg_info_size (os_recvfrom os h fd) \<noteq> 0" using 0 assms(4) by (auto simp: layout min_def)
  ultimately show ?case using 0 assms(1)
    by (subst recv_loop_printing_unfold) (simp add: Let_def handshake_log_def)
next
  case (Suc n)
  let ?r = "os_recvfrom os h fd"
  have r: "?r \<noteq> IoBlock" "printable ?r" "handshake_answer ?r = None" using Suc.prems(1) [THEN spec, of 0] by auto
  have v: "verdict handshake_switch ?r = None" using r(3) by (simp add: verdict_handshake_iff)
  then have nz: "recv_ret user_msg_info_size ?r \<noteq> 0" by (auto simp: verdict_def)
  have "\<forall>i < n. reply_at os fd (h @ [RecvFrom fd ?r]) i \<noteq> IoBlock \<and> printable (reply_at os fd (h @ [RecvFrom fd ?r]) i) \<and>
      handshake_answer (reply_at os fd (h @ [RecvFrom fd ?r]) i) = None"
    using Suc.prems(1) by (metis Suc_less_eq reply_at_Suc)
  moreover have "reply_at os fd (h @ [RecvFrom fd ?r]) n = IoData src bs" using Suc.prems(2) by simp
  ultimately show ?case using Suc.IH v nz r(1,2) by (subst recv_loop_printing_unfold) (simp add: Let_def)
qed

text \<open>
  Remark (printing_refines_silent_loop). As long as the messages can be printed, the loop with its diagnostics
  returns exactly what the silent loop returns, in both libraries; so the results proved for the silent loop are those of the
  program.
\<close>

theorem printing_refines_silent_loop:
  assumes "\<forall>n. printable (reply_at os fd h n)"
  shows "map_option fst (recv_loop_printing (handshake_log lv) os fd handshake_switch a h out) =
           map_option Ret (recv_loop os fd handshake_switch a h) \<and>
         map_option fst (recv_loop_printing (hyper_handshake_log lv) os fd hyper_handshake_switch a h out) =
           map_option Ret (recv_loop os fd hyper_handshake_switch a h)"
proof -
  have "map_option fst (recv_loop_printing l os fd sw a h out) = map_option Ret (recv_loop os fd sw a h)" for l sw
  proof (cases "recv_loop os fd sw a h")
    case (Some res)
    then obtain n e where d: "first_decisive os fd sw h n e" using recv_loop_sound by fastforce
    from printing_complete [OF d, of l a out] assms recv_loop_complete [OF d, of a] show ?thesis by auto
  next
    case None
    then have "recv_loop_printing l os fd sw a h out = None"
      using printing_sound [of l os fd sw a h out] assms by (cases "recv_loop_printing l os fd sw a h out") (auto simp: recv_loop_None_iff)
    with None show ?thesis by simp
  qed
  then show ?thesis by blast
qed

text \<open>A kernel that fills the whole message array.\<close>

theorem diagnostics_can_overrun_witness:
  "\<exists>out'. recv_loop_printing (handshake_log DEBUG_LEVEL_ALL)
     (const_os (IoData kernel_addr (reply_bytes (reply_hdr 142) 1 (replicate 125 65)))) 5 handshake_switch kernel_addr [] [] =
     Some (Fault, out')"
  by (rule diagnostics_can_overrun [of DEBUG_LEVEL_ALL 0 _ _ _ kernel_addr "reply_bytes (reply_hdr 142) 1 (replicate 125 65)"])
    (simp_all add: less_eq_debug_level_def reply_bytes_def)

theorem printing_refines_silent_loop_witness:
  "map_option fst (recv_loop_printing (handshake_log DEBUG_LEVEL_ALL) (const_os good_reply) 5 handshake_switch kernel_addr [] []) =
     Some (Ret (Decided 0, kernel_addr, [RecvFrom 5 good_reply]))"
proof -
  have "printable good_reply" unfolding good_reply_def by (rule printable_short) (simp add: key_back_bytes_def)
  then have "\<forall>n. printable (reply_at (const_os good_reply) 5 [] n)" by (simp add: reply_at_def)
  from printing_refines_silent_loop [OF this, of DEBUG_LEVEL_ALL kernel_addr "[]"] show ?thesis
    by (simp add: recv_loop_const handshake_switch_def)
qed

section \<open>Hex dump\<close>

definition hex_digit :: "nat \<Rightarrow> char" where
  "hex_digit d = (if d < 10 then digit_char d else char_of (87 + d))"

text \<open>\<^verbatim>\<open>%02x\<close> of a byte.\<close>

definition show_02x :: "byte \<Rightarrow> string" where
  "show_02x b = [hex_digit (unat b div 16), hex_digit (unat b mod 16)]"

definition print_hex_dump :: "byte list \<Rightarrow> int \<Rightarrow> string outcome" where
  "print_hex_dump mem sz =
     (if sz > int (length mem) then Fault
      else Ret (concat (map (\<lambda>i. show_02x (mem ! i) @ '' '' @ (if (i + 1) mod 16 = 0 then nl else [])) [0..<nat sz])))"

definition hyper_print_hex_dump :: "byte list \<Rightarrow> int \<Rightarrow> string outcome" where
  "hyper_print_hex_dump mem sz =
     (if sz > int (length mem) then Fault
      else Ret (concat (map (\<lambda>i. show_02x (mem ! i) @ '' '' @ (if (i + 1) mod 16 = 0 then nl else [])) [0..<nat sz])))"

text \<open>A reader of dumps: two digits make a byte, white space is skipped.\<close>

fun read_hex :: "string \<Rightarrow> byte list" where
  "read_hex (c # d # s) = (if isspace c then read_hex (d # s) else of_nat (16 * hex_val c + hex_val d) # read_hex s)"
| "read_hex _ = []"

lemma hex_val_hex_digit [simp]: "d < 16 \<Longrightarrow> hex_val (hex_digit d) = d"
  by (auto simp: hex_digit_def hex_val_def Let_def of_char_digit_char of_char_of take_bit_nat_def)

lemma hex_digit_no_space: "d < 16 \<Longrightarrow> \<not> isspace (hex_digit d)"
proof
  assume d: "d < 16" and "isspace (hex_digit d)"
  then have "hex_val (hex_digit d) = 99" by (auto simp: isspace_def hex_val_def)
  with d show False by simp
qed

lemma read_hex_cell:
  assumes "s = [] \<or> s = nl"
  shows "read_hex (show_02x b @ '' '' @ s @ t) = b # read_hex t"
proof -
  have b: "unat b div 16 < 16" "unat b mod 16 < 16" using unat_byte_less [of b] by auto
  have "read_hex (c # t) = read_hex t" if "isspace c" for c t using that by (cases t) auto
  from this [of "CHR '' ''"] this [of "CHR 0x0A"] have sp: "read_hex (CHR '' '' # s @ t) = read_hex t"
    using assms by (auto simp: isspace_def nl_def)
  have "read_hex (show_02x b @ '' '' @ s @ t) = of_nat (16 * (unat b div 16) + unat b mod 16) # read_hex (CHR '' '' # s @ t)"
    using b hex_digit_no_space [OF b(1)] by (simp add: show_02x_def del: of_nat_add of_nat_mult)
  then show ?thesis by (simp add: sp)
qed

text \<open>
  Remark (hex_dump_roundtrip). A hex dump read back gives the bytes dumped, and both libraries print the same dump.
\<close>

theorem hex_dump_roundtrip:
  assumes "sz \<le> int (length mem)"
  shows "\<exists>txt. print_hex_dump mem sz = Ret txt \<and> read_hex txt = take (nat sz) mem \<and> hyper_print_hex_dump mem sz = Ret txt"
proof -
  have r: "read_hex (concat (map (\<lambda>i. show_02x (mem ! i) @ '' '' @ (if (i + 1) mod 16 = 0 then nl else [])) is)) = map ((!) mem) is" for "is"
  proof (induction "is")
    case (Cons i js)
    then show ?case using read_hex_cell [of "if (i + 1) mod 16 = 0 then nl else []" "mem ! i"] by (simp del: read_hex.simps)
  qed simp
  have "map ((!) mem) [0..<nat sz] = take (nat sz) mem" using assms by (intro nth_equalityI) simp_all
  then show ?thesis using assms r [of "[0..<nat sz]"] by (simp add: print_hex_dump_def hyper_print_hex_dump_def)
qed

theorem hex_dump_roundtrip_witness: "\<exists>txt. print_hex_dump [0, 171, 255] 3 = Ret txt \<and> read_hex txt = [0, 171, 255]"
  using hex_dump_roundtrip [of 3 "[0, 171, 255]"] by auto

end
