(* ===== verification/Tlshub_Segments.thy ===== *)
theory Tlshub_Segments
  imports Tlshub_Api
begin

text \<open>
  \<^verbatim>\<open>tlshub_handshake\<close> and \<^verbatim>\<open>tlshub_fetch_key\<close> (\<^verbatim>\<open>tlshub-api/tlshub.c\<close>) cut into segments, none of which touches the
  start time that threads share more than once; the descriptor a segment works on belongs to its thread alone. Running the segments one after the other is proved to be the function.
\<close>

section \<open>The calls in segments\<close>

text \<open>
  Where a thread is: outside the API; in the handshake before \<^verbatim>\<open>netlink_ctx_init\<close>, before \<^verbatim>\<open>netlink_ctx_alloc_msg\<close>, with the datagram
  built before the first \<^verbatim>\<open>app_tm_interval\<close>, before \<^verbatim>\<open>sendto\<close>, before a \<^verbatim>\<open>recvfrom\<close>, at the label \<^verbatim>\<open>end\<close>; at the same
  points of the key fetch, which keeps its context in its own frame; or it has ended.
\<close>

datatype place =
    Outside
  | AtInit u32 u32 u16 u16
  | AtAlloc u32 u32 u16 u16
  | AtStamp "byte list"
  | AtSend "byte list"
  | AtWait
  | AtEnd int
  | FetchInit u32 u32 u16 u16
  | FetchAlloc u32 u32 u16 u16 netlink_context
  | FetchStamp "byte list" netlink_context
  | FetchSend "byte list" netlink_context
  | FetchWait netlink_context
  | FetchEnd key_back
  | Ended

text \<open>A segment goes on, or ends the call with an outcome and the time it prints, if it prints one.\<close>

datatype report = Working | Done "result outcome" "real option"

fun seg :: "os \<Rightarrow> place \<Rightarrow> api_state \<Rightarrow> hist \<Rightarrow> (report \<times> place \<times> api_state \<times> hist) option" where
  "seg os (AtInit cip sip cp sp) s h =
     (let (r, c, h') = netlink_ctx_init os (g_netlink_ctx s) h; s' = s\<lparr>g_netlink_ctx := c\<rparr> in
      Some (if r \<noteq> 0 then (Done (Ret (Code (-1))) None, Outside, s', h') else (Working, AtAlloc cip sip cp sp, s', h')))"
| "seg os (AtAlloc cip sip cp sp) s h =
     (let (r, c, h') = netlink_ctx_alloc_msg os (g_netlink_ctx s) h; s' = s\<lparr>g_netlink_ctx := c\<rparr> in
      Some (if r \<noteq> 0 then (Done (Ret (Code (-1))) None, Outside, s', h')
            else case nlh c of
              None \<Rightarrow> (Done Fault None, Outside, s', h')
            | Some b \<Rightarrow>
                (let b' = b\<lparr>buf_hdr := (buf_hdr b)\<lparr>nlmsg_pid := os_gettid os h'\<rparr>\<rparr>
                 in (Working,
                     AtStamp (request_bytes (buf_hdr b') (handshake_msg cip sip cp sp (uninit os h' my_msg_size))),
                     s\<lparr>g_netlink_ctx := c\<lparr>nlh := Some b'\<rparr>\<rparr>, h'))))"
| "seg os (AtStamp bs) s h =
     (let (t, s', h') = app_tm_interval os TM_START 0 s h in Some (Working, AtSend bs, s', h'))"
| "seg os (AtSend bs) s h =
     (let c = g_netlink_ctx s in
      if sk_fd c < 0 then Some (Done (Ret (Code (-1))) None, Outside, s, h)
      else
        let ret = os_sendto os h (sk_fd c) (daddr c) bs; h' = h @ [SendTo (sk_fd c) (daddr c) bs ret] in
        if ret = 0 then
          (let (c', h'') = netlink_ctx_cleanup c True h'
           in Some (Done (Exit (-1)) None, Outside, s\<lparr>g_netlink_ctx := c'\<rparr>, h''))
        else Some (Working, AtWait, s, h'))"
| "seg os AtWait s h =
     (let c = g_netlink_ctx s; r = os_recvfrom os h (sk_fd c); h' = h @ [RecvFrom (sk_fd c) r];
          s' = s\<lparr>g_netlink_ctx := c\<lparr>daddr := recv_src (daddr c) r\<rparr>\<rparr>
      in if r = IoBlock then None
         else if recv_ret user_msg_info_size r = 0 then Some (Done (Ret (Code (-2))) None, Outside, s', h')
         else case handshake_switch (u_msg_type (recv_buf user_msg_info_size r)) of
                None \<Rightarrow> Some (Working, AtWait, s', h')
              | Some v \<Rightarrow> Some (Working, AtEnd v, s', h'))"
| "seg os (AtEnd v) s h =
     (let (t, s', h') = app_tm_interval os 0 0 s h in Some (Done (Ret (Code v)) (Some t), Outside, s', h'))"
| "seg os (FetchInit cip sip cp sp) s h =
     (let (r, c, h') = netlink_ctx_init os empty_ctx h in
      Some (if r \<noteq> 0 then (Done (Ret (Key zero_key_back)) None, Outside, s, h')
            else (Working, FetchAlloc cip sip cp sp c, s, h')))"
| "seg os (FetchAlloc cip sip cp sp c) s h =
     (let (r, c', h') = netlink_ctx_alloc_msg os c h in
      Some (if r \<noteq> 0 then (Done (Ret (Key zero_key_back)) None, Outside, s, snd (netlink_ctx_cleanup c' True h'))
            else case nlh c' of
              None \<Rightarrow> (Done Fault None, Outside, s, h')
            | Some b \<Rightarrow>
                (Working,
                 FetchStamp
                   (request_bytes ((buf_hdr b)\<lparr>nlmsg_pid := os_gettid os h'\<rparr>)
                     (fetch_msg cip sip cp sp (uninit os h' my_msg_size))) c', s, h')))"
| "seg os (FetchStamp bs c) s h =
     (let (t, s', h') = app_tm_interval os TM_START 0 s h in Some (Working, FetchSend bs c, s', h'))"
| "seg os (FetchSend bs c) s h =
     (let ret = os_sendto os h (sk_fd c) (daddr c) bs; h' = h @ [SendTo (sk_fd c) (daddr c) bs ret] in
      Some (if ret = 0 then (Done (Exit (-1)) None, Outside, s, snd (netlink_ctx_cleanup c True h'))
            else (Working, FetchWait c, s, h')))"
| "seg os (FetchWait c) s h =
     (let r = os_recvfrom os h (sk_fd c); h' = h @ [RecvFrom (sk_fd c) r]; h'' = snd (netlink_ctx_cleanup c True h') in
      if r = IoBlock then None
      else Some (if recv_ret user_msg_info_size r = 0 then (Done (Exit (-1)) None, Outside, s, h'')
                 else (Working, FetchEnd (read_key_back (u_msg (recv_buf user_msg_info_size r))), s, h'')))"
| "seg os (FetchEnd key) s h =
     (let (t, s', h') = app_tm_interval os 0 0 s h in Some (Done (Ret (Key key)) (Some t), Outside, s', h'))"
| "seg os Outside s h = None"
| "seg os Ended s h = None"

text \<open>A thread that runs its segments one after the other.\<close>

partial_function (option) run_segs :: "os \<Rightarrow> place \<Rightarrow> api_state \<Rightarrow> hist \<Rightarrow> (result outcome \<times> api_state \<times> hist) option" where
  "run_segs os p s h =
     (case seg os p s h of
        None \<Rightarrow> None
      | Some (rep, p', s', h') \<Rightarrow>
          (case rep of Done out t \<Rightarrow> Some (out, s', h') | Working \<Rightarrow> run_segs os p' s' h'))"

lemma seg_AtWait:
  "seg os AtWait s h =
     (let c = g_netlink_ctx s; r = os_recvfrom os h (sk_fd c); h' = h @ [RecvFrom (sk_fd c) r];
          s' = s\<lparr>g_netlink_ctx := c\<lparr>daddr := recv_src (daddr c) r\<rparr>\<rparr>
      in if r = IoBlock then None
         else Some (case verdict handshake_switch r of
                      None \<Rightarrow> (Working, AtWait, s', h')
                    | Some RecvZero \<Rightarrow> (Done (Ret (Code (-2))) None, Outside, s', h')
                    | Some (Decided v) \<Rightarrow> (Working, AtEnd v, s', h')))"
  by (auto simp: verdict_def Let_def split: option.splits)

declare seg.simps(5) [simp del]

lemma run_segs_end: "run_segs os (AtEnd v) s h = Some (Ret (Code v), s, h @ [tm_event os h])"
  by (subst run_segs.simps) (simp add: tm_simps)

definition waited :: "os \<Rightarrow> api_state \<Rightarrow> (wait_end \<times> sockaddr_nl \<times> hist) option \<Rightarrow> (result outcome \<times> api_state \<times> hist) option" where
  "waited os s res =
     (case res of
        None \<Rightarrow> None
      | Some (e, a, h) \<Rightarrow>
          (let s' = s\<lparr>g_netlink_ctx := (g_netlink_ctx s)\<lparr>daddr := a\<rparr>\<rparr>
           in case e of RecvZero \<Rightarrow> Some (Ret (Code (-2)), s', h) | Decided v \<Rightarrow> Some (Ret (Code v), s', h @ [tm_event os h])))"

lemma waited_daddr: "waited os (s\<lparr>g_netlink_ctx := (g_netlink_ctx s)\<lparr>daddr := a\<rparr>\<rparr>) res = waited os s res"
  by (auto simp: waited_def Let_def split: option.split wait_end.split)

lemma run_segs_wait_complete:
  "first_decisive os (sk_fd (g_netlink_ctx s)) handshake_switch h n e \<Longrightarrow>
     run_segs os AtWait s h = waited os s (recv_loop os (sk_fd (g_netlink_ctx s)) handshake_switch (daddr (g_netlink_ctx s)) h)"
proof (induction n arbitrary: s h)
  case 0
  then show ?case
    by (subst run_segs.simps, subst recv_loop_unfold)
      (auto simp: seg_AtWait waited_def first_decisive_0 Let_def run_segs_end split: wait_end.splits)
next
  case (Suc n)
  let ?c = "g_netlink_ctx s" and ?r = "os_recvfrom os h (sk_fd (g_netlink_ctx s))"
  let ?s = "s\<lparr>g_netlink_ctx := ?c\<lparr>daddr := recv_src (daddr ?c) ?r\<rparr>\<rparr>" and ?h = "h @ [RecvFrom (sk_fd ?c) ?r]"
  have 1: "?r \<noteq> IoBlock" "verdict handshake_switch ?r = None" "first_decisive os (sk_fd ?c) handshake_switch ?h n e"
    using Suc.prems by (simp_all add: first_decisive_Suc)
  have "run_segs os AtWait s h = run_segs os AtWait ?s ?h"
    by (subst run_segs.simps) (simp add: seg_AtWait 1 Let_def)
  also have "\<dots> = waited os ?s (recv_loop os (sk_fd ?c) handshake_switch (recv_src (daddr ?c) ?r) ?h)"
    using Suc.IH [of ?s ?h] 1 by simp
  also have "\<dots> = waited os s (recv_loop os (sk_fd ?c) handshake_switch (daddr ?c) h)"
    by (subst (2) recv_loop_unfold) (simp add: 1 Let_def waited_daddr)
  finally show ?case .
qed

lemma run_segs_wait_sound:
  assumes "run_segs os AtWait s h = Some res"
  shows "recv_loop os (sk_fd (g_netlink_ctx s)) handshake_switch (daddr (g_netlink_ctx s)) h \<noteq> None"
proof -
  let ?P = "\<lambda>os p s h res. p = AtWait \<longrightarrow>
    recv_loop os (sk_fd (g_netlink_ctx s)) handshake_switch (daddr (g_netlink_ctx s)) h \<noteq> None"
  have "?P os AtWait s h res"
  proof (rule run_segs.raw_induct [where P = ?P, OF _ assms], goal_cases)
    case (1 f os p s h res)
    let ?c = "g_netlink_ctx s" and ?r = "os_recvfrom os h (sk_fd (g_netlink_ctx s))"
    let ?s = "s\<lparr>g_netlink_ctx := ?c\<lparr>daddr := recv_src (daddr ?c) ?r\<rparr>\<rparr>" and ?h = "h @ [RecvFrom (sk_fd ?c) ?r]"
    have "recv_loop os (sk_fd ?c) handshake_switch (daddr ?c) h \<noteq> None" if p: "p = AtWait"
    proof -
      have nb: "?r \<noteq> IoBlock" using 1(2) p by (auto simp: seg_AtWait Let_def)
      show ?thesis
      proof (cases "verdict handshake_switch ?r")
        case None
        then have "f os AtWait ?s ?h = Some res" using 1(2) p nb by (simp add: seg_AtWait Let_def)
        then show ?thesis using 1(1) None nb by (subst recv_loop_unfold) (fastforce simp: Let_def)
      next
        case (Some e)
        with nb show ?thesis by (subst recv_loop_unfold) (simp add: Let_def)
      qed
    qed
    then show ?case by blast
  qed
  then show ?thesis by simp
qed

lemma run_segs_wait:
  "run_segs os AtWait s h = waited os s (recv_loop os (sk_fd (g_netlink_ctx s)) handshake_switch (daddr (g_netlink_ctx s)) h)"
proof (cases "recv_loop os (sk_fd (g_netlink_ctx s)) handshake_switch (daddr (g_netlink_ctx s)) h")
  case None
  then show ?thesis using run_segs_wait_sound [of os s h] by (cases "run_segs os AtWait s h") (simp_all add: waited_def)
next
  case (Some res)
  then show ?thesis using recv_loop_sound run_segs_wait_complete by blast
qed

lemma handshake_exchange_segments:
  "map_option (apfst (map_outcome Code)) (handshake_exchange os b m s h) = run_segs os (AtStamp (request_bytes (buf_hdr b) m)) s h"
proof -
  have send: "run_segs os (AtSend bs) s h =
      (let c = g_netlink_ctx s in
       if sk_fd c < 0 then Some (Ret (Code (-1)), s, h)
       else
         let ret = os_sendto os h (sk_fd c) (daddr c) bs; h' = h @ [SendTo (sk_fd c) (daddr c) bs ret] in
         if ret = 0 then
           (let (c', h'') = netlink_ctx_cleanup c True h' in Some (Exit (-1), s\<lparr>g_netlink_ctx := c'\<rparr>, h''))
         else waited os s (recv_loop os (sk_fd c) handshake_switch (daddr c) h'))" for bs s h
    by (subst run_segs.simps) (simp add: Let_def run_segs_wait split: prod.splits)
  show ?thesis
    by (subst run_segs.simps)
      (auto simp: handshake_exchange_def Let_def tm_simps send waited_def split: prod.splits option.splits wait_end.splits)
qed

text \<open>
  Remark (handshake_is_its_segments). A thread that runs the segments from the start does exactly what
  \<^verbatim>\<open>tlshub_handshake\<close> does: same outcome, same state, same history, and it blocks for ever exactly when the function does.
\<close>

theorem handshake_is_its_segments:
  "run_segs os (AtInit cip sip cp sp) s h =
     map_option (apfst (map_outcome Code)) (tlshub_handshake os cip sip cp sp s h)"
proof -
  obtain r1 c1 h1 where 1: "netlink_ctx_init os (g_netlink_ctx s) h = (r1, c1, h1)" by (metis prod_cases3)
  obtain r2 c2 h2 where 2: "netlink_ctx_alloc_msg os c1 h1 = (r2, c2, h2)" by (metis prod_cases3)
  have alloc: "run_segs os (AtAlloc cip sip cp sp) (s\<lparr>g_netlink_ctx := c1\<rparr>) h1 =
      (if r2 \<noteq> 0 then Some (Ret (Code (-1)), s\<lparr>g_netlink_ctx := c2\<rparr>, h2)
       else case nlh c2 of
          None \<Rightarrow> Some (Fault, s\<lparr>g_netlink_ctx := c2\<rparr>, h2)
        | Some b \<Rightarrow>
            (let b' = b\<lparr>buf_hdr := (buf_hdr b)\<lparr>nlmsg_pid := os_gettid os h2\<rparr>\<rparr>
             in map_option (apfst (map_outcome Code))
                  (handshake_exchange os b' (handshake_msg cip sip cp sp (uninit os h2 my_msg_size))
                    (s\<lparr>g_netlink_ctx := c2\<lparr>nlh := Some b'\<rparr>\<rparr>) h2)))"
    by (subst run_segs.simps) (simp add: 2 Let_def handshake_exchange_segments split: option.splits)
  show ?thesis
    by (subst run_segs.simps) (simp add: tlshub_handshake_def 1 2 alloc Let_def split: option.split)
qed

text \<open>
  Remark (fetch_is_its_segments). The same for \<^verbatim>\<open>tlshub_fetch_key\<close>.
\<close>

theorem fetch_is_its_segments:
  "run_segs os (FetchInit cip sip cp sp) s h =
     map_option (apfst (map_outcome Key)) (tlshub_fetch_key os cip sip cp sp s h)"
proof -
  have fin: "run_segs os (FetchEnd key) s h = Some (Ret (Key key), s, h @ [tm_event os h])" for key s h
    by (subst run_segs.simps) (simp add: tm_simps)
  have wait: "run_segs os (FetchWait c) s h =
      (let r = os_recvfrom os h (sk_fd c); h' = snd (netlink_ctx_cleanup c True (h @ [RecvFrom (sk_fd c) r])) in
       if r = IoBlock then None
       else if recv_ret user_msg_info_size r = 0 then Some (Exit (-1), s, h')
       else Some (Ret (Key (read_key_back (u_msg (recv_buf user_msg_info_size r)))), s, h' @ [tm_event os h']))" for c s h
    by (subst run_segs.simps) (simp add: fin Let_def)
  have send: "run_segs os (FetchSend bs c) s h =
      (let ret = os_sendto os h (sk_fd c) (daddr c) bs; h' = h @ [SendTo (sk_fd c) (daddr c) bs ret] in
       if ret = 0 then Some (Exit (-1), s, snd (netlink_ctx_cleanup c True h')) else run_segs os (FetchWait c) s h')" for bs c s h
    by (subst run_segs.simps) (simp add: Let_def)
  have stamp: "run_segs os (FetchStamp bs c) s h = map_option (apfst (map_outcome Key)) (fetch_exchange os c bs s h)" for bs c s h
    by (subst run_segs.simps) (simp add: send wait fetch_exchange_def tm_simps Let_def)
  have alloc: "run_segs os (FetchAlloc cip sip cp sp c) s h =
      (let (r, c', h') = netlink_ctx_alloc_msg os c h in
       if r \<noteq> 0 then Some (Ret (Key zero_key_back), s, snd (netlink_ctx_cleanup c' True h'))
       else case nlh c' of
         None \<Rightarrow> Some (Fault, s, h')
       | Some b \<Rightarrow>
           run_segs os (FetchStamp (request_bytes ((buf_hdr b)\<lparr>nlmsg_pid := os_gettid os h'\<rparr>)
             (fetch_msg cip sip cp sp (uninit os h' my_msg_size))) c') s h')" for c s h
    by (subst run_segs.simps) (simp add: Let_def split: prod.splits option.splits)
  show ?thesis
    by (subst run_segs.simps)
      (simp add: alloc stamp tlshub_fetch_key_def Let_def split: prod.splits option.splits)
qed

text \<open>Where a call starts.\<close>

fun entry :: "api_call \<Rightarrow> place" where
  "entry (Handshake cip sip cp sp) = AtInit cip sip cp sp"
| "entry (FetchKey cip sip cp sp) = FetchInit cip sip cp sp"

lemma run_segs_entry: "run_segs os (entry call) s h = call_result os call s h"
  by (cases call) (simp_all add: handshake_is_its_segments fetch_is_its_segments)

end
