(* ===== verification/Tlshub_Threads.thy ===== *)
theory Tlshub_Threads
  imports Tlshub_Segments
begin

text \<open>
  Several threads of one process in \<^verbatim>\<open>tlshub_handshake\<close> and \<^verbatim>\<open>tlshub_fetch_key\<close> (\<^verbatim>\<open>tlshub-api/tlshub.c\<close>). The Netlink context of
  the handshake is thread-local (\<^verbatim>\<open>static __thread\<close>), that of the fetch is in its frame; the start time of
  \<^verbatim>\<open>app_tm_interval\<close> is a plain \<^verbatim>\<open>static\<close> and so shared, and so are the descriptors of the process. The segments of the
  threads (\<open>Tlshub_Segments\<close>) interleave freely.
\<close>

section \<open>Threads that interleave\<close>

text \<open>
  The contexts and places of the threads, the statics of \<^verbatim>\<open>app_tm_interval\<close>, what the process has done, each event with its
  thread, and whether the process is still there: \<^verbatim>\<open>exit\<close> in one thread ends all of them.
\<close>

record threads =
  ctxs :: "nat \<Rightarrow> netlink_context"
  places :: "nat \<Rightarrow> place"
  shared_start :: timespec
  shared_warning :: bool
  tlog :: "(nat \<times> event) list"
  alive :: bool

definition threads_start :: threads where
  "threads_start =
     \<lparr>ctxs = (\<lambda>t. empty_ctx), places = (\<lambda>t. Outside), shared_start = tm_start api_init,
      shared_warning = tm_warning api_init, tlog = [], alive = True\<rparr>"

definition flat :: "threads \<Rightarrow> hist" where
  "flat m = map snd (tlog m)"

text \<open>The state as thread \<open>t\<close> sees it, and the state after a segment of \<open>t\<close>.\<close>

definition view :: "threads \<Rightarrow> nat \<Rightarrow> api_state" where
  "view m t = \<lparr>g_netlink_ctx = ctxs m t, tm_start = shared_start m, tm_warning = shared_warning m\<rparr>"

fun survives :: "report \<Rightarrow> bool" where
  "survives (Done (Ret v) c) = True"
| "survives (Done _ c) = False"
| "survives Working = True"

definition commit :: "nat \<Rightarrow> report \<Rightarrow> place \<Rightarrow> api_state \<Rightarrow> hist \<Rightarrow> threads \<Rightarrow> threads" where
  "commit t rep p s h m =
     m\<lparr>ctxs := (ctxs m)(t := g_netlink_ctx s), places := (places m)(t := p), shared_start := tm_start s,
       shared_warning := tm_warning s, tlog := tlog m @ map (Pair t) (drop (length (tlog m)) h), alive := survives rep\<rparr>"

datatype label = Calls nat api_call | Runs nat report | Ends nat

text \<open>
  A thread outside the API calls it or ends; a thread in the API runs its next segment. The context of a thread that ends
  is dropped with its other thread-local objects: no destructor is registered.
\<close>

inductive th_step :: "(nat \<Rightarrow> os) \<Rightarrow> threads \<Rightarrow> label \<Rightarrow> threads \<Rightarrow> bool" for env where
  calls: "alive m \<Longrightarrow> places m t = Outside \<Longrightarrow>
    th_step env m (Calls t call) (m\<lparr>places := (places m)(t := entry call)\<rparr>)"
| runs: "alive m \<Longrightarrow> seg (env t) (places m t) (view m t) (flat m) = Some (rep, p, s, h) \<Longrightarrow>
    th_step env m (Runs t rep) (commit t rep p s h m)"
| ends: "alive m \<Longrightarrow> places m t = Outside \<Longrightarrow> th_step env m (Ends t) (m\<lparr>places := (places m)(t := Ended)\<rparr>)"

inductive th_run :: "(nat \<Rightarrow> os) \<Rightarrow> threads \<Rightarrow> label list \<Rightarrow> threads \<Rightarrow> bool" for env where
  th_refl: "th_run env m [] m"
| th_snoc: "th_run env m ls m' \<Longrightarrow> th_step env m' l m'' \<Longrightarrow> th_run env m (ls @ [l]) m''"

inductive_cases th_callsE: "th_step env m (Calls t call) m'"
inductive_cases th_runsE: "th_step env m (Runs t rep) m'"
inductive_cases th_endsE: "th_step env m (Ends t) m'"

lemma th_one: "th_step env m l m' \<Longrightarrow> th_run env m [l] m'"
  using th_snoc [OF th_refl] by force

lemma th_trans: "th_run env m ls m' \<Longrightarrow> th_run env m' ls' m'' \<Longrightarrow> th_run env m (ls @ ls') m''"
proof (rotate_tac, induction m' ls' m'' rule: th_run.induct)
  case (th_snoc m1 ls' m2 l m3)
  then show ?case using th_run.th_snoc [of env m "ls @ ls'" m2 l m3] by simp
qed simp

text \<open>A segment only adds to the history.\<close>

lemma netlink_ctx_init_extends: "netlink_ctx_init os c h = (r, c', h') \<Longrightarrow> \<exists>es. h' = h @ es"
  by (auto simp: netlink_ctx_init_def Let_def split: if_splits)

lemma netlink_ctx_alloc_msg_extends: "netlink_ctx_alloc_msg os c h = (r, c', h') \<Longrightarrow> \<exists>es. h' = h @ es"
  by (auto simp: netlink_ctx_alloc_msg_def Let_def split: if_splits)

lemma netlink_ctx_cleanup_extends: "netlink_ctx_cleanup c b h = (c', h') \<Longrightarrow> \<exists>es. h' = h @ es"
  by (auto simp: netlink_ctx_cleanup_def Let_def split: if_splits option.splits)

lemma cleanup_snd_extends: "\<exists>es. snd (netlink_ctx_cleanup c b h) = h @ es"
  using netlink_ctx_cleanup_extends [of c b h] by (cases "netlink_ctx_cleanup c b h") auto

lemma seg_extends:
  assumes "seg os p s h = Some (rep, p', s', h')"
  shows "\<exists>es. h' = h @ es"
proof (cases p)
  case (FetchAlloc cip sip cp sp c)
  obtain r c2 h2 where a: "netlink_ctx_alloc_msg os c h = (r, c2, h2)" by (metis prod_cases3)
  then obtain es1 where 1: "h2 = h @ es1" using netlink_ctx_alloc_msg_extends by blast
  obtain es2 where "snd (netlink_ctx_cleanup c2 True h2) = h2 @ es2" using cleanup_snd_extends by blast
  then have "h' = h @ es1 \<or> h' = h @ es1 @ es2" using a assms FetchAlloc 1 by (auto simp: Let_def split: if_splits option.splits)
  then show ?thesis by blast
next
  case (FetchSend bs c)
  let ?h = "h @ [SendTo (sk_fd c) (daddr c) bs (os_sendto os h (sk_fd c) (daddr c) bs)]"
  obtain es2 where "snd (netlink_ctx_cleanup c True ?h) = ?h @ es2" using cleanup_snd_extends by blast
  then have "h' = ?h \<or> h' = ?h @ es2" using assms FetchSend by (auto simp: Let_def split: if_splits)
  then show ?thesis by auto
next
  case (FetchWait c)
  let ?h = "h @ [RecvFrom (sk_fd c) (os_recvfrom os h (sk_fd c))]"
  obtain es2 where "snd (netlink_ctx_cleanup c True ?h) = ?h @ es2" using cleanup_snd_extends by blast
  then have "h' = ?h @ es2" using assms FetchWait by (auto simp: Let_def split: if_splits)
  then show ?thesis by simp
qed (use assms in \<open>auto simp: seg_AtWait tm_simps Let_def split: prod.splits if_splits option.splits wait_end.splits
      dest: netlink_ctx_init_extends netlink_ctx_alloc_msg_extends netlink_ctx_cleanup_extends\<close>)

lemma flat_commit:
  assumes "seg os p s0 (flat m) = Some (rep, p', s, h)"
  shows "flat (commit t rep p' s h m) = h"
proof -
  obtain es where "h = flat m @ es" using seg_extends [OF assms] by blast
  then show ?thesis by (simp add: commit_def flat_def comp_def)
qed

lemma commit_simps [simp]:
  "view (commit t rep p s h m) t = s" "places (commit t rep p s h m) t = p" "alive (commit t rep p s h m) = survives rep"
  "ctxs (commit t rep p s h m) t = g_netlink_ctx s" "shared_start (commit t rep p s h m) = tm_start s"
  by (simp_all add: commit_def view_def)

section \<open>An undisturbed thread performs the call\<close>

lemma run_segs_steps:
  assumes "run_segs (env t) p (view m t) (flat m) = Some (out, s, h)" and "alive m" and "places m t = p"
  shows "\<exists>ls m' c. th_run env m (map (Runs t) ls @ [Runs t (Done out c)]) m' \<and> view m' t = s \<and> flat m' = h"
proof -
  let ?P = "\<lambda>os p s0 h0 (out, s, h). \<forall>m. os = env t \<and> s0 = view m t \<and> h0 = flat m \<and> alive m \<and> places m t = p \<longrightarrow>
     (\<exists>ls m' c. th_run env m (map (Runs t) ls @ [Runs t (Done out c)]) m' \<and> view m' t = s \<and> flat m' = h)"
  have "?P (env t) p (view m t) (flat m) (out, s, h)"
  proof (rule run_segs.raw_induct [where P = ?P, OF _ assms(1)], goal_cases)
    case (1 f os p s0 h0 res)
    obtain out s h where res: "res = (out, s, h)" by (metis prod_cases3)
    have "\<exists>ls m' c. th_run env m (map (Runs t) ls @ [Runs t (Done out c)]) m' \<and> view m' t = s \<and> flat m' = h"
      if m: "os = env t" "s0 = view m t" "h0 = flat m" "alive m" "places m t = p" for m
    proof -
      obtain rep p1 s1 h1 where sg: "seg (env t) p (view m t) (flat m) = Some (rep, p1, s1, h1)"
        using 1(2) m by (auto split: option.splits)
      define m1 where "m1 = commit t rep p1 s1 h1 m"
      have m1: "view m1 t = s1" "flat m1 = h1" "places m1 t = p1" "alive m1 = survives rep"
        using flat_commit [OF sg] by (simp_all add: m1_def)
      have step: "th_step env m (Runs t rep) m1"
        unfolding m1_def using m sg by (intro runs) simp_all
      show ?thesis
      proof (cases rep)
        case (Done o1 c)
        then have "o1 = out" "s1 = s" "h1 = h" using 1(2) m sg res by simp_all
        then show ?thesis using th_one [OF step] Done m1 by (intro exI [of _ "[]"] exI [of _ m1] exI [of _ c]) simp
      next
        case Working
        then have "f (env t) p1 s1 h1 = Some (out, s, h)" using 1(2) m sg res by simp
        then obtain ls m' c where run: "th_run env m1 (map (Runs t) ls @ [Runs t (Done out c)]) m'"
          and "view m' t = s" "flat m' = h" using 1(1) m1 Working by fastforce
        then show ?thesis using th_trans [OF th_one [OF step] run]
          by (intro exI [of _ "rep # ls"] exI [of _ m'] exI [of _ c]) simp
      qed
    qed
    then show ?case by (simp add: res)
  qed
  then show ?thesis using assms by simp
qed

text \<open>
  Remark (undisturbed_thread_performs_call). A thread that calls the API and is not disturbed reaches, in
  steps of its own, the outcome, the context and the history of the sequential \<^verbatim>\<open>tlshub_handshake\<close> or \<^verbatim>\<open>tlshub_fetch_key\<close>.
\<close>

theorem undisturbed_thread_performs_call:
  assumes "alive m" and "places m t = Outside"
    and "call_result (env t) call (view m t) (flat m) = Some (out, s, h)"
  shows "\<exists>ls m' c. th_run env m (Calls t call # map (Runs t) ls @ [Runs t (Done out c)]) m' \<and> view m' t = s \<and> flat m' = h"
proof -
  let ?m = "m\<lparr>places := (places m)(t := entry call)\<rparr>"
  have same: "view ?m t = view m t" "flat ?m = flat m" by (simp_all add: view_def flat_def)
  have "run_segs (env t) (entry call) (view ?m t) (flat ?m) = Some (out, s, h)"
    using assms(3) by (simp add: run_segs_entry same)
  then obtain ls m' c where "th_run env ?m (map (Runs t) ls @ [Runs t (Done out c)]) m'" "view m' t = s" "flat m' = h"
    using run_segs_steps [of env t "entry call" ?m out s h] assms(1) by auto
  then show ?thesis using th_trans [OF th_one [OF calls [OF assms(1,2)]]] by fastforce
qed

section \<open>Threads and sockets\<close>

text \<open>
  Which thread opened the descriptor last, along a log; a closed descriptor belongs to nobody. \<open>own_use\<close> says that a
  thread uses descriptors of its own, and that a new descriptor was not in use.
\<close>

fun own_step :: "(int \<rightharpoonup> nat) \<Rightarrow> nat \<times> event \<Rightarrow> (int \<rightharpoonup> nat)" where
  "own_step M (t, Socket fd) = (if fd = -1 then M else M(fd \<mapsto> t))"
| "own_step M (t, TcpAccept s (AcceptOk fd)) = M(int fd \<mapsto> t)"
| "own_step M (t, Close fd) = M(fd := None)"
| "own_step M (t, _) = M"

fun own_use :: "(int \<rightharpoonup> nat) \<Rightarrow> nat \<times> event \<Rightarrow> bool" where
  "own_use M (t, Socket fd) \<longleftrightarrow> fd = -1 \<or> M fd = None"
| "own_use M (t, TcpAccept s (AcceptOk fd)) \<longleftrightarrow> M (int fd) = None"
| "own_use M (t, Close fd) \<longleftrightarrow> M fd = Some t"
| "own_use M (t, Bind fd a r) \<longleftrightarrow> M fd = Some t"
| "own_use M (t, SendTo fd a bs r) \<longleftrightarrow> M fd = Some t"
| "own_use M (t, RecvFrom fd r) \<longleftrightarrow> M fd = Some t"
| "own_use M (t, _) \<longleftrightarrow> True"

fun own_trace :: "(int \<rightharpoonup> nat) \<Rightarrow> (nat \<times> event) list \<Rightarrow> bool" where
  "own_trace M [] \<longleftrightarrow> True"
| "own_trace M (e # l) \<longleftrightarrow> own_use M e \<and> own_trace (own_step M e) l"

definition owners :: "(int \<rightharpoonup> nat) \<Rightarrow> (nat \<times> event) list \<Rightarrow> (int \<rightharpoonup> nat)" where
  "owners = foldl own_step"

lemma owners_simps [simp]:
  "owners M [] = M" "owners M (e # l) = owners (own_step M e) l" "owners M (l @ l') = owners (owners M l) l'"
  by (simp_all add: owners_def)

lemma own_trace_append [simp]: "own_trace M (l @ l') \<longleftrightarrow> own_trace M l \<and> own_trace (owners M l) l'"
  by (induction l arbitrary: M) auto

definition held :: "(int \<rightharpoonup> nat) \<Rightarrow> int \<Rightarrow> int" where
  "held M x = (if M x = None then 0 else 1)"

lemma own_trace_balance: "own_trace M l \<Longrightarrow> fd_balance (map snd l) x = held (owners M l) x - held M x"
proof (induction l arbitrary: M)
  case (Cons e l)
  have "fd_delta (snd e) x = held (own_step M e) x - held M x" if "own_use M e"
    using that by (cases "(M, e)" rule: own_step.cases) (auto simp: held_def)
  with Cons.prems Cons.IH [of "own_step M e"] show ?case by (simp add: balance)
qed (simp add: balance held_def)

text \<open>The kernel hands out descriptors that are not open.\<close>

definition fresh_sockets :: "os \<Rightarrow> bool" where
  "fresh_sockets os \<longleftrightarrow> (\<forall>h. os_socket os h = -1 \<or> fd_balance h (os_socket os h) = 0)"

text \<open>
  The descriptors a thread holds, in its thread-local context and in the frame of a key fetch, and when these differ.
\<close>

fun frame_fd :: "place \<Rightarrow> int" where
  "frame_fd (FetchAlloc cip sip cp sp c) = sk_fd c"
| "frame_fd (FetchStamp bs c) = sk_fd c"
| "frame_fd (FetchSend bs c) = sk_fd c"
| "frame_fd (FetchWait c) = sk_fd c"
| "frame_fd _ = -1"

definition fds :: "netlink_context \<Rightarrow> place \<Rightarrow> int set" where
  "fds c p = {sk_fd c, frame_fd p} - {-1}"

lemma fds_outside: "frame_fd p = x \<Longrightarrow> x \<noteq> -1 \<Longrightarrow> x \<noteq> sk_fd c \<Longrightarrow> fds c Outside = fds c p - {x}"
  by (auto simp: fds_def)

lemma fds_mem: "frame_fd p = x \<Longrightarrow> x \<noteq> -1 \<Longrightarrow> x \<in> fds c p"
  by (simp add: fds_def)

lemma fds_frame: "frame_fd p = frame_fd q \<Longrightarrow> sk_fd c = sk_fd d \<Longrightarrow> fds c p = fds d q"
  by (simp add: fds_def)

definition holds :: "(nat \<Rightarrow> int set) \<Rightarrow> (int \<rightharpoonup> nat) \<Rightarrow> bool" where
  "holds F M \<longleftrightarrow> (\<forall>x t. M x = Some t \<longleftrightarrow> x \<in> F t)"

text \<open>At these places of a handshake the thread-local context has a socket, and at these of a fetch the frame has.\<close>

fun connected :: "netlink_context \<Rightarrow> place \<Rightarrow> bool" where
  "connected c (AtAlloc cip sip cp sp) \<longleftrightarrow> sk_fd c \<noteq> -1"
| "connected c (AtStamp bs) \<longleftrightarrow> sk_fd c \<noteq> -1"
| "connected c (AtSend bs) \<longleftrightarrow> sk_fd c \<noteq> -1"
| "connected c AtWait \<longleftrightarrow> sk_fd c \<noteq> -1"
| "connected c (FetchAlloc cip sip cp sp f) \<longleftrightarrow> sk_fd f \<noteq> -1 \<and> sk_fd f \<noteq> sk_fd c"
| "connected c (FetchStamp bs f) \<longleftrightarrow> sk_fd f \<noteq> -1 \<and> sk_fd f \<noteq> sk_fd c"
| "connected c (FetchSend bs f) \<longleftrightarrow> sk_fd f \<noteq> -1 \<and> sk_fd f \<noteq> sk_fd c"
| "connected c (FetchWait f) \<longleftrightarrow> sk_fd f \<noteq> -1 \<and> sk_fd f \<noteq> sk_fd c"
| "connected c _ \<longleftrightarrow> True"

lemma holds_same: "holds F M \<Longrightarrow> X = F t \<Longrightarrow> holds (F(t := X)) M"
  by (auto simp: holds_def)

lemma holds_open:
  assumes "holds F M" and "M fd = None" and "X = insert fd (F t)"
  shows "holds (F(t := X)) (M(fd \<mapsto> t))"
proof -
  have "fd \<notin> F u" for u using assms(1,2) by (metis holds_def option.distinct(1))
  then show ?thesis using assms(1,3) by (auto simp: holds_def)
qed

lemma holds_close:
  assumes "holds F M" and "fd \<in> F t" and "X = F t - {fd}"
  shows "holds (F(t := X)) (M(fd := None))"
proof -
  have "fd \<in> F u \<Longrightarrow> u = t" for u using assms(1,2) by (metis holds_def option.inject)
  then show ?thesis using assms(1,3) by (auto simp: holds_def)
qed

text \<open>Opening a context without a socket.\<close>

lemma init_owned:
  assumes "netlink_ctx_init os c h = (r, c', h @ es)" and "holds F M" and "\<And>x. fd_balance h x = held M x" and "fresh_sockets os"
  shows "own_trace M (map (Pair t) es) \<and> (sk_fd c' = sk_fd c \<and> owners M (map (Pair t) es) = M \<or>
           sk_fd c = -1 \<and> sk_fd c' \<noteq> -1 \<and> r = 0 \<and> M (sk_fd c') = None \<and> owners M (map (Pair t) es) = M(sk_fd c' \<mapsto> t))"
proof (cases "sk_fd c = -1 \<and> os_socket os h \<noteq> -1")
  case True
  then have "M (os_socket os h) = None"
    using assms(3) [of "os_socket os h"] assms(4) by (auto simp: fresh_sockets_def held_def split: if_splits)
  with True assms(1) show ?thesis by (auto simp: netlink_ctx_init_def Let_def fun_upd_idem split: if_splits)
next
  case False
  with assms(1) show ?thesis by (auto simp: netlink_ctx_init_def Let_def split: if_splits)
qed

text \<open>Cleaning up a context whose socket the thread owns.\<close>

lemma cleanup_owned:
  assumes "netlink_ctx_cleanup c True h = (c', h @ es)" and "M (sk_fd c) = Some t" and "sk_fd c \<noteq> -1"
  shows "own_trace M (map (Pair t) es) \<and> owners M (map (Pair t) es) = M(sk_fd c := None) \<and> sk_fd c' = -1"
  using assms by (auto simp: netlink_ctx_cleanup_def Let_def split: option.splits)

text \<open>One receive of the handshake.\<close>

lemma seg_wait:
  assumes "seg os AtWait s h = Some (rep, p', s', h')"
  shows "h' = h @ [RecvFrom (sk_fd (g_netlink_ctx s)) (os_recvfrom os h (sk_fd (g_netlink_ctx s)))] \<and>
     sk_fd (g_netlink_ctx s') = sk_fd (g_netlink_ctx s) \<and>
     (p' = AtWait \<and> verdict handshake_switch (os_recvfrom os h (sk_fd (g_netlink_ctx s))) = None \<or> p' = Outside \<or>
       (\<exists>v. p' = AtEnd v \<and> verdict handshake_switch (os_recvfrom os h (sk_fd (g_netlink_ctx s))) = Some (Decided v)))"
proof -
  let ?r = "os_recvfrom os h (sk_fd (g_netlink_ctx s))"
  note w = assms [unfolded seg_AtWait Let_def]
  have r: "?r \<noteq> IoBlock" using w by auto
  consider "verdict handshake_switch ?r = None" | "verdict handshake_switch ?r = Some RecvZero"
    | v where "verdict handshake_switch ?r = Some (Decided v)" by (metis option.exhaust wait_end.exhaust)
  then show ?thesis by cases (use w r in auto)
qed

lemma seg_owned:
  assumes "seg os p s h = Some (rep, p', s', h @ es)" and "holds F M" and "F t = fds (g_netlink_ctx s) p"
    and "\<And>x. fd_balance h x = held M x" and "fresh_sockets os" and "connected (g_netlink_ctx s) p"
  shows "own_trace M (map (Pair t) es) \<and> holds (F(t := fds (g_netlink_ctx s') p')) (owners M (map (Pair t) es)) \<and>
           connected (g_netlink_ctx s') p'"
proof -
  let ?c = "g_netlink_ctx s"
  have ctx: "M (sk_fd ?c) = Some t" if "sk_fd ?c \<noteq> -1" using assms(2,3) that by (auto simp: holds_def fds_def)
  have frame: "M (frame_fd p) = Some t" if "frame_fd p \<noteq> -1" using assms(2,3) that by (auto simp: holds_def fds_def)
  note same = holds_same [OF assms(2), of _ t]
  have timed: ?thesis if "es = [tm_event os h]" and c: "g_netlink_ctx s' = ?c" and "frame_fd p' = frame_fd p" and con: "connected ?c p'"
  proof -
    have "fds ?c p' = F t" unfolding assms(3) using that(3) by (rule fds_frame) (rule refl)
    from same [OF this] show ?thesis using that(1) con unfolding c by (simp add: tm_event_def)
  qed
  show ?thesis
  proof (cases p)
    case (AtInit cip sip cp sp)
    obtain r c h' where i: "netlink_ctx_init os ?c h = (r, c, h')" by (metis prod_cases3)
    then have h': "h' = h @ es" and c: "g_netlink_ctx s' = c" and p': "p' = (if r \<noteq> 0 then Outside else AtAlloc cip sip cp sp)"
      using assms(1) AtInit by (auto simp: Let_def split: if_splits)
    have ok: "r = 0 \<Longrightarrow> sk_fd c \<noteq> -1" using i netlink_ctx_init_ok by blast
    from init_owned [OF i [unfolded h'] assms(2,4,5), of t] show ?thesis
    proof (elim conjE disjE)
      assume "sk_fd c = sk_fd ?c" "owners M (map (Pair t) es) = M" "own_trace M (map (Pair t) es)"
      then show ?thesis using same [of "fds c p'"] c p' ok assms(3) AtInit by (auto simp: fds_def)
    next
      assume n: "own_trace M (map (Pair t) es)" "sk_fd ?c = -1" "sk_fd c \<noteq> -1" "M (sk_fd c) = None"
        "owners M (map (Pair t) es) = M(sk_fd c \<mapsto> t)"
      have "fds c p' = insert (sk_fd c) (F t)" using n p' assms(3) AtInit by (auto simp: fds_def)
      from holds_open [OF assms(2) n(4) this] show ?thesis using n c p' by auto
    qed
  next
    case (AtAlloc cip sip cp sp)
    obtain r c h' where i: "netlink_ctx_alloc_msg os ?c h = (r, c, h')" by (metis prod_cases3)
    then have c: "sk_fd c = sk_fd ?c" and es: "es = [] \<or> (\<exists>q. es = [Malloc nlmsg_space q])"
      using assms(1) AtAlloc by (auto simp: netlink_ctx_alloc_msg_def Let_def split: if_splits option.splits)
    have "sk_fd (g_netlink_ctx s') = sk_fd c" "frame_fd p' = -1" "connected (g_netlink_ctx s') p'"
      using assms(1,6) AtAlloc i c by (auto simp: Let_def split: if_splits option.splits)
    moreover from this have "fds (g_netlink_ctx s') p' = F t" using c assms(3) AtAlloc by (simp add: fds_def)
    from same [OF this] have "holds (F(t := fds (g_netlink_ctx s') p')) M" .
    ultimately show ?thesis using es by auto
  next
    case (AtSend bs)
    have neg: "sk_fd ?c \<noteq> -1" using assms(6) AtSend by simp
    let ?e = "SendTo (sk_fd ?c) (daddr ?c) bs (os_sendto os h (sk_fd ?c) (daddr ?c) bs)"
    obtain c' h' where cl: "netlink_ctx_cleanup ?c True (h @ [?e]) = (c', h')" by fastforce
    then obtain es2 where h': "h' = (h @ [?e]) @ es2" using netlink_ctx_cleanup_extends by blast
    note own = cleanup_owned [where h = "h @ [?e]" and es = es2 and M = M and t = t, OF cl [unfolded h'] ctx [OF neg] neg]
    have "fds c' Outside = F t - {sk_fd ?c}" using own assms(3) AtSend by (auto simp: fds_def)
    from holds_close [OF assms(2) _ this] have closed: "holds (F(t := fds c' Outside)) (M(sk_fd ?c := None))"
      using assms(3) AtSend neg by (auto simp: fds_def)
    have Ft: "fds ?c Outside = F t" "fds ?c AtWait = F t" using assms(3) AtSend by (simp_all add: fds_def)
    have "seg os (AtSend bs) s h =
        (if sk_fd ?c < 0 then Some (Done (Ret (Code (-1))) None, Outside, s, h)
         else if os_sendto os h (sk_fd ?c) (daddr ?c) bs = 0
         then Some (Done (Exit (-1)) None, Outside, s\<lparr>g_netlink_ctx := c'\<rparr>, h @ ?e # es2)
         else Some (Working, AtWait, s, h @ [?e]))"
      using cl h' by (cases "os_sendto os h (sk_fd ?c) (daddr ?c) bs = 0") (simp_all add: Let_def)
    then consider "es = []" "p' = Outside" "s' = s" | "es = ?e # es2" "p' = Outside" "g_netlink_ctx s' = c'"
      | "es = [?e]" "p' = AtWait" "s' = s"
      using assms(1) AtSend by (fastforce split: if_splits)
    then show ?thesis
    proof cases
      case 1
      with same [OF Ft(1)] show ?thesis by simp
    next
      case 2
      with own closed ctx [OF neg] show ?thesis by simp
    next
      case 3
      with same [OF Ft(2)] ctx [OF neg] neg show ?thesis by simp
    qed
  next
    case AtWait
    have M: "M (sk_fd ?c) = Some t" using ctx assms(6) AtWait by simp
    note w = seg_wait [OF assms(1) [unfolded AtWait], unfolded same_append_eq]
    from w have p': "p' = AtWait \<or> p' = Outside \<or> (\<exists>v. p' = AtEnd v)" by blast
    from w have fd: "sk_fd (g_netlink_ctx s') = sk_fd ?c" and es: "es = [RecvFrom (sk_fd ?c) (os_recvfrom os h (sk_fd ?c))]"
      by simp_all
    have "frame_fd p' = -1" "connected (g_netlink_ctx s') p'" using p' fd assms(6) AtWait by (elim disjE exE, simp_all)+
    moreover from this have "fds (g_netlink_ctx s') p' = F t" using fd assms(3) AtWait by (simp add: fds_def)
    from same [OF this] have "holds (F(t := fds (g_netlink_ctx s') p')) M" .
    ultimately show ?thesis using M es by simp
  next
    case (FetchInit cip sip cp sp)
    obtain r c h' where i: "netlink_ctx_init os empty_ctx h = (r, c, h')" by (metis prod_cases3)
    then have h': "h' = h @ es" and c: "s' = s" and p': "p' = (if r \<noteq> 0 then Outside else FetchAlloc cip sip cp sp c)"
      using assms(1) FetchInit by (auto simp: Let_def split: if_splits)
    have ok: "r = 0 \<Longrightarrow> sk_fd c \<noteq> -1" using i netlink_ctx_init_ok by blast
    from init_owned [OF i [unfolded h'] assms(2,4,5), of t] show ?thesis
    proof (elim conjE disjE)
      assume "sk_fd c = sk_fd empty_ctx" "owners M (map (Pair t) es) = M" "own_trace M (map (Pair t) es)"
      then show ?thesis using same [of "fds ?c p'"] c p' ok assms(3) FetchInit by (auto simp: fds_def empty_ctx_def)
    next
      assume n: "own_trace M (map (Pair t) es)" "r = 0" "sk_fd c \<noteq> -1" "M (sk_fd c) = None"
        "owners M (map (Pair t) es) = M(sk_fd c \<mapsto> t)"
      have "sk_fd c \<noteq> sk_fd ?c" using n(3,4) ctx by auto
      moreover have "fds ?c p' = insert (sk_fd c) (F t)" using n p' assms(3) FetchInit by (auto simp: fds_def)
      from holds_open [OF assms(2) n(4) this] have "holds (F(t := fds ?c p')) (M(sk_fd c \<mapsto> t))" .
      ultimately show ?thesis using n c p' by auto
    qed
  next
    case (FetchAlloc cip sip cp sp f)
    have neg: "sk_fd f \<noteq> -1" "sk_fd f \<noteq> sk_fd ?c" using assms(6) FetchAlloc by simp_all
    obtain r c h1 where i: "netlink_ctx_alloc_msg os f h = (r, c, h1)" by (metis prod_cases3)
    then have c: "sk_fd c = sk_fd f" and h1: "h1 = h \<or> (\<exists>q. h1 = h @ [Malloc nlmsg_space q])" and some: "r = 0 \<Longrightarrow> nlh c \<noteq> None"
      by (auto simp: netlink_ctx_alloc_msg_def Let_def split: if_splits)
    obtain c' h' where cl: "netlink_ctx_cleanup c True h1 = (c', h')" by fastforce
    then obtain es2 where h': "h' = h1 @ es2" using netlink_ctx_cleanup_extends by blast
    have own: "own_trace M (map (Pair t) es2) \<and> owners M (map (Pair t) es2) = M(sk_fd f := None) \<and> sk_fd c' = -1"
      using cleanup_owned [where h = h1 and es = es2 and M = M and t = t, OF cl [unfolded h']] frame neg c FetchAlloc by simp
    have "fds ?c Outside = F t - {sk_fd f}" "sk_fd f \<in> F t"
      unfolding assms(3) FetchAlloc using neg by (simp_all add: fds_outside fds_mem)
    from holds_close [OF assms(2) this(2,1)] have closed: "holds (F(t := fds ?c Outside)) (M(sk_fd f := None))" .
    show ?thesis
    proof (cases "r = 0")
      case True
      then obtain b where "nlh c = Some b" using some by blast
      with True have "h1 = h @ es \<and> s' = s \<and> (\<exists>bs. p' = FetchStamp bs c)" using assms(1) FetchAlloc i by (simp, blast)
      then obtain bs where es: "es = [] \<or> (\<exists>q. es = [Malloc nlmsg_space q])" and p': "s' = s" "p' = FetchStamp bs c"
        using h1 by auto
      have "fds ?c p' = F t" using p' c assms(3) FetchAlloc by (simp add: fds_def)
      from same [OF this] show ?thesis using es p' c neg by auto
    next
      case False
      then have "h1 @ es2 = h @ es \<and> s' = s \<and> p' = Outside" using assms(1) FetchAlloc i cl h' by simp
      then have "(es = es2 \<or> (\<exists>q. es = Malloc nlmsg_space q # es2)) \<and> s' = s \<and> p' = Outside" using h1 by auto
      then show ?thesis using own closed by (elim conjE disjE exE) simp_all
    qed
  next
    case (FetchSend bs f)
    have neg: "sk_fd f \<noteq> -1" "sk_fd f \<noteq> sk_fd ?c" using assms(6) FetchSend by simp_all
    then have M: "M (sk_fd f) = Some t" using frame FetchSend by simp
    let ?e = "SendTo (sk_fd f) (daddr f) bs (os_sendto os h (sk_fd f) (daddr f) bs)"
    obtain c' h' where cl: "netlink_ctx_cleanup f True (h @ [?e]) = (c', h')" by fastforce
    then obtain es2 where h': "h' = (h @ [?e]) @ es2" using netlink_ctx_cleanup_extends by blast
    note own = cleanup_owned [where h = "h @ [?e]" and es = es2 and M = M and t = t, OF cl [unfolded h'] M neg(1)]
    have "fds ?c Outside = F t - {sk_fd f}" "sk_fd f \<in> F t"
      unfolding assms(3) FetchSend using neg by (simp_all add: fds_outside fds_mem)
    from holds_close [OF assms(2) this(2,1)] have closed: "holds (F(t := fds ?c Outside)) (M(sk_fd f := None))" .
    have Ft: "fds ?c (FetchWait f) = F t" using assms(3) FetchSend by (simp add: fds_def)
    have "seg os (FetchSend bs f) s h =
        (if os_sendto os h (sk_fd f) (daddr f) bs = 0 then Some (Done (Exit (-1)) None, Outside, s, h @ ?e # es2)
         else Some (Working, FetchWait f, s, h @ [?e]))"
      using cl h' by (cases "os_sendto os h (sk_fd f) (daddr f) bs = 0") (simp_all add: Let_def)
    then consider "es = ?e # es2" "p' = Outside" "s' = s" | "es = [?e]" "p' = FetchWait f" "s' = s"
      using assms(1) FetchSend by (fastforce split: if_splits)
    then show ?thesis
    proof cases
      case 1
      with own closed M show ?thesis by simp
    next
      case 2
      with same [OF Ft] M neg show ?thesis by simp
    qed
  next
    case (FetchWait f)
    have neg: "sk_fd f \<noteq> -1" "sk_fd f \<noteq> sk_fd ?c" using assms(6) FetchWait by simp_all
    then have M: "M (sk_fd f) = Some t" using frame FetchWait by simp
    let ?e = "RecvFrom (sk_fd f) (os_recvfrom os h (sk_fd f))"
    obtain c' h' where cl: "netlink_ctx_cleanup f True (h @ [?e]) = (c', h')" by fastforce
    then obtain es2 where h': "h' = (h @ [?e]) @ es2" using netlink_ctx_cleanup_extends by blast
    note own = cleanup_owned [where h = "h @ [?e]" and es = es2 and M = M and t = t, OF cl [unfolded h'] M neg(1)]
    have "fds ?c Outside = F t - {sk_fd f}" "sk_fd f \<in> F t"
      unfolding assms(3) FetchWait using neg by (simp_all add: fds_outside fds_mem)
    from holds_close [OF assms(2) this(2,1)] have closed: "holds (F(t := fds ?c Outside)) (M(sk_fd f := None))" .
    have fin: "fds ?c (FetchEnd k) = fds ?c Outside" for k by (simp add: fds_def)
    have "es = ?e # es2 \<and> (p' = Outside \<or> (\<exists>k. p' = FetchEnd k)) \<and> s' = s"
      using assms(1) FetchWait cl h' by (auto simp: Let_def split: if_splits)
    then show ?thesis using own closed fin M by (elim conjE disjE exE) simp_all
  next
    case (AtStamp bs)
    with assms(1) have "es = [tm_event os h] \<and> g_netlink_ctx s' = ?c \<and> p' = AtSend bs" by (auto simp: tm_simps)
    then show ?thesis using assms(6) AtStamp by (intro timed) simp_all
  next
    case (AtEnd v)
    with assms(1) have "es = [tm_event os h] \<and> g_netlink_ctx s' = ?c \<and> p' = Outside" by (auto simp: tm_simps)
    then show ?thesis using assms(6) AtEnd by (intro timed) simp_all
  next
    case (FetchStamp bs f)
    with assms(1) have "es = [tm_event os h] \<and> g_netlink_ctx s' = ?c \<and> p' = FetchSend bs f" by (auto simp: tm_simps)
    then show ?thesis using assms(6) FetchStamp by (intro timed) simp_all
  next
    case (FetchEnd k)
    with assms(1) have "es = [tm_event os h] \<and> g_netlink_ctx s' = ?c \<and> p' = Outside" by (auto simp: tm_simps)
    then show ?thesis using assms(6) FetchEnd by (intro timed) simp_all
  qed (use assms in auto)
qed

definition thread_fds :: "threads \<Rightarrow> nat \<Rightarrow> int set" where
  "thread_fds m t = fds (ctxs m t) (places m t)"

definition sockets_ok :: "threads \<Rightarrow> bool" where
  "sockets_ok m \<longleftrightarrow>
     own_trace Map.empty (tlog m) \<and> holds (thread_fds m) (owners Map.empty (tlog m)) \<and>
     (\<forall>t. connected (ctxs m t) (places m t))"

lemma sockets_ok_balance: "sockets_ok m \<Longrightarrow> fd_balance (flat m) x = held (owners Map.empty (tlog m)) x"
  using own_trace_balance [of Map.empty "tlog m" x] by (simp add: sockets_ok_def flat_def held_def)

lemma thread_fds_commit: "thread_fds (commit t rep p s h m) = (thread_fds m)(t := fds (g_netlink_ctx s) p)"
  by (rule ext) (simp add: thread_fds_def commit_def)

lemma thread_fds_place: "frame_fd p = frame_fd (places m t) \<Longrightarrow> thread_fds (m\<lparr>places := (places m)(t := p)\<rparr>) = thread_fds m"
  by (rule ext) (simp add: thread_fds_def fds_def)

lemma frame_entry [simp]: "frame_fd (entry call) = -1" "connected c (entry call)"
  by (cases call; simp)+

lemma sockets_ok_step:
  assumes "th_step env m l m'" and "\<And>t. fresh_sockets (env t)" and "sockets_ok m"
  shows "sockets_ok m'"
  using assms(1)
proof cases
  case (runs t rep p s h)
  obtain es where h: "h = flat m @ es" using seg_extends [OF runs(4)] by blast
  let ?M = "owners Map.empty (tlog m)"
  have "own_trace ?M (map (Pair t) es) \<and> holds ((thread_fds m)(t := fds (g_netlink_ctx s) p)) (owners ?M (map (Pair t) es)) \<and>
      connected (g_netlink_ctx s) p"
    using assms(2,3) sockets_ok_balance
    by (intro seg_owned [OF runs(4) [unfolded h]]) (simp_all add: sockets_ok_def view_def thread_fds_def)
  moreover have "thread_fds m' = (thread_fds m)(t := fds (g_netlink_ctx s) p)" by (simp add: runs(2) thread_fds_commit)
  moreover have "tlog m' = tlog m @ map (Pair t) es" "ctxs m' = (ctxs m)(t := g_netlink_ctx s)" "places m' = (places m)(t := p)"
    by (simp_all add: runs(2) commit_def h flat_def)
  ultimately show ?thesis using assms(3) unfolding sockets_ok_def by simp
qed (use assms(3) in \<open>auto simp: sockets_ok_def thread_fds_place\<close>)

lemma sockets_ok_run:
  assumes "th_run env threads_start ls m" and "\<And>t. fresh_sockets (env t)"
  shows "sockets_ok m"
proof -
  have "m0 = threads_start \<longrightarrow> sockets_ok m" if "th_run env m0 ls m" for m0
    using that
  proof induction
    case (th_refl m)
    show ?case by (auto simp: sockets_ok_def threads_start_def holds_def empty_ctx_def thread_fds_def fds_def)
  next
    case (th_snoc m ls m' l m'')
    then show ?case using sockets_ok_step assms(2) by blast
  qed
  then show ?thesis using assms(1) by simp
qed

section \<open>What a thread has seen when its call returns\<close>

definition own :: "threads \<Rightarrow> nat \<Rightarrow> hist" where
  "own m t = map snd (filter (\<lambda>e. fst e = t) (tlog m))"

text \<open>The last call of thread \<open>t\<close>, and the datagrams that ask for it.\<close>

fun note_call :: "nat \<Rightarrow> api_call option \<Rightarrow> label \<Rightarrow> api_call option" where
  "note_call t c (Calls u call) = (if u = t then Some call else c)"
| "note_call t c _ = c"

definition last_call :: "nat \<Rightarrow> label list \<Rightarrow> api_call option" where
  "last_call t ls = foldl (note_call t) None ls"

fun asks :: "api_call option \<Rightarrow> byte list \<Rightarrow> bool" where
  "asks (Some (Handshake cip sip cp sp)) bs \<longleftrightarrow> (\<exists>u. request_payload bs = handshake_msg cip sip cp sp u)"
| "asks (Some (FetchKey cip sip cp sp)) bs \<longleftrightarrow> (\<exists>u. request_payload bs = fetch_msg cip sip cp sp u)"
| "asks None bs \<longleftrightarrow> False"

fun is_handshake :: "api_call option \<Rightarrow> bool" where
  "is_handshake (Some (Handshake cip sip cp sp)) \<longleftrightarrow> True"
| "is_handshake _ \<longleftrightarrow> False"

fun is_fetch :: "api_call option \<Rightarrow> bool" where
  "is_fetch (Some (FetchKey cip sip cp sp)) \<longleftrightarrow> True"
| "is_fetch _ \<longleftrightarrow> False"

lemma asks_handshake:
  "is_handshake call \<Longrightarrow> asks call bs \<Longrightarrow>
     \<exists>cip sip cp sp u. call = Some (Handshake cip sip cp sp) \<and> request_payload bs = handshake_msg cip sip cp sp u"
  by (cases call rule: is_handshake.cases) auto

lemma asks_fetch:
  "is_fetch call \<Longrightarrow> asks call bs \<Longrightarrow>
     \<exists>cip sip cp sp u. call = Some (FetchKey cip sip cp sp) \<and> request_payload bs = fetch_msg cip sip cp sp u"
  by (cases call rule: is_fetch.cases) auto

text \<open>
  The thread's own events end with a request for the call, and receives on the same socket; the replies \<open>rs\<close> decided nothing.
\<close>

definition exchanged :: "api_call option \<Rightarrow> int \<Rightarrow> hist \<Rightarrow> io_result list \<Rightarrow> hist \<Rightarrow> bool" where
  "exchanged call fd tail rs es \<longleftrightarrow>
     (\<exists>us a bs r. es = us @ SendTo fd a bs r # map (RecvFrom fd) rs @ tail \<and> r \<noteq> 0 \<and> asks call bs) \<and>
     (\<forall>x \<in> set rs. verdict handshake_switch x = None)"

text \<open>What the thread knows at each place; \<open>fd\<close> is the descriptor of its thread-local context.\<close>

fun seen :: "api_call option \<Rightarrow> int \<Rightarrow> hist \<Rightarrow> place \<Rightarrow> bool" where
  "seen call fd es (AtInit cip sip cp sp) \<longleftrightarrow> call = Some (Handshake cip sip cp sp)"
| "seen call fd es (AtAlloc cip sip cp sp) \<longleftrightarrow> call = Some (Handshake cip sip cp sp)"
| "seen call fd es (AtStamp bs) \<longleftrightarrow> is_handshake call \<and> asks call bs"
| "seen call fd es (AtSend bs) \<longleftrightarrow> is_handshake call \<and> asks call bs"
| "seen call fd es AtWait \<longleftrightarrow> is_handshake call \<and> (\<exists>rs. exchanged call fd [] rs es)"
| "seen call fd es (AtEnd v) \<longleftrightarrow> is_handshake call \<and>
     (\<exists>rs d. exchanged call fd [RecvFrom fd d] rs es \<and> verdict handshake_switch d = Some (Decided v))"
| "seen call fd es (FetchInit cip sip cp sp) \<longleftrightarrow> call = Some (FetchKey cip sip cp sp)"
| "seen call fd es (FetchAlloc cip sip cp sp c) \<longleftrightarrow> call = Some (FetchKey cip sip cp sp)"
| "seen call fd es (FetchStamp bs c) \<longleftrightarrow> is_fetch call \<and> asks call bs"
| "seen call fd es (FetchSend bs c) \<longleftrightarrow> is_fetch call \<and> asks call bs"
| "seen call fd es (FetchWait c) \<longleftrightarrow> is_fetch call \<and> exchanged call (sk_fd c) [] [] es"
| "seen call fd es (FetchEnd k) \<longleftrightarrow> is_fetch call \<and>
     (\<exists>x r ev. exchanged call x (RecvFrom x r # ev) [] es \<and> set ev \<subseteq> insert (Close x) (range Free) \<and>
        k = read_key_back (u_msg (recv_buf user_msg_info_size r)))"
| "seen call fd es _ \<longleftrightarrow> True"

lemma exchanged_more:
  "exchanged call fd [] rs es \<Longrightarrow> verdict handshake_switch x = None \<Longrightarrow> exchanged call fd [] (rs @ [x]) (es @ [RecvFrom fd x])"
  by (auto simp: exchanged_def)

lemma exchanged_last: "exchanged call fd [] rs es \<Longrightarrow> exchanged call fd tail rs (es @ tail)"
  by (auto simp: exchanged_def)

lemma exchanged_sent: "asks call bs \<Longrightarrow> r \<noteq> 0 \<Longrightarrow> exchanged call fd [] [] (es @ [SendTo fd a bs r])"
  by (auto simp: exchanged_def)

lemma cleanup_events: "\<exists>ev. snd (netlink_ctx_cleanup c b h) = h @ ev \<and> set ev \<subseteq> insert (Close (sk_fd c)) (range Free)"
  by (auto simp: netlink_ctx_cleanup_def Let_def split: option.split)

lemma seen_step:
  assumes "seg os p s h = Some (rep, p', s', h @ es)" and "seen call (sk_fd (g_netlink_ctx s)) w p"
  shows "seen call (sk_fd (g_netlink_ctx s')) (w @ es) p'"
proof (cases p)
  case (AtInit cip sip cp sp)
  with assms show ?thesis by (auto simp: Let_def split: prod.splits if_splits)
next
  case (AtAlloc cip sip cp sp)
  with assms show ?thesis by (auto simp: Let_def split: prod.splits if_splits option.splits)
next
  case (AtStamp bs)
  with assms show ?thesis by (auto simp: tm_simps)
next
  case (AtSend bs)
  with assms show ?thesis by (auto simp: Let_def intro!: exI [of _ "[]"] exchanged_sent split: prod.splits if_splits)
next
  case AtWait
  let ?fd = "sk_fd (g_netlink_ctx s)"
  let ?r = "os_recvfrom os h ?fd"
  obtain rs where rs: "exchanged call ?fd [] rs w" and hs: "is_handshake call" using assms(2) AtWait by auto
  from seg_wait [OF assms(1) [unfolded AtWait], unfolded same_append_eq]
  have fd: "sk_fd (g_netlink_ctx s') = ?fd" and es: "es = [RecvFrom ?fd ?r]"
    and p': "p' = AtWait \<and> verdict handshake_switch ?r = None \<or> p' = Outside \<or>
      (\<exists>v. p' = AtEnd v \<and> verdict handshake_switch ?r = Some (Decided v))" by simp_all
  from p' consider "p' = AtWait" "verdict handshake_switch ?r = None" | "p' = Outside"
    | v where "p' = AtEnd v" "verdict handshake_switch ?r = Some (Decided v)" by (elim disjE conjE exE) simp_all
  then show ?thesis
  proof cases
    case 1
    with exchanged_more [OF rs this(2)] hs show ?thesis unfolding fd es 1(1) seen.simps by blast
  next
    case (3 v)
    with exchanged_last [OF rs] hs show ?thesis unfolding fd es 3(1) seen.simps by blast
  qed simp
next
  case (AtEnd v)
  with assms show ?thesis by (auto simp: tm_simps)
next
  case (FetchInit cip sip cp sp)
  with assms show ?thesis by (auto simp: Let_def split: prod.splits if_splits)
next
  case (FetchAlloc cip sip cp sp c)
  with assms show ?thesis by (auto simp: Let_def split: prod.splits if_splits option.splits)
next
  case (FetchStamp bs c)
  with assms show ?thesis by (auto simp: tm_simps)
next
  case (FetchSend bs c)
  with assms show ?thesis by (auto simp: Let_def intro!: exchanged_sent split: if_splits)
next
  case (FetchWait c)
  let ?r = "os_recvfrom os h (sk_fd c)"
  obtain ev where ev: "snd (netlink_ctx_cleanup c True (h @ [RecvFrom (sk_fd c) ?r])) = (h @ [RecvFrom (sk_fd c) ?r]) @ ev"
    "set ev \<subseteq> insert (Close (sk_fd c)) (range Free)" using cleanup_events by blast
  have "es = RecvFrom (sk_fd c) ?r # ev \<and> (p' = Outside \<or> p' = FetchEnd (read_key_back (u_msg (recv_buf user_msg_info_size ?r))))"
    using assms(1) FetchWait ev(1) by (auto simp: Let_def split: if_splits)
  moreover have "exchanged call (sk_fd c) [] [] w" and "is_fetch call" using assms(2) FetchWait by simp_all
  moreover from exchanged_last [OF this(1)]
  have "exchanged call (sk_fd c) (RecvFrom (sk_fd c) ?r # ev) [] (w @ RecvFrom (sk_fd c) ?r # ev)" .
  ultimately show ?thesis using ev(2) by (elim conjE disjE) (simp, simp only: seen.simps, blast)
next
  case (FetchEnd k)
  with assms show ?thesis by (auto simp: tm_simps)
qed (use assms in auto)

lemma own_commit:
  assumes "h = flat m @ es"
  shows "own (commit t rep p s h m) u = (if u = t then own m u @ es else own m u)"
  using assms by (simp add: own_def commit_def flat_def filter_map comp_def)

lemma last_call_snoc [simp]: "last_call t (ls @ [l]) = note_call t (last_call t ls) l"
  by (simp add: last_call_def)

lemma seen_entry: "seen (Some call) fd es (entry call)"
  by (cases call) simp_all

lemma seen_run:
  assumes "th_run env threads_start ls m"
  shows "seen (last_call t ls) (sk_fd (ctxs m t)) (own m t) (places m t)"
proof -
  have "m0 = threads_start \<longrightarrow> (\<forall>t. seen (last_call t ls) (sk_fd (ctxs m t)) (own m t) (places m t))"
    if "th_run env m0 ls m" for m0
    using that
  proof induction
    case (th_refl m)
    show ?case by (simp add: threads_start_def)
  next
    case (th_snoc m ls m' l m'')
    from th_snoc.hyps(2) show ?case
    proof cases
      case (runs t rep p s h)
      obtain es where h: "h = flat m' @ es" using seg_extends [OF runs(4)] by blast
      show ?thesis
        using th_snoc.IH seen_step [OF runs(4) [unfolded h]] runs(1,2) own_commit [OF h]
        by (auto simp: view_def commit_def)
    qed (use th_snoc.IH seen_entry in \<open>auto simp: own_def\<close>)
  qed
  then show ?thesis using assms by simp
qed

text \<open>A handshake that returns 0, and a fetch that prints a time, end at their last place.\<close>

lemma seg_returns_code:
  assumes "seg os p s h = Some (Done (Ret (Code 0)) c, p', s', h')"
  shows "p = AtEnd 0"
proof (cases p)
  case AtWait
  note w = assms [unfolded AtWait seg_AtWait Let_def]
  let ?v = "verdict handshake_switch (os_recvfrom os h (sk_fd (g_netlink_ctx s)))"
  consider "?v = None" | "?v = Some RecvZero" | v where "?v = Some (Decided v)" by (metis option.exhaust wait_end.exhaust)
  then show ?thesis by cases (use w in \<open>simp_all split: if_splits\<close>)
qed (use assms in \<open>auto simp: Let_def tm_simps split: prod.splits if_splits option.splits\<close>)

lemma seg_returns_key:
  assumes "seg os p s h = Some (Done (Ret (Key k)) (Some c), p', s', h')"
  shows "p = FetchEnd k"
proof (cases p)
  case AtWait
  note w = assms [unfolded AtWait seg_AtWait Let_def]
  let ?v = "verdict handshake_switch (os_recvfrom os h (sk_fd (g_netlink_ctx s)))"
  consider "?v = None" | "?v = Some RecvZero" | v where "?v = Some (Decided v)" by (metis option.exhaust wait_end.exhaust)
  then show ?thesis by cases (use w in \<open>simp_all split: if_splits\<close>)
qed (use assms in \<open>auto simp: Let_def tm_simps split: prod.splits if_splits option.splits\<close>)

section \<open>A scheduler and a kernel to run the threads\<close>

text \<open>\<open>schedule env m ts\<close> lets the threads of the list \<open>ts\<close> run one segment each, in this order.\<close>

definition move :: "(nat \<Rightarrow> os) \<Rightarrow> threads \<Rightarrow> nat \<Rightarrow> (label \<times> threads) option" where
  "move env m t =
     (if alive m
      then map_option (\<lambda>(rep, p, s, h). (Runs t rep, commit t rep p s h m)) (seg (env t) (places m t) (view m t) (flat m))
      else None)"

fun schedule :: "(nat \<Rightarrow> os) \<Rightarrow> threads \<Rightarrow> nat list \<Rightarrow> (label list \<times> threads) option" where
  "schedule env m [] = Some ([], m)"
| "schedule env m (t # ts) =
     (case move env m t of
        None \<Rightarrow> None
      | Some (l, m') \<Rightarrow> map_option (\<lambda>(ls, m''). (l # ls, m'')) (schedule env m' ts))"

lemma schedule_run: "schedule env m ts = Some (ls, m') \<Longrightarrow> th_run env m ls m'"
proof (induction env m ts arbitrary: ls rule: schedule.induct)
  case (1 env m)
  then show ?case by (simp add: th_refl)
next
  case (2 env m t ts)
  then obtain l m1 ls1 where mv: "move env m t = Some (l, m1)" and "schedule env m1 ts = Some (ls1, m')" and ls: "ls = l # ls1"
    by (auto split: option.splits)
  then have run: "th_run env m1 ls1 m'" using 2 by blast
  have "th_step env m l m1" using mv by (auto simp: move_def intro: runs split: if_splits)
  then show ?case using th_trans [OF th_one run] ls by simp
qed

fun fd_size :: "event \<Rightarrow> int" where
  "fd_size (Socket fd) = \<bar>fd\<bar>"
| "fd_size (Close fd) = \<bar>fd\<bar>"
| "fd_size (TcpAccept s (AcceptOk fd)) = int fd"
| "fd_size _ = 0"

definition demo_os :: os where
  "demo_os =
     (const_os good_reply)\<lparr>os_socket := (\<lambda>h. 3 + sum_list (map fd_size h)),
        os_clock := (\<lambda>h c. \<lparr>tv_sec = int (length h), tv_nsec = 0\<rparr>)\<rparr>"

lemma fd_size_nonneg: "0 \<le> fd_size e"
  by (cases e rule: fd_size.cases) auto

lemma fd_balance_beyond: "sum_list (map fd_size h) < x \<Longrightarrow> fd_balance h x = 0"
proof (induction h)
  case (Cons e h)
  have "0 \<le> sum_list (map fd_size h)" by (intro sum_list_nonneg) (auto simp: fd_size_nonneg)
  then have "fd_size e < x" "sum_list (map fd_size h) < x" using Cons.prems fd_size_nonneg [of e] by simp_all
  moreover from this have "fd_delta e x = 0" by (cases e rule: fd_size.cases) auto
  ultimately show ?case using Cons.IH by (simp add: balance)
qed (simp add: balance)

lemma fresh_demo_os: "fresh_sockets demo_os"
  by (simp add: fresh_sockets_def demo_os_def fd_balance_beyond)

lemma demo_os_simps [simp]:
  "os_socket demo_os h = 3 + sum_list (map fd_size h)" "os_clock demo_os h c = \<lparr>tv_sec = int (length h), tv_nsec = 0\<rparr>"
  "os_bind demo_os h fd a = 0" "os_malloc demo_os h n = 4096" "os_sendto demo_os h fd a bs = 32"
  "os_recvfrom demo_os h fd = good_reply" "os_gettid demo_os h = 77"
  by (simp_all add: demo_os_def)

text \<open>Two threads that have both called the API.\<close>

definition two_calls :: "api_call \<Rightarrow> api_call \<Rightarrow> threads" where
  "two_calls a b = threads_start\<lparr>places := (places threads_start)(1 := entry a, 2 := entry b)\<rparr>"

lemma two_calls_run: "th_run (\<lambda>t. demo_os) threads_start [Calls 1 a, Calls 2 b] (two_calls a b)"
proof -
  let ?m = "threads_start\<lparr>places := (places threads_start)(1 := entry a)\<rparr>"
  have 1: "th_step (\<lambda>t. demo_os) threads_start (Calls 1 a) ?m" by (rule calls) (simp_all add: threads_start_def)
  have 2: "th_step (\<lambda>t. demo_os) ?m (Calls 2 b) (?m\<lparr>places := (places ?m)(2 := entry b)\<rparr>)"
    by (rule calls) (simp_all add: threads_start_def)
  show ?thesis using th_trans [OF th_one [OF 1] th_one [OF 2]] by (simp add: two_calls_def)
qed

abbreviation shakes :: threads where
  "shakes \<equiv> two_calls (Handshake 1 2 80 443) (Handshake 3 4 81 444)"

lemma sequence_run:
  assumes "schedule (\<lambda>t. demo_os) (two_calls a b) ts = Some (ls, m)"
  shows "th_run (\<lambda>t. demo_os) threads_start (Calls 1 a # Calls 2 b # ls) m"
  using th_trans [OF two_calls_run schedule_run [OF assms]] by simp

lemma schedule_facts:
  assumes "map_option (\<lambda>(ls, m). f ls m) (schedule env m0 ts) = Some y"
  obtains ls m where "schedule env m0 ts = Some (ls, m)" and "f ls m = y"
  using assms by auto

declare schedule.simps [simp del]

lemmas run_threads =
  schedule.simps two_calls_def threads_start_def move_def view_def flat_def commit_def netlink_ctx_init_def netlink_ctx_alloc_msg_def
  empty_ctx_def tm_simps tm_event_def seg_AtWait handshake_switch_def Let_def survives.simps

section \<open>Properties\<close>

theorem undisturbed_thread_performs_call_witness:
  "\<exists>ls m' c. th_run (\<lambda>t. demo_os) threads_start
       (Calls 1 (Handshake 1 2 80 443) # map (Runs 1) ls @ [Runs 1 (Done (Ret (Code 0)) c)]) m' \<and>
     sk_fd (ctxs m' 1) = 3"
proof -
  have wait: "recv_loop demo_os fd handshake_switch a h = Some (Decided 0, kernel_addr, h @ [RecvFrom fd good_reply])" for fd a h
    by (subst recv_loop_unfold) (simp add: handshake_switch_def)
  have st: "alive threads_start" "places threads_start 1 = Outside" by (simp_all add: threads_start_def)
  obtain s h where run: "tlshub_handshake demo_os 1 2 80 443 (view threads_start 1) (flat threads_start) = Some (Ret 0, s, h)"
    and fd: "sk_fd (g_netlink_ctx s) = 3"
    by (simp add: api_defs Let_def wait view_def flat_def threads_start_def empty_ctx_def)
  have "call_result demo_os (Handshake 1 2 80 443) (view threads_start 1) (flat threads_start) = Some (Ret (Code 0), s, h)"
    by (simp add: run del: One_nat_def)
  from undisturbed_thread_performs_call [of threads_start 1 "\<lambda>t. demo_os", OF st this]
  obtain ls m' c where
    r: "th_run (\<lambda>t. demo_os) threads_start
      (Calls 1 (Handshake 1 2 80 443) # map (Runs 1) ls @ [Runs 1 (Done (Ret (Code 0)) c)]) m'" and v: "view m' 1 = s"
    by blast
  have "sk_fd (ctxs m' 1) = 3" using fd v [symmetric] by (simp add: view_def)
  with r show ?thesis by blast
qed

text \<open>
  Property C14 (threads_use_their_own_sockets). However threads interleave in handshakes and key fetches, no two of them ever
  hold the same socket, and a thread never binds, sends on, receives from or closes a socket that it has not opened itself
  and not closed yet, provided the kernel hands out only descriptors that are not open.
\<close>

theorem threads_use_their_own_sockets:
  assumes "th_run env threads_start ls m" and "\<And>t. fresh_sockets (env t)"
  shows "own_trace Map.empty (tlog m) \<and> (\<forall>t u. t = u \<or> thread_fds m t \<inter> thread_fds m u = {})"
proof -
  have "sockets_ok m" using sockets_ok_run assms by blast
  then show ?thesis by (auto simp: sockets_ok_def) (metis holds_def option.inject)
qed

theorem threads_use_their_own_sockets_witness:
  "\<exists>m :: threads. own_trace Map.empty (tlog m) \<and> thread_fds m 1 = {3} \<and> thread_fds m 2 = {6}"
proof -
  let ?m = "two_calls (Handshake 1 2 80 443) (FetchKey 3 4 81 444)"
  have "map_option (\<lambda>(ls, m). ((sk_fd (ctxs m 1), frame_fd (places m 1)), sk_fd (ctxs m 2), frame_fd (places m 2)))
      (schedule (\<lambda>t. demo_os) ?m [1, 2, 1, 2, 2, 1, 1, 2]) = Some ((3, -1), -1, 6)"
    by (simp add: run_threads)
  then obtain ls m where s: "schedule (\<lambda>t. demo_os) ?m [1, 2, 1, 2, 2, 1, 1, 2] = Some (ls, m)"
    and "((sk_fd (ctxs m 1), frame_fd (places m 1)), sk_fd (ctxs m 2), frame_fd (places m 2)) = ((3, -1), -1, 6)"
    by (rule schedule_facts)
  then have fds: "thread_fds m 1 = {3}" "thread_fds m 2 = {6}" by (auto simp: thread_fds_def fds_def)
  have "own_trace Map.empty (tlog m)"
    using threads_use_their_own_sockets [OF sequence_run [OF s] fresh_demo_os] by (rule conjunct1)
  with fds show ?thesis by (intro exI [of _ m]) (simp del: One_nat_def)
qed

text \<open>
  Property C13 (success_follows_own_reply). However the threads interleave, when a handshake returns 0 its thread has sent a request
  for the Pods and ports of its last call and has received, on the socket it sent on, first only replies that decide nothing
  and then one of type 1, 2 or 5.
\<close>

theorem success_follows_own_reply:
  assumes "th_run env threads_start ls m" and "th_step env m (Runs t (Done (Ret (Code 0)) c)) m'"
  shows "\<exists>us fd a bs r rs d now cip sip cp sp u.
           own m' t = us @ [SendTo fd a bs r] @ map (RecvFrom fd) (rs @ [d]) @ [Clock CLOCK_REALTIME now] \<and> r \<noteq> 0 \<and>
           last_call t ls = Some (Handshake cip sip cp sp) \<and> request_payload bs = handshake_msg cip sip cp sp u \<and>
           (\<forall>x \<in> set rs. verdict handshake_switch x = None) \<and> u_msg_type (recv_buf user_msg_info_size d) \<in> {1, 2, 5}"
proof -
  from assms(2) obtain p s h where m': "m' = commit t (Done (Ret (Code 0)) c) p s h m"
    and sg: "seg (env t) (places m t) (view m t) (flat m) = Some (Done (Ret (Code 0)) c, p, s, h)"
    by (auto elim: th_runsE)
  obtain es where h: "h = flat m @ es" using seg_extends [OF sg] by blast
  have pl: "places m t = AtEnd 0" using seg_returns_code [OF sg] by simp
  have es: "es = [tm_event (env t) (flat m)]" using sg pl h by (simp add: tm_simps)
  obtain rs d where x: "exchanged (last_call t ls) (sk_fd (ctxs m t)) [RecvFrom (sk_fd (ctxs m t)) d] rs (own m t)"
    and d: "verdict handshake_switch d = Some (Decided 0)" and hs: "is_handshake (last_call t ls)"
    using seen_run [OF assms(1), of t] pl by auto
  have ty: "u_msg_type (recv_buf user_msg_info_size d) \<in> {1, 2, 5}"
    using d by (auto simp: verdict_def handshake_switch_def split: if_splits)
  obtain us a bs r where o: "own m t = us @ SendTo (sk_fd (ctxs m t)) a bs r # map (RecvFrom (sk_fd (ctxs m t))) rs @ [RecvFrom (sk_fd (ctxs m t)) d]"
    and r: "r \<noteq> 0" "asks (last_call t ls) bs" "\<forall>x \<in> set rs. verdict handshake_switch x = None"
    using x by (auto simp: exchanged_def)
  obtain cip sip cp sp u where "last_call t ls = Some (Handshake cip sip cp sp)" "request_payload bs = handshake_msg cip sip cp sp u"
    using asks_handshake [OF hs r(2)] by blast
  moreover have "own m' t = us @ [SendTo (sk_fd (ctxs m t)) a bs r] @ map (RecvFrom (sk_fd (ctxs m t))) (rs @ [d]) @
      [Clock CLOCK_REALTIME (os_clock (env t) (flat m) CLOCK_REALTIME)]"
    using o m' own_commit [OF h] es by (simp add: tm_event_def)
  ultimately show ?thesis using r(1,3) ty by blast
qed

theorem success_follows_own_reply_witness:
  "\<exists>m c m'. th_step (\<lambda>t. demo_os) m (Runs 1 (Done (Ret (Code 0)) c)) m' \<and>
     (\<exists>us fd a bs r rs d now u.
        own m' 1 = us @ [SendTo fd a bs r] @ map (RecvFrom fd) (rs @ [d]) @ [Clock CLOCK_REALTIME now] \<and>
        request_payload bs = handshake_msg 1 2 80 443 u)"
proof -
  let ?all = "\<lambda>ls. Calls 1 (Handshake 1 2 80 443) # Calls 2 (Handshake 3 4 81 444) # ls"
  have "map_option (\<lambda>(ls, m). (last_call 1 (?all ls), alive m, places m 1)) (schedule (\<lambda>t. demo_os) shakes [1, 2, 1, 2, 1, 1, 1]) =
      Some (Some (Handshake 1 2 80 443), True, AtEnd 0)"
    by (simp add: run_threads last_call_def)
  then obtain ls m where s: "schedule (\<lambda>t. demo_os) shakes [1, 2, 1, 2, 1, 1, 1] = Some (ls, m)"
    and "(last_call 1 (?all ls), alive m, places m 1) = (Some (Handshake 1 2 80 443), True, AtEnd 0)"
    by (rule schedule_facts)
  then have l: "last_call 1 (?all ls) = Some (Handshake 1 2 80 443)" and m: "alive m" "places m 1 = AtEnd 0" by simp_all
  obtain c m' where st: "th_step (\<lambda>t. demo_os) m (Runs 1 (Done (Ret (Code 0)) c)) m'"
    using runs [of m "\<lambda>t. demo_os" 1] m by (auto simp: tm_simps)
  from success_follows_own_reply [OF sequence_run [OF s] st]
  obtain us fd a bs r rs d now cip sip cp sp u where
    "own m' 1 = us @ [SendTo fd a bs r] @ map (RecvFrom fd) (rs @ [d]) @ [Clock CLOCK_REALTIME now]"
    "last_call 1 (?all ls) = Some (Handshake cip sip cp sp)" "request_payload bs = handshake_msg cip sip cp sp u"
    by blast
  moreover from this l have "request_payload bs = handshake_msg 1 2 80 443 u" by (simp del: One_nat_def)
  ultimately show ?thesis using st by blast
qed

text \<open>
  Property C15 (fetch_returns_own_reply). However the threads interleave, the key that a key fetch returns after an exchange is
  the one in the reply it received on the socket of its own request, a fetch for the Pods and ports of the thread's last call;
  between the reply and the return the thread only releases that socket and its buffer and reads the clock.
\<close>

theorem fetch_returns_own_reply:
  assumes "th_run env threads_start ls m" and "th_step env m (Runs t (Done (Ret (Key k)) (Some c))) m'"
  shows "\<exists>us fd a bs r d ev now cip sip cp sp u.
           own m' t = us @ [SendTo fd a bs r, RecvFrom fd d] @ ev @ [Clock CLOCK_REALTIME now] \<and> r \<noteq> 0 \<and>
           last_call t ls = Some (FetchKey cip sip cp sp) \<and> request_payload bs = fetch_msg cip sip cp sp u \<and>
           set ev \<subseteq> insert (Close fd) (range Free) \<and> k = read_key_back (u_msg (recv_buf user_msg_info_size d))"
proof -
  from assms(2) obtain p s h where m': "m' = commit t (Done (Ret (Key k)) (Some c)) p s h m"
    and sg: "seg (env t) (places m t) (view m t) (flat m) = Some (Done (Ret (Key k)) (Some c), p, s, h)"
    by (auto elim: th_runsE)
  obtain es where h: "h = flat m @ es" using seg_extends [OF sg] by blast
  have pl: "places m t = FetchEnd k" using seg_returns_key [OF sg] by simp
  have es: "es = [tm_event (env t) (flat m)]" using sg pl h by (simp add: tm_simps)
  obtain fd d ev where x: "exchanged (last_call t ls) fd (RecvFrom fd d # ev) [] (own m t)"
    and ev: "set ev \<subseteq> insert (Close fd) (range Free)" and k: "k = read_key_back (u_msg (recv_buf user_msg_info_size d))"
    and f: "is_fetch (last_call t ls)"
    using seen_run [OF assms(1), of t, unfolded pl seen.simps] by blast
  obtain us a bs r where o: "own m t = us @ SendTo fd a bs r # RecvFrom fd d # ev" and r: "r \<noteq> 0" "asks (last_call t ls) bs"
    using x by (auto simp: exchanged_def)
  obtain cip sip cp sp u where "last_call t ls = Some (FetchKey cip sip cp sp)" "request_payload bs = fetch_msg cip sip cp sp u"
    using asks_fetch [OF f r(2)] by blast
  moreover have "own m' t = us @ [SendTo fd a bs r, RecvFrom fd d] @ ev @
      [Clock CLOCK_REALTIME (os_clock (env t) (flat m) CLOCK_REALTIME)]"
    using o m' own_commit [OF h] es by (simp add: tm_event_def)
  ultimately show ?thesis using r(1) ev k by blast
qed

theorem fetch_returns_own_reply_witness:
  "\<exists>m k c m'. th_step (\<lambda>t. demo_os) m (Runs 2 (Done (Ret (Key k)) (Some c))) m' \<and>
     (\<exists>us fd a bs r d ev now u.
        own m' 2 = us @ [SendTo fd a bs r, RecvFrom fd d] @ ev @ [Clock CLOCK_REALTIME now] \<and>
        request_payload bs = fetch_msg 3 4 81 444 u \<and> k = read_key_back (u_msg (recv_buf user_msg_info_size d)))"
proof -
  let ?m = "two_calls (Handshake 1 2 80 443) (FetchKey 3 4 81 444)"
  let ?all = "\<lambda>ls. Calls 1 (Handshake 1 2 80 443) # Calls 2 (FetchKey 3 4 81 444) # ls"
  let ?k = "read_key_back (u_msg (recv_buf user_msg_info_size good_reply))"
  have "map_option (\<lambda>(ls, m). (last_call 2 (?all ls), alive m, places m 2)) (schedule (\<lambda>t. demo_os) ?m [1, 2, 1, 2, 1, 2, 2, 1, 2]) =
      Some (Some (FetchKey 3 4 81 444), True, FetchEnd ?k)"
    by (simp add: run_threads last_call_def)
  then obtain ls m where s: "schedule (\<lambda>t. demo_os) ?m [1, 2, 1, 2, 1, 2, 2, 1, 2] = Some (ls, m)"
    and "(last_call 2 (?all ls), alive m, places m 2) = (Some (FetchKey 3 4 81 444), True, FetchEnd ?k)"
    by (rule schedule_facts)
  then have l: "last_call 2 (?all ls) = Some (FetchKey 3 4 81 444)" and m: "alive m" "places m 2 = FetchEnd ?k" by simp_all
  obtain c m' where st: "th_step (\<lambda>t. demo_os) m (Runs 2 (Done (Ret (Key ?k)) (Some c))) m'"
    using runs [of m "\<lambda>t. demo_os" 2] m by (auto simp: tm_simps)
  from fetch_returns_own_reply [OF sequence_run [OF s] st]
  obtain us fd a bs r d ev now cip sip cp sp u where
    "own m' 2 = us @ [SendTo fd a bs r, RecvFrom fd d] @ ev @ [Clock CLOCK_REALTIME now]"
    "last_call 2 (?all ls) = Some (FetchKey cip sip cp sp)" "request_payload bs = fetch_msg cip sip cp sp u"
    "?k = read_key_back (u_msg (recv_buf user_msg_info_size d))"
    by blast
  moreover from this l have "request_payload bs = fetch_msg 3 4 81 444 u" by simp
  ultimately show ?thesis using st by blast
qed

text \<open>
  Property C39 (cost_time_crosses_threads). The start time is shared by all threads. When a second thread takes its start time
  while a first one is about to end its handshake, the first one prints the time since the start of the
  second, whenever its own handshake began.
\<close>

theorem cost_time_crosses_threads:
  assumes "alive m" and "t \<noteq> u" and "places m t = AtEnd v" and "places m u = AtStamp bs"
    and "x = os_clock (env u) (flat m) CLOCK_REALTIME"
    and "y = os_clock (env t) (flat m @ [Clock CLOCK_REALTIME x]) CLOCK_REALTIME"
  shows "\<exists>m'. th_run env m [Runs u Working, Runs t (Done (Ret (Code v)) (Some (timespec_secs y - timespec_secs x)))] m'"
proof -
  have sg: "seg (env u) (places m u) (view m u) (flat m) =
      Some (Working, AtSend bs, (view m u)\<lparr>tm_start := x\<rparr>, flat m @ [Clock CLOCK_REALTIME x])"
    using assms(4,5) by (simp add: tm_simps tm_event_def)
  let ?m = "commit u Working (AtSend bs) ((view m u)\<lparr>tm_start := x\<rparr>) (flat m @ [Clock CLOCK_REALTIME x]) m"
  let ?r = "Done (Ret (Code v)) (Some (timespec_secs y - timespec_secs x))"
  have 1: "th_step env m (Runs u Working) ?m" using assms(1) sg by (rule runs)
  have "places ?m t = AtEnd v" "tm_start (view ?m t) = x" using assms(2,3) by (simp_all add: commit_def view_def)
  then have "seg (env t) (places ?m t) (view ?m t) (flat ?m) = Some (?r, Outside, view ?m t, flat ?m @ [tm_event (env t) (flat ?m)])"
    using assms(6) by (simp add: tm_simps flat_commit [OF sg [unfolded assms(4)]])
  then have "th_step env ?m (Runs t ?r) (commit t ?r Outside (view ?m t) (flat ?m @ [tm_event (env t) (flat ?m)]) ?m)"
    by (intro runs) simp_all
  then show ?thesis using th_trans [OF th_one [OF 1] th_one] by fastforce
qed

text \<open>Here the first handshake has taken seven seconds when it prints one.\<close>

theorem cost_time_crosses_threads_witness:
  "\<exists>ls m m'. th_run (\<lambda>t. demo_os) threads_start ls m \<and>
     length (tlog m) = 9 \<and> tlog m ! 3 = (1, Clock CLOCK_REALTIME \<lparr>tv_sec = 3, tv_nsec = 0\<rparr>) \<and>
     th_run (\<lambda>t. demo_os) m [Runs 2 Working, Runs 1 (Done (Ret (Code 0)) (Some 1))] m'"
proof -
  let ?e = "(1, Clock CLOCK_REALTIME \<lparr>tv_sec = 3, tv_nsec = 0\<rparr>)"
  have "map_option (\<lambda>(ls, m). (alive m, places m 1, \<exists>bs. places m 2 = AtStamp bs, length (tlog m), tlog m ! 3))
      (schedule (\<lambda>t. demo_os) shakes [1, 1, 1, 1, 1, 2, 2]) = Some (True, AtEnd 0, True, 9, ?e)"
    by (simp add: run_threads)
  then obtain ls m where s: "schedule (\<lambda>t. demo_os) shakes [1, 1, 1, 1, 1, 2, 2] = Some (ls, m)"
    and "(alive m, places m 1, \<exists>bs. places m 2 = AtStamp bs, length (tlog m), tlog m ! 3) = (True, AtEnd 0, True, 9, ?e)"
    by (rule schedule_facts)
  then obtain bs where m: "alive m" "places m 1 = AtEnd 0" "places m 2 = AtStamp bs" "length (tlog m) = 9" "tlog m ! 3 = ?e"
    by auto
  have "\<exists>m'. th_run (\<lambda>t. demo_os) m [Runs 2 Working, Runs 1 (Done (Ret (Code 0)) (Some 1))] m'"
    using cost_time_crosses_threads [of m 1 2 0 bs _ "\<lambda>t. demo_os", OF m(1) _ m(2,3) refl refl] m(4)
    by (simp add: flat_def timespec_secs_def)
  then show ?thesis using sequence_run [OF s] m by blast
qed

text \<open>
  Remark (ended_thread_leaves_its_socket). A thread that has made a handshake and ends leaves its socket open for as
  long as the process lives: nothing any thread does afterwards closes it.
\<close>

lemma ended_stays:
  assumes "th_run env m ls m'" and "places m t = Ended"
  shows "places m' t = Ended \<and> ctxs m' t = ctxs m t"
  using assms
proof induction
  case (th_snoc m ls m' l m'')
  from th_snoc(2) show ?case
  proof cases
    case (runs u rep p s h)
    with th_snoc show ?thesis by (cases "u = t") (auto simp: commit_def)
  qed (use th_snoc in auto)
qed simp

theorem ended_thread_leaves_its_socket:
  assumes "th_run env threads_start ls m" and "\<And>t. fresh_sockets (env t)"
    and "places m t = Ended" and "sk_fd (ctxs m t) \<noteq> -1" and "th_run env m ls' m'"
  shows "fd_balance (flat m') (sk_fd (ctxs m t)) = 1"
proof -
  have "sockets_ok m'" using sockets_ok_run [OF th_trans [OF assms(1,5)]] assms(2) by blast
  moreover have "sk_fd (ctxs m t) \<in> thread_fds m' t"
    using ended_stays [OF assms(5,3)] assms(4) by (simp add: thread_fds_def fds_def)
  ultimately have "owners Map.empty (tlog m') (sk_fd (ctxs m t)) = Some t" by (simp add: sockets_ok_def holds_def)
  with \<open>sockets_ok m'\<close> show ?thesis by (simp add: sockets_ok_balance held_def)
qed

theorem ended_thread_leaves_its_socket_witness:
  "\<exists>ls m. th_run (\<lambda>t. demo_os) threads_start ls m \<and> places m 1 = Ended \<and> fd_balance (flat m) 3 = 1"
proof -
  have "map_option (\<lambda>(ls, m). (alive m, places m 1, sk_fd (ctxs m 1))) (schedule (\<lambda>t. demo_os) shakes [1, 1, 1, 1, 1, 1]) =
      Some (True, Outside, 3)"
    by (simp add: run_threads)
  then obtain ls m where s: "schedule (\<lambda>t. demo_os) shakes [1, 1, 1, 1, 1, 1] = Some (ls, m)"
    and "(alive m, places m 1, sk_fd (ctxs m 1)) = (True, Outside, 3)"
    by (rule schedule_facts)
  then have m: "alive m" "places m 1 = Outside" "sk_fd (ctxs m 1) = 3" by simp_all
  let ?m = "m\<lparr>places := (places m)(1 := Ended)\<rparr>"
  note run = th_trans [OF sequence_run [OF s] th_one [OF ends [OF m(1,2)]]]
  have "fd_balance (flat ?m) (sk_fd (ctxs ?m 1)) = 1"
    by (rule ended_thread_leaves_its_socket [OF run fresh_demo_os _ _ th_refl]) (simp_all add: m del: One_nat_def)
  then show ?thesis using run m by (intro exI conjI) (auto simp del: One_nat_def)
qed

end
