(* ===== verification/Capture_Bpf.thy ===== *)
theory Capture_Bpf
  imports Prelude
begin

text \<open>
  The kernel side of the capture program, \<^verbatim>\<open>capture/src/capture.bpf.c\<close>: three probes that share two hash
  maps and an event channel. A run is a sequence of probe hits. The second half of the theory splits the
  sending probe at its accesses to shared maps and lets the probes of several CPUs interleave.
\<close>

section \<open>Hash maps of bounded size\<close>

text \<open>
  The interface of a BPF hash map as the probes use it: look-up, and update with \<^verbatim>\<open>BPF_ANY\<close>, which replaces
  the value of a present key, inserts a new one while there is room and fails otherwise.
\<close>

locale bpf_hash =
  fixes lookup :: "'m \<Rightarrow> 'k \<Rightarrow> 'v option"
    and update :: "'k \<Rightarrow> 'v \<Rightarrow> 'm \<Rightarrow> 'm"
    and full :: "'m \<Rightarrow> bool"
  assumes update_same: "lookup m k \<noteq> None \<or> \<not> full m \<Longrightarrow> lookup (update k v m) k = Some v"
    and update_other: "k' \<noteq> k \<Longrightarrow> lookup (update k v m) k' = lookup m k'"
    and update_full: "full m \<Longrightarrow> lookup m k = None \<Longrightarrow> update k v m = m"
    and update_present: "lookup m k \<noteq> None \<Longrightarrow> full (update k v m) = full m"
begin

lemma lookup_update:
  "lookup (update k v m) k' =
     (if k' = k \<and> (lookup m k \<noteq> None \<or> \<not> full m) then Some v else lookup m k')"
proof (cases "k' = k")
  case True
  then show ?thesis using update_same [of m k v] update_full [of m k v] by (cases "lookup m k \<noteq> None \<or> \<not> full m") auto
next
  case False
  then show ?thesis by (simp add: update_other)
qed

lemma lookup_mono: "lookup m k \<noteq> None \<Longrightarrow> lookup (update k' v m) k \<noteq> None"
  by (simp add: lookup_update)

lemma full_mono: "full m \<Longrightarrow> full (update k v m)"
  using update_full [of m k v] update_present [of m k v] by (cases "lookup m k = None") auto

lemma full_absent: "full m \<Longrightarrow> lookup m k = None \<Longrightarrow> lookup (update k' v m) k = None"
  using update_full [of m k' v] by (cases "k' = k") (auto simp: lookup_update)

end

definition max_entries :: nat where
  "max_entries = 10240"

type_synonym ('k, 'v) bpf_map = "('k \<times> 'v) list"

fun replace_entry :: "'k \<Rightarrow> 'v \<Rightarrow> ('k, 'v) bpf_map \<Rightarrow> ('k, 'v) bpf_map" where
  "replace_entry k v [] = []"
| "replace_entry k v ((k', w) # m) = (if k' = k then (k, v) # m else (k', w) # replace_entry k v m)"

definition bpf_map_lookup_elem :: "('k, 'v) bpf_map \<Rightarrow> 'k \<Rightarrow> 'v option" where
  "bpf_map_lookup_elem m k = map_of m k"

definition bpf_map_update_elem :: "'k \<Rightarrow> 'v \<Rightarrow> ('k, 'v) bpf_map \<Rightarrow> ('k, 'v) bpf_map" where
  "bpf_map_update_elem k v m =
     (if map_of m k \<noteq> None then replace_entry k v m else if length m < max_entries then m @ [(k, v)] else m)"

definition map_full :: "('k, 'v) bpf_map \<Rightarrow> bool" where
  "map_full m \<longleftrightarrow> max_entries \<le> length m"

lemma length_replace_entry [simp]: "length (replace_entry k v m) = length m"
  by (induction k v m rule: replace_entry.induct) auto

lemma map_of_replace_entry: "map_of m k \<noteq> None \<Longrightarrow> map_of (replace_entry k v m) = (map_of m)(k \<mapsto> v)"
  by (induction k v m rule: replace_entry.induct) (auto simp: fun_eq_iff)

interpretation ht: bpf_hash bpf_map_lookup_elem bpf_map_update_elem map_full
  by unfold_locales
    (auto simp: bpf_map_lookup_elem_def bpf_map_update_elem_def map_full_def map_of_replace_entry map_add_def
      split: option.splits)

section \<open>State and probes\<close>

record sock_info =
  si_saddr :: u32
  si_daddr :: u32
  si_sport :: u16
  si_dport :: u16
  si_pid :: u32

record tcp_connect_event =
  ev_saddr :: u32
  ev_daddr :: u32
  ev_sport :: u16
  ev_dport :: u16
  ev_pid :: u32
  ev_timestamp :: u64

record bpf_maps =
  conn_track_map :: "(u64, u32) bpf_map"
  sock_info_map :: "(u64, sock_info) bpf_map"

definition no_maps :: bpf_maps where
  "no_maps = \<lparr>conn_track_map = [], sock_info_map = []\<rparr>"

text \<open>
  What a probe reads of the kernel: the fields of the socket (\<open>None\<close> when \<^verbatim>\<open>bpf_probe_read_kernel\<close> fails,
  which clears the destination), the thread identity and the clock, and whether the event channel takes the
  record (\<^verbatim>\<open>bpf_perf_event_output\<close> drops it when the ring is full).
\<close>

record sock_fields =
  skc_family :: "u16 option"
  skc_rcv_saddr :: "u32 option"
  skc_daddr :: "u32 option"
  skc_num :: "u16 option"
  skc_dport :: "u16 option"

record probe_env =
  pid_tgid :: u64
  ktime_ns :: u64
  ring_ok :: bool

definition read_kernel :: "('a :: len) word option \<Rightarrow> 'a word" where
  "read_kernel r = (case r of None \<Rightarrow> 0 | Some v \<Rightarrow> v)"

definition AF_INET :: u16 where "AF_INET = 2"

definition tgid :: "probe_env \<Rightarrow> u32" where
  "tgid e = ucast (drop_bit 32 (pid_tgid e))"

definition kprobe_tcp_v4_connect :: "u64 \<Rightarrow> bpf_maps \<Rightarrow> bpf_maps" where
  "kprobe_tcp_v4_connect sk s = s\<lparr>conn_track_map := bpf_map_update_elem sk 1 (conn_track_map s)\<rparr>"

text \<open>The return probe only logs.\<close>

definition kretprobe_tcp_v4_connect :: "int \<Rightarrow> bpf_maps \<Rightarrow> bpf_maps" where
  "kretprobe_tcp_v4_connect ret s = s"

definition read_sock_info :: "probe_env \<Rightarrow> sock_fields \<Rightarrow> sock_info" where
  "read_sock_info e f =
     \<lparr>si_saddr = read_kernel (skc_rcv_saddr f), si_daddr = read_kernel (skc_daddr f),
      si_sport = read_kernel (skc_num f), si_dport = htons (read_kernel (skc_dport f)), si_pid = tgid e\<rparr>"

definition make_event :: "probe_env \<Rightarrow> sock_info \<Rightarrow> tcp_connect_event" where
  "make_event e i =
     \<lparr>ev_saddr = si_saddr i, ev_daddr = si_daddr i, ev_sport = si_sport i, ev_dport = si_dport i,
      ev_pid = si_pid i, ev_timestamp = ktime_ns e\<rparr>"

definition kprobe_tcp_sendmsg ::
  "probe_env \<Rightarrow> u64 \<Rightarrow> sock_fields \<Rightarrow> bpf_maps \<Rightarrow> bpf_maps \<times> tcp_connect_event list"
where
  "kprobe_tcp_sendmsg e sk f s =
     (case bpf_map_lookup_elem (conn_track_map s) sk of
        None \<Rightarrow> (s, [])
      | Some st \<Rightarrow>
          if st \<noteq> 1 then (s, [])
          else if read_kernel (skc_family f) \<noteq> AF_INET then (s, [])
          else
            let info = read_sock_info e f;
                s1 = s\<lparr>sock_info_map := bpf_map_update_elem sk info (sock_info_map s)\<rparr>;
                ev = make_event e info
            in (s1\<lparr>conn_track_map := bpf_map_update_elem sk 2 (conn_track_map s1)\<rparr>, if ring_ok e then [ev] else []))"

datatype probe_hit =
    Connect u64
  | ConnectRet int
  | Sendmsg probe_env u64 sock_fields

text \<open>A run collects the events, each with the socket whose probe sent it.\<close>

fun hit :: "probe_hit \<Rightarrow> bpf_maps \<Rightarrow> bpf_maps \<times> (u64 \<times> tcp_connect_event) list" where
  "hit (Connect sk) s = (kprobe_tcp_v4_connect sk s, [])"
| "hit (ConnectRet r) s = (kretprobe_tcp_v4_connect r s, [])"
| "hit (Sendmsg e sk f) s = (let (s', es) = kprobe_tcp_sendmsg e sk f s in (s', map (Pair sk) es))"

fun hits :: "probe_hit list \<Rightarrow> bpf_maps \<Rightarrow> bpf_maps \<times> (u64 \<times> tcp_connect_event) list" where
  "hits [] s = (s, [])"
| "hits (p # ps) s = (let (s', es) = hit p s; (s'', es') = hits ps s' in (s'', es @ es'))"

abbreviation conn_state :: "bpf_maps \<Rightarrow> u64 \<Rightarrow> u32 option" where
  "conn_state s sk \<equiv> bpf_map_lookup_elem (conn_track_map s) sk"

lemma sendmsg_cases:
  "kprobe_tcp_sendmsg e sk f s =
     (if conn_state s sk = Some 1 \<and> read_kernel (skc_family f) = AF_INET
      then (\<lparr>conn_track_map = bpf_map_update_elem sk 2 (conn_track_map s),
             sock_info_map = bpf_map_update_elem sk (read_sock_info e f) (sock_info_map s)\<rparr>,
            if ring_ok e then [make_event e (read_sock_info e f)] else [])
      else (s, []))"
  by (auto simp: kprobe_tcp_sendmsg_def Let_def split: option.splits)

section \<open>One event per connection\<close>

definition events_of :: "u64 \<Rightarrow> (u64 \<times> tcp_connect_event) list \<Rightarrow> tcp_connect_event list" where
  "events_of sk es = map snd (filter (\<lambda>(k, ev). k = sk) es)"

definition connects :: "u64 \<Rightarrow> probe_hit list \<Rightarrow> nat" where
  "connects sk ps = length (filter (\<lambda>p. p = Connect sk) ps)"

definition pending :: "bpf_maps \<Rightarrow> u64 \<Rightarrow> nat" where
  "pending s sk = (if conn_state s sk = Some 1 then 1 else 0)"

lemma events_of_simps [simp]:
  "events_of sk [] = []" "events_of sk (es @ es') = events_of sk es @ events_of sk es'"
  "events_of sk ((k, ev) # es) = (if k = sk then ev # events_of sk es else events_of sk es)"
  by (simp_all add: events_of_def)

lemma hit_budget:
  assumes "hit p s = (s', es)"
  shows "length (events_of sk es) + pending s' sk \<le> pending s sk + (if p = Connect sk then 1 else 0)"
proof (cases p)
  case (Connect k)
  then show ?thesis using assms by (auto simp: kprobe_tcp_v4_connect_def pending_def ht.lookup_update)
next
  case (ConnectRet r)
  then show ?thesis using assms by (simp add: kretprobe_tcp_v4_connect_def)
next
  case (Sendmsg e k f)
  then show ?thesis using assms
    by (auto simp: sendmsg_cases pending_def ht.lookup_update split: if_splits prod.splits)
qed

lemma hits_budget:
  "length (events_of sk (snd (hits ps s))) + pending (fst (hits ps s)) sk \<le> pending s sk + connects sk ps"
proof (induction ps arbitrary: s)
  case Nil
  show ?case by (simp add: connects_def)
next
  case (Cons p ps)
  obtain s1 es where 1: "hit p s = (s1, es)" by fastforce
  obtain s2 es2 where 2: "hits ps s1 = (s2, es2)" by fastforce
  have "connects sk (p # ps) = (if p = Connect sk then 1 else 0) + connects sk ps" by (simp add: connects_def)
  then show ?case using hit_budget [OF 1, of sk] Cons.IH [of s1] 1 2 by simp
qed

text \<open>
  Property C19 (one_event_per_connect). Over any sequence of probe hits, from any state of the maps, the
  number of events sent for a socket, plus one if the socket is still waiting for its first data, is at most
  the number of connect calls on it, plus one if it was waiting at the start. From
  empty maps no socket is ever reported more often than it was connected.
\<close>

theorem one_event_per_connect:
  "length (events_of sk (snd (hits ps s))) + pending (fst (hits ps s)) sk \<le> pending s sk + connects sk ps"
  by (rule hits_budget)

lemma event_content:
  assumes "(sk, ev) \<in> set (snd (hits ps s))"
  shows "\<exists>e f. Sendmsg e sk f \<in> set ps \<and> ring_ok e \<and> skc_family f = Some 2 \<and>
           ev = \<lparr>ev_saddr = read_kernel (skc_rcv_saddr f), ev_daddr = read_kernel (skc_daddr f),
                 ev_sport = read_kernel (skc_num f), ev_dport = htons (read_kernel (skc_dport f)),
                 ev_pid = tgid e, ev_timestamp = ktime_ns e\<rparr>"
  using assms
proof (induction ps arbitrary: s)
  case Nil
  then show ?case by simp
next
  case (Cons p ps)
  obtain s1 es where 1: "hit p s = (s1, es)" by fastforce
  obtain s2 es2 where 2: "hits ps s1 = (s2, es2)" by fastforce
  have fam: "read_kernel x = AF_INET \<Longrightarrow> x = Some 2" for x by (auto simp: read_kernel_def AF_INET_def split: option.splits)
  from Cons.prems 1 2 consider "(sk, ev) \<in> set es" | "(sk, ev) \<in> set (snd (hits ps s1))" by auto
  then show ?case
  proof cases
    case 1
    then show ?thesis using \<open>hit p s = (s1, es)\<close>
      by (cases p) (fastforce simp: sendmsg_cases make_event_def read_sock_info_def split: if_splits prod.splits dest: fam)+
  next
    case 2
    then show ?thesis using Cons.IH by fastforce
  qed
qed

text \<open>
  Remark (event_describes_ipv4_socket). Every event carries the four-tuple of the socket whose send
  triggered it, with the remote port converted to host order and the local port as the kernel keeps it,
  the process identifier and the clock of that send; the socket is IPv4 and all its fields could be read or
  are reported as 0.
\<close>

theorem event_describes_ipv4_socket:
  assumes "(sk, ev) \<in> set (snd (hits ps s))"
  shows "\<exists>e f. Sendmsg e sk f \<in> set ps \<and> ring_ok e \<and> skc_family f = Some 2 \<and>
           ev = \<lparr>ev_saddr = read_kernel (skc_rcv_saddr f), ev_daddr = read_kernel (skc_daddr f),
                 ev_sport = read_kernel (skc_num f), ev_dport = htons (read_kernel (skc_dport f)),
                 ev_pid = tgid e, ev_timestamp = ktime_ns e\<rparr>"
  using assms by (rule event_content)

definition demo_fields :: sock_fields where
  "demo_fields = \<lparr>skc_family = Some 2, skc_rcv_saddr = Some 10, skc_daddr = Some 20, skc_num = Some 40000, skc_dport = Some 0xBB01\<rparr>"

definition demo_env :: probe_env where
  "demo_env = \<lparr>pid_tgid = 0x700000007, ktime_ns = 1000, ring_ok = True\<rparr>"

lemma demo_event:
  "(9, make_event demo_env (read_sock_info demo_env demo_fields)) \<in> set (snd (hits [Connect 9, Sendmsg demo_env 9 demo_fields] no_maps))"
  by (simp add: kprobe_tcp_v4_connect_def no_maps_def bpf_map_update_elem_def max_entries_def sendmsg_cases
      bpf_map_lookup_elem_def demo_fields_def demo_env_def read_kernel_def AF_INET_def)

theorem event_describes_ipv4_socket_witness:
  "\<exists>ev e f. (9, ev) \<in> set (snd (hits [Connect 9, Sendmsg demo_env 9 demo_fields] no_maps)) \<and>
     Sendmsg e 9 f \<in> set [Connect 9, Sendmsg demo_env 9 demo_fields] \<and> ev_daddr ev = read_kernel (skc_daddr f)"
  using event_describes_ipv4_socket [OF demo_event] demo_event by (metis tcp_connect_event.select_convs(2))

section \<open>No connection is missed while there is room\<close>

fun touches :: "u64 \<Rightarrow> probe_hit \<Rightarrow> bool" where
  "touches sk (Connect k) \<longleftrightarrow> k = sk"
| "touches sk (ConnectRet r) \<longleftrightarrow> False"
| "touches sk (Sendmsg e k f) \<longleftrightarrow> k = sk"

lemma hits_append:
  "hits (ps @ qs) s = (let (s1, es) = hits ps s; (s2, es') = hits qs s1 in (s2, es @ es'))"
  by (induction ps arbitrary: s) (auto simp: Let_def split: prod.splits)

lemma hit_other:
  "\<not> touches sk p \<Longrightarrow> hit p s = (s', es) \<Longrightarrow> conn_state s' sk = conn_state s sk \<and> events_of sk es = []"
  by (cases p) (auto simp: kprobe_tcp_v4_connect_def kretprobe_tcp_v4_connect_def sendmsg_cases ht.update_other split: if_splits prod.splits)

lemma hits_other:
  "list_all (\<lambda>p. \<not> touches sk p) ps \<Longrightarrow> hits ps s = (s', es) \<Longrightarrow> conn_state s' sk = conn_state s sk \<and> events_of sk es = []"
proof (induction ps arbitrary: s s' es)
  case (Cons p ps)
  obtain s1 es1 where 1: "hit p s = (s1, es1)" by fastforce
  obtain s2 es2 where 2: "hits ps s1 = (s2, es2)" by fastforce
  show ?case using Cons.prems Cons.IH [OF _ 2] hit_other [OF _ 1] 1 2 by auto
qed simp

text \<open>
  Property C20 (connection_is_captured). If the tracking map has room for a socket (or knows it already), then
  a connect, any activity on other sockets, and the first send of the connection over IPv4 produce, if the event ring takes it,
  exactly one event for the socket: its source and destination addresses, its local port, its remote port in host
  order, the process identifier and the clock of the send (a field that cannot be read counts as 0). Afterwards the socket is
  marked as handled.
\<close>

theorem connection_is_captured:
  assumes "conn_state s sk \<noteq> None \<or> \<not> map_full (conn_track_map s)"
    and "list_all (\<lambda>p. \<not> touches sk p) ps"
    and "skc_family f = Some AF_INET" and "ring_ok e"
    and "hits ([Connect sk] @ ps @ [Sendmsg e sk f]) s = (s', es)"
  shows "events_of sk es =
           [\<lparr>ev_saddr = read_kernel (skc_rcv_saddr f), ev_daddr = read_kernel (skc_daddr f),
             ev_sport = read_kernel (skc_num f), ev_dport = htons (read_kernel (skc_dport f)),
             ev_pid = ucast (drop_bit 32 (pid_tgid e)), ev_timestamp = ktime_ns e\<rparr>] \<and>
         conn_state s' sk = Some 2"
proof -
  let ?s0 = "kprobe_tcp_v4_connect sk s"
  obtain s1 es1 where 1: "hits ps ?s0 = (s1, es1)" by fastforce
  have "conn_state ?s0 sk = Some 1"
    using assms(1) by (simp add: kprobe_tcp_v4_connect_def ht.update_same)
  then have st: "conn_state s1 sk = Some 1" and e1: "events_of sk es1 = []" using hits_other [OF assms(2) 1] by simp_all
  have "s' = fst (kprobe_tcp_sendmsg e sk f s1)" "es = es1 @ map (Pair sk) (snd (kprobe_tcp_sendmsg e sk f s1))"
    using assms(5) 1 by (auto simp: hits_append split: prod.splits)
  then show ?thesis
    using st e1 assms(3,4)
    by (simp add: sendmsg_cases read_kernel_def ht.lookup_update make_event_def read_sock_info_def tgid_def)
qed

theorem connection_is_captured_witness:
  "\<exists>s' es. hits [Connect 9, Connect 8, Sendmsg demo_env 9 demo_fields] no_maps = (s', es) \<and>
     events_of 9 es = [\<lparr>ev_saddr = 10, ev_daddr = 20, ev_sport = 40000, ev_dport = 443, ev_pid = 7, ev_timestamp = 1000\<rparr>]"
proof -
  obtain s' es where h: "hits ([Connect 9] @ [Connect 8] @ [Sendmsg demo_env 9 demo_fields]) no_maps = (s', es)" by fastforce
  have "conn_state no_maps 9 \<noteq> None \<or> \<not> map_full (conn_track_map no_maps)" "list_all (\<lambda>p. \<not> touches 9 p) [Connect 8]"
    "skc_family demo_fields = Some AF_INET" "ring_ok demo_env"
    by (simp_all add: no_maps_def map_full_def max_entries_def demo_fields_def demo_env_def AF_INET_def)
  note c = connection_is_captured [OF this h]
  have "htons 0xBB01 = 443" by (simp add: htons_def)
  moreover have "ucast (drop_bit 32 (0x700000007 :: u64)) = (7 :: u32)" by (simp add: drop_bit_eq_div)
  ultimately show ?thesis using c h by (simp add: demo_fields_def demo_env_def read_kernel_def)
qed

section \<open>A full map stops the capture\<close>

lemma hit_full:
  assumes "map_full (conn_track_map s)" and "conn_state s sk = None" and "hit p s = (s', es)"
  shows "map_full (conn_track_map s') \<and> conn_state s' sk = None \<and> events_of sk es = []"
  using assms
  by (cases p) (auto simp: kprobe_tcp_v4_connect_def kretprobe_tcp_v4_connect_def sendmsg_cases ht.full_mono ht.full_absent
      split: if_splits prod.splits)

lemma hits_full:
  "map_full (conn_track_map s) \<Longrightarrow> conn_state s sk = None \<Longrightarrow> hits ps s = (s', es) \<Longrightarrow> events_of sk es = []"
proof (induction ps arbitrary: s s' es)
  case (Cons p ps)
  obtain s1 es1 where 1: "hit p s = (s1, es1)" by fastforce
  obtain s2 es2 where 2: "hits ps s1 = (s2, es2)" by fastforce
  show ?case using Cons.prems Cons.IH [OF _ _ 2] hit_full [OF _ _ 1] 1 2 by auto
qed simp

text \<open>The sockets in the map are sockets that connected, and all of them while there is room.\<close>

definition tracks :: "u64 set \<Rightarrow> bpf_maps \<Rightarrow> bool" where
  "tracks C s \<longleftrightarrow>
     (\<forall>k. conn_state s k \<noteq> None \<longrightarrow> k \<in> C) \<and> (map_full (conn_track_map s) \<or> (\<forall>k \<in> C. conn_state s k \<noteq> None))"

definition connected_by :: "probe_hit list \<Rightarrow> u64 set" where
  "connected_by ps = {k. Connect k \<in> set ps}"

lemma hit_tracks:
  assumes "tracks C s" and "hit p s = (s', es)"
  shows "tracks (connected_by [p] \<union> C) s'"
proof (cases p)
  case (Connect k)
  then show ?thesis using assms ht.full_mono [of "conn_track_map s" k 1]
    by (auto simp: tracks_def connected_by_def kprobe_tcp_v4_connect_def ht.lookup_update split: if_splits)
next
  case (ConnectRet r)
  then show ?thesis using assms by (simp add: connected_by_def kretprobe_tcp_v4_connect_def)
next
  case (Sendmsg e k f)
  then show ?thesis using assms ht.full_mono [of "conn_track_map s" k 2]
    by (auto simp: tracks_def connected_by_def sendmsg_cases ht.lookup_update split: if_splits prod.splits)
qed

lemma hits_tracks: "tracks C s \<Longrightarrow> tracks (connected_by ps \<union> C) (fst (hits ps s))"
proof (induction ps arbitrary: C s)
  case (Cons p ps)
  obtain s1 es1 where 1: "hit p s = (s1, es1)" by fastforce
  obtain s2 es2 where 2: "hits ps s1 = (s2, es2)" by fastforce
  have "connected_by (p # ps) \<union> C = connected_by ps \<union> (connected_by [p] \<union> C)" by (auto simp: connected_by_def)
  then show ?case using Cons.IH [OF hit_tracks [OF Cons.prems 1]] 1 2 by simp
qed (simp add: connected_by_def)

lemma tracks_full:
  assumes "tracks C s" and "finite C" and "max_entries \<le> card C"
  shows "map_full (conn_track_map s)"
proof (rule ccontr)
  let ?K = "{k. conn_state s k \<noteq> None}"
  assume n: "\<not> map_full (conn_track_map s)"
  have "?K = dom (map_of (conn_track_map s))" by (simp add: bpf_map_lookup_elem_def dom_def)
  then have k: "?K = set (map fst (conn_track_map s))" by (simp add: dom_map_of_conv_image_fst)
  have "finite ?K" unfolding k by simp
  moreover have "C \<subseteq> ?K" using assms(1) n by (auto simp: tracks_def)
  ultimately have "card C \<le> card ?K" by (rule card_mono)
  also have "\<dots> \<le> length (conn_track_map s)" unfolding k using card_length [of "map fst (conn_track_map s)"] by simp
  finally show False using n assms(3) by (simp add: map_full_def)
qed

text \<open>
  Property C38 (full_map_stops_capture). Nothing is ever removed from the tracking map: in any run of the probes in which at least
  10240 different sockets have connected, with whatever sends and other hits in between, a socket that had not connected up to
  then is never reported, before or after, whatever it does.
\<close>

theorem full_map_stops_capture:
  assumes "10240 \<le> card {k. Connect k \<in> set ps}" and "Connect sk \<notin> set ps"
  shows "events_of sk (snd (hits (ps @ qs) no_maps)) = []"
proof -
  let ?C = "{k. Connect k \<in> set ps}"
  obtain s es where 1: "hits ps no_maps = (s, es)" by fastforce
  obtain s' es' where 2: "hits qs s = (s', es')" by fastforce
  have "finite (Connect -` set ps)" by (rule finite_vimageI) (auto intro: injI)
  then have fin: "finite ?C" by (simp add: vimage_def)
  have "tracks {} no_maps" by (simp add: tracks_def no_maps_def bpf_map_lookup_elem_def)
  then have t: "tracks ?C s" using hits_tracks [of "{}" no_maps ps] 1 by (simp add: connected_by_def)
  have "conn_state s sk = None" using t assms(2) by (auto simp: tracks_def)
  then have "events_of sk es' = []" using hits_full [OF tracks_full [OF t fin] _ 2] assms(1) by (simp add: max_entries_def)
  moreover have "connects sk ps = 0" using assms(2) by (auto simp: connects_def filter_empty_conv)
  then have "events_of sk es = []"
    using hits_budget [of sk ps no_maps] 1 by (simp add: pending_def no_maps_def bpf_map_lookup_elem_def)
  ultimately show ?thesis using 1 2 by (simp add: hits_append)
qed

text \<open>A run in which each of the 10240 sockets also sends before the next one connects.\<close>

definition busy_hits :: "probe_hit list" where
  "busy_hits = concat (map (\<lambda>i. [Connect (word_of_nat i), Sendmsg demo_env (word_of_nat i) demo_fields]) [0..<10240])"

theorem full_map_stops_capture_witness:
  "events_of 99999 (snd (hits (busy_hits @ [Connect 99999, Sendmsg demo_env 99999 demo_fields]) no_maps)) = []"
proof (rule full_map_stops_capture)
  have nat: "unat (word_of_nat i :: u64) = i" if "i < 10240" for i using that by (simp add: unat_of_nat)
  then have inj: "inj_on (word_of_nat :: nat \<Rightarrow> u64) {0..<10240}" by (intro inj_onI) (metis atLeastLessThan_iff)
  have c: "{k. Connect k \<in> set busy_hits} = word_of_nat ` {0..<10240 :: nat}"
    by (auto simp: busy_hits_def)
  show "10240 \<le> card {k. Connect k \<in> set busy_hits}" unfolding c by (simp add: card_image [OF inj])
  have "(99999 :: u64) \<noteq> word_of_nat i" if "i < 10240" for i
  proof
    assume "(99999 :: u64) = word_of_nat i"
    then have "unat (99999 :: u64) = i" using nat [OF that] by simp
    then show False using that by simp
  qed
  then show "Connect 99999 \<notin> set busy_hits" by (auto simp: busy_hits_def)
qed

section \<open>The maps agree\<close>

definition maps_ok :: "bpf_maps \<Rightarrow> bool" where
  "maps_ok s \<longleftrightarrow>
     distinct (map fst (conn_track_map s)) \<and> distinct (map fst (sock_info_map s)) \<and>
     length (conn_track_map s) \<le> max_entries \<and>
     fst ` set (sock_info_map s) \<subseteq> fst ` set (conn_track_map s) \<and>
     (\<forall>sk. conn_state s sk = Some 2 \<longrightarrow> bpf_map_lookup_elem (sock_info_map s) sk \<noteq> None)"

lemma keys_replace_entry [simp]: "map fst (replace_entry k v m) = map fst m"
  by (induction k v m rule: replace_entry.induct) auto

lemma keys_update:
  "map fst (bpf_map_update_elem k v m) =
     (if map_of m k \<noteq> None \<or> \<not> length m < max_entries then map fst m else map fst m @ [k])"
  by (simp add: bpf_map_update_elem_def)

lemma keys_update_present:
  "map_of m k \<noteq> None \<Longrightarrow> map fst (bpf_map_update_elem k v m) = map fst m"
  by (simp add: keys_update)

lemma map_of_None_keys: "map_of m k = None \<longleftrightarrow> k \<notin> set (map fst m)"
  by (simp add: map_of_eq_None_iff)

lemma maps_ok_connect: "maps_ok s \<Longrightarrow> maps_ok (kprobe_tcp_v4_connect sk s)"
proof -
  assume ok: "maps_ok s"
  let ?m = "conn_track_map s" and ?m' = "bpf_map_update_elem sk 1 (conn_track_map s)"
  have "distinct (map fst ?m')" "set (map fst ?m) \<subseteq> set (map fst ?m')"
    using ok map_of_None_keys [of ?m sk] by (auto simp: maps_ok_def keys_update)
  moreover have "length ?m' \<le> max_entries" using ok by (simp add: maps_ok_def bpf_map_update_elem_def)
  moreover have "conn_state s k = Some 2" if "bpf_map_lookup_elem ?m' k = Some 2" for k
    using that by (auto simp: ht.lookup_update split: if_splits)
  ultimately show ?thesis using ok by (simp add: maps_ok_def kprobe_tcp_v4_connect_def) (meson subset_trans)
qed

lemma maps_ok_room:
  assumes "maps_ok s" and "conn_state s sk \<noteq> None" and "map_of (sock_info_map s) sk = None"
  shows "length (sock_info_map s) < max_entries"
proof -
  let ?c = "fst ` set (conn_track_map s)" and ?i = "fst ` set (sock_info_map s)"
  have "sk \<in> ?c" "sk \<notin> ?i"
    using assms(2,3) by (auto simp: bpf_map_lookup_elem_def map_of_eq_None_iff domI dest: map_of_SomeD)
  then have "?i \<subset> ?c" using assms(1) by (auto simp: maps_ok_def)
  then have "card ?i < card ?c" by (simp add: psubset_card_mono)
  moreover have "card ?i = length (sock_info_map s)" "card ?c = length (conn_track_map s)"
    using assms(1) distinct_card [of "map fst (sock_info_map s)"] distinct_card [of "map fst (conn_track_map s)"]
    by (simp_all add: maps_ok_def)
  ultimately show ?thesis using assms(1) by (simp add: maps_ok_def)
qed

lemma maps_ok_capture:
  assumes "maps_ok s" and "conn_state s sk \<noteq> None"
  shows "maps_ok \<lparr>conn_track_map = bpf_map_update_elem sk 2 (conn_track_map s), sock_info_map = bpf_map_update_elem sk i (sock_info_map s)\<rparr>"
proof -
  let ?c = "conn_track_map s" and ?i = "sock_info_map s"
  have c: "map fst (bpf_map_update_elem sk 2 ?c) = map fst ?c"
    using assms(2) by (intro keys_update_present) (simp add: bpf_map_lookup_elem_def)
  have i: "map_of ?i sk \<noteq> None \<or> length ?i < max_entries" using maps_ok_room [OF assms] by blast
  then have i': "bpf_map_lookup_elem ?i sk \<noteq> None \<or> \<not> map_full ?i" by (auto simp: bpf_map_lookup_elem_def map_full_def)
  from i have iset: "set (map fst (bpf_map_update_elem sk i ?i)) = insert sk (set (map fst ?i))"
    and idist: "distinct (map fst (bpf_map_update_elem sk i ?i))"
    using assms(1) map_of_None_keys [of ?i sk] by (auto simp: keys_update maps_ok_def)
  have "sk \<in> set (map fst ?c)" using assms(2) map_of_None_keys [of ?c sk] by (simp add: bpf_map_lookup_elem_def)
  moreover have "length (bpf_map_update_elem sk 2 ?c) = length ?c" by (metis c length_map)
  moreover have "bpf_map_lookup_elem (bpf_map_update_elem sk i ?i) k \<noteq> None"
    if "bpf_map_lookup_elem (bpf_map_update_elem sk 2 ?c) k = Some 2" for k
    using that assms(1) i' by (auto simp: ht.lookup_update maps_ok_def split: if_splits)
  ultimately show ?thesis using assms(1) c iset idist unfolding maps_ok_def by (simp flip: set_map)
qed

interpretation bpf: invariant_steps "\<lambda>p s. Some (fst (hit p s))" maps_ok
proof
  fix s p s' assume "maps_ok s" and "Some (fst (hit p s)) = Some s'"
  then show "maps_ok s'"
    by (cases p) (auto simp: maps_ok_connect kretprobe_tcp_v4_connect_def sendmsg_cases intro: maps_ok_capture split: prod.splits if_splits)
qed

lemma run_steps_hits: "run_steps (\<lambda>p s. Some (fst (hit p s))) ps s = Some (fst (hits ps s))"
  by (induction ps arbitrary: s) (auto split: prod.splits)

text \<open>
  Property C16 (captured_sockets_are_described). In every state the probes can reach, both maps hold each key
  once and at most 10240 of them, and every socket marked as handled has its four-tuple in the
  socket map: the second map never runs out of room before the first.
\<close>

theorem captured_sockets_are_described:
  "let s = fst (hits ps no_maps) in
         distinct (map fst (conn_track_map s)) \<and> distinct (map fst (sock_info_map s)) \<and>
         length (sock_info_map s) \<le> length (conn_track_map s) \<and> length (conn_track_map s) \<le> 10240 \<and>
         {sk. conn_state s sk = Some 2} \<subseteq> {sk. bpf_map_lookup_elem (sock_info_map s) sk \<noteq> None}"
proof -
  define s where "s = fst (hits ps no_maps)"
  have "maps_ok no_maps" by (simp add: maps_ok_def no_maps_def bpf_map_lookup_elem_def)
  then have ok: "maps_ok s" using bpf.run_inv [OF _ run_steps_hits] unfolding s_def by blast
  then have "card (set (map fst (sock_info_map s))) \<le> card (set (map fst (conn_track_map s)))"
    by (intro card_mono) (auto simp: maps_ok_def)
  then show ?thesis unfolding s_def [symmetric] Let_def using ok by (auto simp: maps_ok_def max_entries_def distinct_card simp del: set_map)
qed

end
