(* ===== verification/Capture_Smp.thy ===== *)
theory Capture_Smp
  imports Capture_Bpf
begin

text \<open>
  The probes of \<^verbatim>\<open>capture/src/capture.bpf.c\<close> on several CPUs. Each access to a shared map is atomic, but the
  sending probe makes several: it reads the connection state, later writes the socket description and sends the
  event, and last writes the state. Here every CPU is a small program with that control flow, and the
  steps of the CPUs interleave freely.
\<close>

section \<open>Interleaving semantics\<close>

datatype cpu = Idle | Checked probe_env u64 sock_fields | Emitted u64

record smp =
  smp_maps :: bpf_maps
  cpus :: "nat \<Rightarrow> cpu"

datatype act = AConnect u64 | AEvent u64 tcp_connect_event | ATau

definition fresh_ipv4 :: "bpf_maps \<Rightarrow> u64 \<Rightarrow> sock_fields \<Rightarrow> bool" where
  "fresh_ipv4 s sk f \<longleftrightarrow> conn_state s sk = Some 1 \<and> read_kernel (skc_family f) = AF_INET"

definition note_info :: "probe_env \<Rightarrow> u64 \<Rightarrow> sock_fields \<Rightarrow> bpf_maps \<Rightarrow> bpf_maps" where
  "note_info e sk f s = s\<lparr>sock_info_map := bpf_map_update_elem sk (read_sock_info e f) (sock_info_map s)\<rparr>"

definition mark_handled :: "u64 \<Rightarrow> bpf_maps \<Rightarrow> bpf_maps" where
  "mark_handled sk s = s\<lparr>conn_track_map := bpf_map_update_elem sk 2 (conn_track_map s)\<rparr>"

inductive smp_step :: "smp \<Rightarrow> act \<Rightarrow> smp \<Rightarrow> bool" where
  connect: "cpus m c = Idle \<Longrightarrow> smp_step m (AConnect sk) (m\<lparr>smp_maps := kprobe_tcp_v4_connect sk (smp_maps m)\<rparr>)"
| ignore: "cpus m c = Idle \<Longrightarrow> \<not> fresh_ipv4 (smp_maps m) sk f \<Longrightarrow> smp_step m ATau m"
| check: "cpus m c = Idle \<Longrightarrow> fresh_ipv4 (smp_maps m) sk f \<Longrightarrow>
    smp_step m ATau (m\<lparr>cpus := (cpus m)(c := Checked e sk f)\<rparr>)"
| emit: "cpus m c = Checked e sk f \<Longrightarrow> ring_ok e \<Longrightarrow>
    smp_step m (AEvent sk (make_event e (read_sock_info e f)))
      (m\<lparr>smp_maps := note_info e sk f (smp_maps m), cpus := (cpus m)(c := Emitted sk)\<rparr>)"
| lost: "cpus m c = Checked e sk f \<Longrightarrow> \<not> ring_ok e \<Longrightarrow>
    smp_step m ATau (m\<lparr>smp_maps := note_info e sk f (smp_maps m), cpus := (cpus m)(c := Emitted sk)\<rparr>)"
| mark: "cpus m c = Emitted sk \<Longrightarrow>
    smp_step m ATau (m\<lparr>smp_maps := mark_handled sk (smp_maps m), cpus := (cpus m)(c := Idle)\<rparr>)"

inductive smp_run :: "smp \<Rightarrow> act list \<Rightarrow> smp \<Rightarrow> bool" where
  smp_refl: "smp_run m [] m"
| smp_snoc: "smp_run m as m' \<Longrightarrow> smp_step m' a m'' \<Longrightarrow> smp_run m (as @ [a]) m''"

definition smp_start :: smp where
  "smp_start = \<lparr>smp_maps = no_maps, cpus = (\<lambda>c. Idle)\<rparr>"

fun act_events :: "act list \<Rightarrow> (u64 \<times> tcp_connect_event) list" where
  "act_events [] = []"
| "act_events (AEvent sk ev # as) = (sk, ev) # act_events as"
| "act_events (_ # as) = act_events as"

lemma smp_run_one: "smp_step m a m' \<Longrightarrow> smp_run m [a] m'"
  using smp_snoc [OF smp_refl] by force

lemma smp_run_trans: "smp_run m as m' \<Longrightarrow> smp_run m' bs m'' \<Longrightarrow> smp_run m (as @ bs) m''"
proof (rotate_tac, induction m' bs m'' rule: smp_run.induct)
  case (smp_snoc m1 bs m2 a m3)
  then show ?case using smp_run.smp_snoc [of m "as @ bs" m2 a m3] by simp
qed simp

section \<open>An undisturbed probe is atomic\<close>

lemma smp_update_self [simp]: "cpus m c = x \<Longrightarrow> m\<lparr>smp_maps := s, cpus := (cpus m)(c := x)\<rparr> = m\<lparr>smp_maps := s\<rparr>"
  by (auto simp: fun_upd_idem)

text \<open>
  Remark (undisturbed_probe_is_atomic). A CPU that runs the sending probe without interference takes its
  maps exactly to the result of the probe as one function, with the same events: the
  interleaving model refines the sequential one.
\<close>

theorem undisturbed_probe_is_atomic:
  assumes "cpus m c = Idle" and "kprobe_tcp_sendmsg e sk f (smp_maps m) = (s', es)"
  shows "\<exists>as. smp_run m as (m\<lparr>smp_maps := s'\<rparr>) \<and> act_events as = map (Pair sk) es"
proof (cases "fresh_ipv4 (smp_maps m) sk f")
  case False
  then have "s' = smp_maps m" "es = []" using assms(2) by (auto simp: sendmsg_cases fresh_ipv4_def split: if_splits)
  then show ?thesis using smp_refl [of m] by (intro exI [of _ "[]"]) simp
next
  case True
  then have s': "s' = mark_handled sk (note_info e sk f (smp_maps m))" and es: "es = (if ring_ok e then [make_event e (read_sock_info e f)] else [])"
    using assms(2) by (auto simp: sendmsg_cases fresh_ipv4_def mark_handled_def note_info_def split: if_splits)
  define m1 where "m1 = m\<lparr>cpus := (cpus m)(c := Checked e sk f)\<rparr>"
  define m2 where "m2 = m1\<lparr>smp_maps := note_info e sk f (smp_maps m1), cpus := (cpus m1)(c := Emitted sk)\<rparr>"
  let ?a = "if ring_ok e then AEvent sk (make_event e (read_sock_info e f)) else ATau"
  have 1: "smp_step m ATau m1" unfolding m1_def using assms(1) True by (rule check)
  have 2: "smp_step m1 ?a m2"
    using emit [of m1 c e sk f] lost [of m1 c e sk f] by (simp add: m1_def m2_def)
  have "smp_step m2 ATau (m2\<lparr>smp_maps := mark_handled sk (smp_maps m2), cpus := (cpus m2)(c := Idle)\<rparr>)"
    by (rule mark) (simp add: m2_def)
  moreover have "m2\<lparr>smp_maps := mark_handled sk (smp_maps m2), cpus := (cpus m2)(c := Idle)\<rparr> = m\<lparr>smp_maps := s'\<rparr>"
    using assms(1) by (simp add: m1_def m2_def s' fun_upd_idem)
  ultimately have "smp_run m ([ATau] @ [?a] @ [ATau]) (m\<lparr>smp_maps := s'\<rparr>)"
    using smp_run_one [OF 1] smp_run_one [OF 2] smp_run_one smp_run_trans by metis
  then show ?thesis using es by (intro exI [of _ "[ATau] @ [?a] @ [ATau]"]) simp
qed

theorem undisturbed_probe_is_atomic_witness:
  "\<exists>as. smp_run smp_start as smp_start \<and> act_events as = []"
  using undisturbed_probe_is_atomic [of smp_start 0 demo_env 9 demo_fields no_maps "[]"]
  by (auto simp: smp_start_def kprobe_tcp_sendmsg_def no_maps_def bpf_map_lookup_elem_def)

section \<open>What survives every interleaving, and what does not\<close>

fun cpu_socket :: "cpu \<Rightarrow> u64 set" where
  "cpu_socket Idle = {}"
| "cpu_socket (Checked e sk f) = {sk}"
| "cpu_socket (Emitted sk) = {sk}"

definition only_connected :: "u64 set \<Rightarrow> smp \<Rightarrow> bool" where
  "only_connected K m \<longleftrightarrow>
     {sk. conn_state (smp_maps m) sk \<noteq> None} \<subseteq> K \<and> (\<Union>c. cpu_socket (cpus m c)) \<subseteq> K"

fun act_connect :: "act \<Rightarrow> u64 set" where
  "act_connect (AConnect sk) = {sk}"
| "act_connect _ = {}"

fun act_report :: "act \<Rightarrow> u64 set" where
  "act_report (AEvent sk ev) = {sk}"
| "act_report _ = {}"

lemma cpu_sockets_upd:
  "(\<Union>c. cpu_socket (cpus m c)) \<subseteq> K \<Longrightarrow> cpu_socket x \<subseteq> K \<Longrightarrow> (\<Union>d. cpu_socket (((cpus m)(c := x)) d)) \<subseteq> K"
  by (simp add: UN_subset_iff)

lemma cpu_socketD: "(\<Union>c. cpu_socket (cpus m c)) \<subseteq> K \<Longrightarrow> cpus m c = x \<Longrightarrow> cpu_socket x \<subseteq> K"
  by blast

lemma only_connected_step:
  assumes "smp_step m a m'" and "only_connected K m"
  shows "only_connected (K \<union> act_connect a) m' \<and> act_report a \<subseteq> K"
proof -
  have K: "{sk. conn_state (smp_maps m) sk \<noteq> None} \<subseteq> K" "(\<Union>c. cpu_socket (cpus m c)) \<subseteq> K"
    using assms(2) by (simp_all add: only_connected_def)
  from assms(1) show ?thesis
  proof cases
    case (connect c sk)
    with K show ?thesis by (auto simp: only_connected_def kprobe_tcp_v4_connect_def ht.lookup_update)
  next
    case (ignore c sk f)
    with assms(2) show ?thesis by simp
  next
    case (check c sk f e)
    then have "cpu_socket (Checked e sk f) \<subseteq> K" using K(1) by (auto simp: fresh_ipv4_def)
    with check K show ?thesis using cpu_sockets_upd [OF K(2)] by (simp add: only_connected_def del: fun_upd_apply)
  next
    case (emit c e sk f)
    then have "sk \<in> K" using cpu_socketD [OF K(2), of c] by simp
    with emit K show ?thesis
      using cpu_sockets_upd [OF K(2), of "Emitted sk" c] by (simp add: only_connected_def note_info_def del: fun_upd_apply)
  next
    case (lost c e sk f)
    then have "sk \<in> K" using cpu_socketD [OF K(2), of c] by simp
    with lost K show ?thesis
      using cpu_sockets_upd [OF K(2), of "Emitted sk" c] by (simp add: only_connected_def note_info_def del: fun_upd_apply)
  next
    case (mark c sk)
    then have "sk \<in> K" using cpu_socketD [OF K(2), of c] by simp
    with mark K show ?thesis
      using cpu_sockets_upd [OF K(2), of "Idle" c]
      by (auto simp: only_connected_def mark_handled_def ht.lookup_update simp del: fun_upd_apply)
  qed
qed

lemma only_connected_run:
  assumes "smp_run m as m'" and "only_connected K m"
  shows "only_connected (K \<union> \<Union> (act_connect ` set as)) m' \<and> \<Union> (act_report ` set as) \<subseteq> K \<union> \<Union> (act_connect ` set as)"
  using assms
proof (induction rule: smp_run.induct)
  case (smp_snoc m as m' a m'')
  let ?K = "K \<union> \<Union> (act_connect ` set as)"
  have "only_connected ?K m'" "\<Union> (act_report ` set as) \<subseteq> ?K" using smp_snoc by blast+
  moreover from only_connected_step [OF smp_snoc.hyps(2) this(1)]
  have "only_connected (?K \<union> act_connect a) m''" "act_report a \<subseteq> ?K" by blast+
  moreover have "K \<union> \<Union> (act_connect ` set (as @ [a])) = ?K \<union> act_connect a" by auto
  ultimately show ?case by auto
qed simp

text \<open>
  Property C22 (events_only_for_connected_sockets). However the probes of the CPUs interleave, an event is sent
  only for a socket on which a connect was seen before.
\<close>

theorem events_only_for_connected_sockets:
  assumes "smp_run smp_start as m" and "AEvent sk ev \<in> set as"
  shows "AConnect sk \<in> set as"
proof -
  have "only_connected {} smp_start"
    by (simp add: only_connected_def smp_start_def no_maps_def bpf_map_lookup_elem_def)
  from only_connected_run [OF assms(1) this] assms(2) obtain a where "a \<in> set as" "sk \<in> act_connect a" by force
  moreover have "sk \<in> act_connect a \<Longrightarrow> a = AConnect sk" by (cases a) auto
  ultimately show ?thesis by simp
qed

text \<open>Two CPUs that both read the state before either marks the socket.\<close>

definition racing_acts :: "act list" where
  "racing_acts =
     (let ev = make_event demo_env (read_sock_info demo_env demo_fields)
      in [AConnect 9, ATau, ATau, AEvent 9 ev, AEvent 9 ev])"

lemma racing_run: "\<exists>m. smp_run smp_start racing_acts m"
proof -
  define m1 where "m1 = smp_start\<lparr>smp_maps := kprobe_tcp_v4_connect 9 no_maps\<rparr>"
  define m2 where "m2 = m1\<lparr>cpus := (cpus m1)(0 := Checked demo_env 9 demo_fields)\<rparr>"
  define m3 where "m3 = m2\<lparr>cpus := (cpus m2)(1 := Checked demo_env 9 demo_fields)\<rparr>"
  define m4 where "m4 = m3\<lparr>smp_maps := note_info demo_env 9 demo_fields (smp_maps m3), cpus := (cpus m3)(0 := Emitted 9)\<rparr>"
  define m5 where "m5 = m4\<lparr>smp_maps := note_info demo_env 9 demo_fields (smp_maps m4), cpus := (cpus m4)(1 := Emitted 9)\<rparr>"
  let ?ev = "make_event demo_env (read_sock_info demo_env demo_fields)"
  have fresh: "fresh_ipv4 (kprobe_tcp_v4_connect 9 no_maps) 9 demo_fields"
    by (simp add: fresh_ipv4_def kprobe_tcp_v4_connect_def no_maps_def bpf_map_update_elem_def bpf_map_lookup_elem_def
        max_entries_def demo_fields_def read_kernel_def AF_INET_def)
  have ring: "ring_ok demo_env" by (simp add: demo_env_def)
  have s1: "smp_step smp_start (AConnect 9) m1"
    using connect [of smp_start 0 9] by (simp add: m1_def smp_start_def)
  have s2: "smp_step m1 ATau m2" unfolding m2_def by (rule check) (simp_all add: m1_def smp_start_def fresh)
  have s3: "smp_step m2 ATau m3" unfolding m3_def by (rule check) (simp_all add: m1_def m2_def smp_start_def fresh)
  have s4: "smp_step m3 (AEvent 9 ?ev) m4" unfolding m4_def by (rule emit) (simp_all add: m2_def m3_def ring)
  have s5: "smp_step m4 (AEvent 9 ?ev) m5" unfolding m5_def by (rule emit) (simp_all add: m3_def m4_def ring)
  have "smp_run smp_start (((([] @ [AConnect 9]) @ [ATau]) @ [ATau]) @ [AEvent 9 ?ev]) m4"
    by (rule smp_snoc [OF smp_snoc [OF smp_snoc [OF smp_snoc [OF smp_refl s1] s2] s3] s4])
  from smp_snoc [OF this s5] show ?thesis by (auto simp: racing_acts_def Let_def)
qed

theorem events_only_for_connected_sockets_witness:
  "\<exists>m ev. smp_run smp_start racing_acts m \<and> AEvent 9 ev \<in> set racing_acts \<and> AConnect 9 \<in> set racing_acts"
proof -
  obtain m where m: "smp_run smp_start racing_acts m" using racing_run by blast
  have "AEvent 9 (make_event demo_env (read_sock_info demo_env demo_fields)) \<in> set racing_acts"
    by (simp add: racing_acts_def Let_def)
  then show ?thesis using events_only_for_connected_sockets [OF m] m by blast
qed

text \<open>
  Remark (racing_sends_report_twice). The bound of one event per connect is lost when two sends on the same
  socket run at once: a run with one connect and two events for the socket exists.
\<close>

theorem racing_sends_report_twice:
  "\<exists>as m ev. smp_run smp_start as m \<and> count_list as (AConnect 9) = 1 \<and> act_events as = [(9, ev), (9, ev)]"
proof -
  obtain m where m: "smp_run smp_start racing_acts m" using racing_run by blast
  then show ?thesis
    by (intro exI [of _ racing_acts] exI [of _ m] exI [of _ "make_event demo_env (read_sock_info demo_env demo_fields)"])
      (simp add: racing_acts_def Let_def)
qed

end
