(* ===== verification/Capture_Types.thy ===== *)
theory Capture_Types
  imports Netlink_Wait
begin

text \<open>
  The data types the capture program shares between its modules, from \<^verbatim>\<open>capture/include/capture.h\<close>.
\<close>

text \<open>
  A C enumeration variable can hold any integer; \<open>MODE_OTHER\<close> stands for the values without a
  name, which the \<^verbatim>\<open>default\<close> branches of the sources handle.
\<close>

datatype key_provider_mode = MODE_TLSHUB | MODE_OPENSSL | MODE_BORINGSSL | MODE_OTHER int

record flow_tuple =
  saddr :: u32
  daddr :: u32
  sport :: u16
  dport :: u16

record tls_key_info =
  tki_key :: "byte list"
  tki_iv :: "byte list"
  key_len :: u32
  iv_len :: u32

definition key_info_wf :: "tls_key_info \<Rightarrow> bool" where
  "key_info_wf k \<longleftrightarrow> length (tki_key k) = 32 \<and> length (tki_iv k) = 16"

definition blank_key_info :: tls_key_info where
  "blank_key_info = \<lparr>tki_key = replicate 32 0, tki_iv = replicate 16 0, key_len = 0, iv_len = 0\<rparr>"

lemma blank_key_info_wf [simp]: "key_info_wf blank_key_info"
  by (simp add: key_info_wf_def blank_key_info_def)

end
