(* ===== verification/Tlshub_Client.thy ===== *)
theory Tlshub_Client
  imports Capture_Types
begin

text \<open>
  The Netlink client inside the capture program, \<^verbatim>\<open>capture/src/tlshub_client.c\<close>: one process-wide
  socket, opened once, over which keys are fetched and handshakes requested. Where the API
  library has a function of the same name, the name here starts with \<open>client\<close>.
\<close>

section \<open>State and operations\<close>

text \<open>The statics \<^verbatim>\<open>netlink_sock\<close> and \<^verbatim>\<open>dest_addr\<close>, and the thread-local message buffer of the handshake.\<close>

record client_state =
  netlink_sock :: int
  dest_addr :: sockaddr_nl
  hs_nlh :: ptr

definition client_start :: client_state where
  "client_start = \<lparr>netlink_sock = -1, dest_addr = zero_addr, hs_nlh = NULL\<rparr>"

text \<open>The types of the service's replies.\<close>

datatype msg_type =
    MSG_TYPE_HANDSHAKE_SUCCESS_FIRST | MSG_TYPE_HANDSHAKE_SUCCESS | MSG_TYPE_HANDSHAKE_FAILED
  | MSG_TYPE_LOG | MSG_TYPE_ALREADY_CONNECTED | MSG_TYPE_INIT_COMPLETE

fun msg_type_num :: "msg_type \<Rightarrow> byte" where
  "msg_type_num MSG_TYPE_HANDSHAKE_SUCCESS_FIRST = 1"
| "msg_type_num MSG_TYPE_HANDSHAKE_SUCCESS = 2"
| "msg_type_num MSG_TYPE_HANDSHAKE_FAILED = 3"
| "msg_type_num MSG_TYPE_LOG = 4"
| "msg_type_num MSG_TYPE_ALREADY_CONNECTED = 5"
| "msg_type_num MSG_TYPE_INIT_COMPLETE = 7"

definition client_init_switch :: "byte \<Rightarrow> int option" where
  "client_init_switch t = (if t = msg_type_num MSG_TYPE_INIT_COMPLETE then Some 0 else None)"

text \<open>The request header every function builds: cleared, then length and sender.\<close>

definition client_hdr :: "os \<Rightarrow> hist \<Rightarrow> nlmsghdr" where
  "client_hdr os h = new_hdr\<lparr>nlmsg_pid := os_gettid os h\<rparr>"

definition client_init_msg :: "byte list" where
  "client_init_msg = set_server True (set_opcode TLS_SERVICE_INIT (replicate 16 0))"

definition tlshub_client_init :: "os \<Rightarrow> client_state \<Rightarrow> hist \<Rightarrow> (int \<times> client_state \<times> hist) option" where
  "tlshub_client_init os s h =
     (let fd = os_socket os h; h1 = h @ [Socket fd]; s1 = s\<lparr>netlink_sock := fd\<rparr> in
      if fd < 0 then Some (-1, s1, h1)
      else
        let src = bind_addr (os_gettid os h1); r = os_bind os h1 fd src; h2 = h1 @ [Bind fd src r] in
        if r < 0 then Some (-1, s1\<lparr>netlink_sock := -1\<rparr>, h2 @ [Close fd])
        else
          let s2 = s1\<lparr>dest_addr := kernel_addr\<rparr>;
              p = os_malloc os h2 nlmsg_space; h3 = h2 @ [Malloc nlmsg_space p]
          in if p = NULL then Some (-1, s2\<lparr>netlink_sock := -1\<rparr>, h3 @ [Close fd])
             else
               let bs = request_bytes (client_hdr os h3) client_init_msg;
                   ret = os_sendto os h3 fd (dest_addr s2) bs;
                   h4 = h3 @ [SendTo fd (dest_addr s2) bs ret]
               in if ret = 0 then Some (-1, s2\<lparr>netlink_sock := -1\<rparr>, h4 @ [Free p, Close fd])
                  else case recv_loop os fd client_init_switch (dest_addr s2) h4 of
                    None \<Rightarrow> None
                  | Some (RecvZero, a, h5) \<Rightarrow> Some (-1, s2\<lparr>dest_addr := a, netlink_sock := -1\<rparr>, h5 @ [Free p, Close fd])
                  | Some (Decided v, a, h5) \<Rightarrow> Some (v, s2\<lparr>dest_addr := a\<rparr>, h5 @ [Free p]))"

definition tlshub_client_cleanup :: "client_state \<Rightarrow> hist \<Rightarrow> client_state \<times> hist" where
  "tlshub_client_cleanup s h =
     (if netlink_sock s \<ge> 0 then (s\<lparr>netlink_sock := -1\<rparr>, h @ [Close (netlink_sock s)]) else (s, h))"

definition client_msg :: "tls_opcode \<Rightarrow> flow_tuple \<Rightarrow> byte list" where
  "client_msg oc t =
     set_server False (set_server_pod_port (htons (dport t)) (set_client_pod_port (htons (sport t))
       (set_server_pod_ip (daddr t) (set_client_pod_ip (saddr t) (set_opcode oc (replicate 16 0))))))"

text \<open>
  \<^verbatim>\<open>tlshub_fetch_key\<close>. The pointer arguments are options (\<open>None\<close> is a null pointer); the key record is
  both argument and result. The type byte of the reply is not looked at.
\<close>

definition store_key :: "byte list \<Rightarrow> tls_key_info \<Rightarrow> tls_key_info" where
  "store_key k ki = ki\<lparr>tki_key := k, key_len := 32, tki_iv := replicate 16 0, iv_len := 12\<rparr>"

definition client_fetch_key ::
  "os \<Rightarrow> flow_tuple option \<Rightarrow> tls_key_info option \<Rightarrow> client_state \<Rightarrow> hist \<Rightarrow>
     (int \<times> tls_key_info option \<times> client_state \<times> hist) option"
where
  "client_fetch_key os tuple ki s h =
     (case (tuple, ki) of
        (Some t, Some k) \<Rightarrow>
          if netlink_sock s < 0 then Some (-1, ki, s, h)
          else
            let p = os_malloc os h nlmsg_space; h1 = h @ [Malloc nlmsg_space p] in
            if p = NULL then Some (-1, ki, s, h1)
            else
              let fd = netlink_sock s;
                  bs = request_bytes (client_hdr os h1) (client_msg TLS_SERVICE_FETCH t);
                  ret = os_sendto os h1 fd (dest_addr s) bs;
                  h2 = h1 @ [SendTo fd (dest_addr s) bs ret]
              in if ret = 0 then Some (-1, ki, s, h2 @ [Free p])
                 else
                   let r = os_recvfrom os h2 fd;
                       s' = s\<lparr>dest_addr := recv_src (dest_addr s) r\<rparr>;
                       h3 = h2 @ [RecvFrom fd r, Free p]
                   in if r = IoBlock then None
                      else if recv_ret user_msg_info_size r = 0 then Some (-1, ki, s', h3)
                      else
                        let key = read_key_back (u_msg (recv_buf user_msg_info_size r)) in
                        if status key \<noteq> 0 then Some (-1, ki, s', h3)
                        else Some (0, Some (store_key (masterkey key) k), s', h3)
      | _ \<Rightarrow> Some (-1, ki, s, h))"

definition client_handshake_switch :: "byte \<Rightarrow> int option" where
  "client_handshake_switch t =
     (if t = msg_type_num MSG_TYPE_HANDSHAKE_SUCCESS_FIRST \<or> t = msg_type_num MSG_TYPE_HANDSHAKE_SUCCESS \<or>
         t = msg_type_num MSG_TYPE_ALREADY_CONNECTED
      then Some 0
      else if t = msg_type_num MSG_TYPE_HANDSHAKE_FAILED then Some (-1)
      else None)"

definition client_handshake ::
  "os \<Rightarrow> flow_tuple option \<Rightarrow> client_state \<Rightarrow> hist \<Rightarrow> (int \<times> client_state \<times> hist) option"
where
  "client_handshake os tuple s h =
     (case tuple of
        None \<Rightarrow> Some (-1, s, h)
      | Some t \<Rightarrow>
          if netlink_sock s < 0 then Some (-1, s, h)
          else
            let (p, h1) = (if hs_nlh s = NULL
                           then (os_malloc os h nlmsg_space, h @ [Malloc nlmsg_space (os_malloc os h nlmsg_space)])
                           else (hs_nlh s, h));
                s1 = s\<lparr>hs_nlh := p\<rparr>
            in if p = NULL then Some (-1, s1, h1)
               else
                 let fd = netlink_sock s;
                     bs = request_bytes (client_hdr os h1) (client_msg TLS_SERVICE_START t);
                     ret = os_sendto os h1 fd (dest_addr s) bs;
                     h2 = h1 @ [SendTo fd (dest_addr s) bs ret]
                 in if ret = 0 then Some (-1, s1, h2)
                    else case recv_loop os fd client_handshake_switch (dest_addr s) h2 of
                      None \<Rightarrow> None
                    | Some (RecvZero, a, h3) \<Rightarrow> Some (-1, s1\<lparr>dest_addr := a\<rparr>, h3)
                    | Some (Decided v, a, h3) \<Rightarrow> Some (v, s1\<lparr>dest_addr := a\<rparr>, h3))"

section \<open>Requests\<close>

lemma client_msg_read:
  "read_my_msg (client_msg oc t) =
     \<lparr>client_pod_ip = saddr t, server_pod_ip = daddr t, client_pod_port = htons (sport t),
      server_pod_port = htons (dport t), opcode = opcode_byte oc, server = 0\<rparr>"
  by (simp add: client_msg_def)

lemma length_client_msg [simp]: "length (client_msg oc t) = 16"
  by (simp add: client_msg_def)

text \<open>
  Remark (client_request_roundtrip). A request of the capture client determines the operation
  and the four-tuple it was built from: two requests with equal payload bytes have the same
  opcode and the same tuple, and all 16 payload bytes are determined by them.
\<close>

theorem client_request_roundtrip:
  "client_msg oc t = client_msg oc' t' \<longleftrightarrow> oc = oc' \<and> t = t'"
proof
  assume "client_msg oc t = client_msg oc' t'"
  then have "read_my_msg (client_msg oc t) = read_my_msg (client_msg oc' t')" by simp
  then have "saddr t = saddr t'" "daddr t = daddr t'" "htons (sport t) = htons (sport t')"
    "htons (dport t) = htons (dport t')" "oc = oc'"
    by (simp_all add: client_msg_read)
  moreover from this have "sport t = sport t'" "dport t = dport t'" by (metis htons_htons)+
  ultimately show "oc = oc' \<and> t = t'" by simp
qed simp

section \<open>Results\<close>

lemma client_fetch_key_ret:
  assumes "client_fetch_key os tuple ki s h = Some (r, ki', s', h')"
  shows "r = 0 \<or> r = -1" and "r \<noteq> 0 \<Longrightarrow> ki' = ki"
    and "netlink_sock s' = netlink_sock s" and "hs_nlh s' = hs_nlh s"
  using assms by (auto simp: client_fetch_key_def Let_def split: option.splits if_splits)

lemma client_handshake_verdict:
  "verdict client_handshake_switch r = Some (Decided v) \<Longrightarrow> v = 0 \<or> v = -1"
  by (auto simp: verdict_def client_handshake_switch_def split: if_splits)

lemma client_handshake_ret:
  assumes "client_handshake os tuple s h = Some (r, s', h')"
  shows "r = 0 \<or> r = -1" and "netlink_sock s' = netlink_sock s"
  using assms
  by (auto simp: client_handshake_def Let_def recv_loop_iff first_decisive_def
      dest: client_handshake_verdict split: option.splits if_splits prod.splits wait_end.splits
      simp del: recv_addr.simps recv_hist.simps)

text \<open>The history of a fetch up to the receive, and the fetch when nothing before the receive fails.\<close>

definition client_fetch_hist :: "os \<Rightarrow> flow_tuple \<Rightarrow> client_state \<Rightarrow> hist \<Rightarrow> hist" where
  "client_fetch_hist os t s h =
     (let h1 = h @ [Malloc nlmsg_space (os_malloc os h nlmsg_space)];
          bs = request_bytes (client_hdr os h1) (client_msg TLS_SERVICE_FETCH t)
      in h1 @ [SendTo (netlink_sock s) (dest_addr s) bs (os_sendto os h1 (netlink_sock s) (dest_addr s) bs)])"

text \<open>
  What a receive leaves in the cleared buffer, byte by byte: the datagram, then zeros; only zeros when the receive failed.
\<close>

definition datagram_byte :: "io_result \<Rightarrow> nat \<Rightarrow> byte" where
  "datagram_byte r i = (case r of IoData src bs \<Rightarrow> if i < length bs then bs ! i else 0 | _ \<Rightarrow> 0)"

lemma bytes_at_recv_buf:
  assumes "off + n \<le> m"
  shows "bytes_at off n (recv_buf m r) = map (datagram_byte r) [off..<off + n]"
proof (rule nth_equalityI)
  fix i assume "i < length (bytes_at off n (recv_buf m r))"
  then have "i < n" by (simp add: bytes_at_def)
  then show "bytes_at off n (recv_buf m r) ! i = map (datagram_byte r) [off..<off + n] ! i"
    using assms by (cases r) (auto simp: bytes_at_def datagram_byte_def nth_append)
qed (use assms in \<open>simp add: bytes_at_def\<close>)

lemma le_val_0_iff: "le_val bs = 0 \<longleftrightarrow> bs = replicate (length bs) 0"
  by (induction bs) (auto simp: unat_eq_0)

lemma le_val_u32_0_iff:
  assumes "length bs = 4"
  shows "(of_nat (le_val bs) :: u32) = 0 \<longleftrightarrow> bs = [0, 0, 0, 0]"
proof -
  have "(of_nat (le_val bs) :: u32) = 0 \<longleftrightarrow> le_val bs = 0"
    using le_val_less [of bs] assms by (simp add: word_of_nat_eq_0_iff) (auto dest: dvd_imp_le)
  also have "\<dots> \<longleftrightarrow> bs = [0, 0, 0, 0]" by (subst le_val_0_iff) (simp add: assms numeral_eq_Suc)
  finally show ?thesis .
qed

lemma read_key_back_received:
  defines "kb r \<equiv> read_key_back (u_msg (recv_buf user_msg_info_size r))"
  shows "status (kb r) = 0 \<longleftrightarrow> map (datagram_byte r) [17..<21] = [0, 0, 0, 0]"
    and "masterkey (kb r) = map (datagram_byte r) [21..<53]"
proof -
  have at: "bytes_at 0 4 (u_msg (recv_buf 144 r)) = map (datagram_byte r) [17..<21]"
    "bytes_at 4 32 (u_msg (recv_buf 144 r)) = map (datagram_byte r) [21..<53]"
    using bytes_at_recv_buf [of 17 4 144 r] bytes_at_recv_buf [of 21 32 144 r]
    by (simp_all add: u_msg_def bytes_at_def drop_take del: upt_rec_numeral)
  have z: "sint w = 0 \<longleftrightarrow> w = 0" for w :: u32 by (metis sint_0 signed_word_eqI)
  have "(of_nat (le_val (map (datagram_byte r) [17..<21])) :: u32) = 0 \<longleftrightarrow> map (datagram_byte r) [17..<21] = [0, 0, 0, 0]"
    by (rule le_val_u32_0_iff) simp
  then show "status (kb r) = 0 \<longleftrightarrow> map (datagram_byte r) [17..<21] = [0, 0, 0, 0]"
    by (simp only: kb_def read_key_back_def layout at z key_back.simps)
  show "masterkey (kb r) = map (datagram_byte r) [21..<53]"
    by (simp add: kb_def read_key_back_def layout at del: upt_rec_numeral)
qed

lemma store_key_received:
  "store_key (masterkey (read_key_back (u_msg (recv_buf user_msg_info_size r)))) k =
     k\<lparr>tki_key := map (datagram_byte r) [21..<53], key_len := 32, tki_iv := replicate 16 0, iv_len := 12\<rparr>"
  by (simp only: store_key_def read_key_back_received)

lemma recv_ret_info_0: "recv_ret user_msg_info_size r = 0 \<longleftrightarrow> (\<exists>src. r = IoData src [])"
  by (simp add: recv_ret_0_iff layout)

lemma client_fetch_key_success:
  assumes "client_fetch_key os (Some t) (Some k) s h = Some (0, ki, s', h')"
  shows "\<exists>r. ki = Some (k\<lparr>tki_key := map (datagram_byte r) [21..<53], key_len := 32, tki_iv := replicate 16 0, iv_len := 12\<rparr>) \<and>
     map (datagram_byte r) [17..<21] = [0, 0, 0, 0] \<and> r \<noteq> IoBlock \<and> (\<forall>src. r \<noteq> IoData src []) \<and>
     h' = client_fetch_hist os t s h @ [RecvFrom (netlink_sock s) r, Free (os_malloc os h nlmsg_space)]"
  using assms
  by (auto simp: client_fetch_key_def client_fetch_hist_def Let_def store_key_received read_key_back_received(1)
      recv_ret_info_0 simp del: upt_rec_numeral recv_buf.simps recv_ret.simps split: if_splits)

lemma client_fetch_key_up:
  assumes "net_up os" and "0 \<le> netlink_sock s"
  shows "client_fetch_key os (Some t) (Some k) s h =
     (let h1 = client_fetch_hist os t s h; r = os_recvfrom os h1 (netlink_sock s);
          s' = s\<lparr>dest_addr := recv_src (dest_addr s) r\<rparr>;
          h' = h1 @ [RecvFrom (netlink_sock s) r, Free (os_malloc os h nlmsg_space)]
      in if r = IoBlock then None
         else if (\<exists>src. r = IoData src []) \<or> map (datagram_byte r) [17..<21] \<noteq> [0, 0, 0, 0] then Some (-1, Some k, s', h')
         else Some (0, Some (k\<lparr>tki_key := map (datagram_byte r) [21..<53], key_len := 32,
                               tki_iv := replicate 16 0, iv_len := 12\<rparr>), s', h'))"
  using assms(2) unfolding client_fetch_key_def client_fetch_hist_def Let_def
  by (simp add: net_upD [OF assms(1)] recv_ret_info_0 store_key_received read_key_back_received(1)
      del: upt_rec_numeral recv_buf.simps recv_ret.simps)

text \<open>
  Property C17 (client_fetch_installs_reply_key). With the socket open, memory for the message and a request that goes out, a fetch
  waits for one datagram. It blocks if there is none, fails without touching the caller's record if the datagram is empty or
  its status (bytes 17 to 20) is not zero, and otherwise returns 0 with bytes 21 to 52 of the datagram as the 32-byte key and an
  all-zero IV of length 12. Header and type byte play no role, missing bytes count as zeros, and a receive that fails counts as
  a datagram of zeros: the fetch then succeeds with an all-zero key. The message buffer is freed in every case.
\<close>

theorem client_fetch_installs_reply_key:
  assumes "net_up os" and "0 \<le> netlink_sock s"
  shows "client_fetch_key os (Some t) (Some k) s h =
     (let h1 = client_fetch_hist os t s h; r = os_recvfrom os h1 (netlink_sock s);
          s' = s\<lparr>dest_addr := recv_src (dest_addr s) r\<rparr>;
          h' = h1 @ [RecvFrom (netlink_sock s) r, Free (os_malloc os h nlmsg_space)];
          key = \<lparr>tki_key = map (datagram_byte r) [21..<53], tki_iv = replicate 16 0, key_len = 32, iv_len = 12\<rparr>
      in if r = IoBlock then None
         else if (\<exists>src. r = IoData src []) \<or> map (datagram_byte r) [17..<21] \<noteq> [0, 0, 0, 0] then Some (-1, Some k, s', h')
         else Some (0, Some key, s', h'))"
  using client_fetch_key_up [OF assms, of t k h] by (cases k) (simp add: Let_def del: upt_rec_numeral)

definition open_client :: client_state where
  "open_client = \<lparr>netlink_sock = 5, dest_addr = kernel_addr, hs_nlh = NULL\<rparr>"

definition demo_tuple :: flow_tuple where
  "demo_tuple = \<lparr>saddr = 10, daddr = 20, sport = 40000, dport = 443\<rparr>"

lemma datagram_bytes:
  "off + m \<le> length bs \<Longrightarrow> map (datagram_byte (IoData src bs)) [off..<off + m] = bytes_at off m bs"
  by (rule nth_equalityI) (auto simp: bytes_at_def datagram_byte_def)

lemma datagram_byte_reply:
  assumes "length mk = 32"
  shows "map (datagram_byte (IoData src (reply_bytes n ty (key_back_bytes 0 mk)))) [17..<21] = [0, 0, 0, 0]"
    and "map (datagram_byte (IoData src (reply_bytes n ty (key_back_bytes 0 mk)))) [21..<53] = mk"
proof -
  let ?bs = "reply_bytes n ty (key_back_bytes 0 mk)"
  have len: "length ?bs = 53" using assms by (simp add: reply_bytes_def key_back_bytes_def)
  have z: "le32 0 = [0, 0, 0, 0]" by code_simp
  show "map (datagram_byte (IoData src ?bs)) [17..<21] = [0, 0, 0, 0]"
    using datagram_bytes [of 17 4 ?bs src] len z by (simp add: bytes_at_def reply_bytes_def key_back_bytes_def del: upt_rec_numeral)
  show "map (datagram_byte (IoData src ?bs)) [21..<53] = mk"
    using datagram_bytes [of 21 32 ?bs src] len assms by (simp add: bytes_at_def reply_bytes_def key_back_bytes_def del: upt_rec_numeral)
qed

lemma good_reply_datagram:
  "map (datagram_byte good_reply) [17..<21] = [0, 0, 0, 0]" "map (datagram_byte good_reply) [21..<53] = replicate 32 9"
  "good_reply \<noteq> IoData src []"
  by (simp_all only: good_reply_def datagram_byte_reply length_replicate) (simp add: reply_bytes_def)

theorem client_fetch_installs_reply_key_witness:
  "\<exists>s' h'. client_fetch_key (const_os good_reply) (Some demo_tuple) (Some blank_key_info) open_client [] =
     Some (0, Some \<lparr>tki_key = replicate 32 9, tki_iv = replicate 16 0, key_len = 32, iv_len = 12\<rparr>, s', h')"
  using client_fetch_installs_reply_key [of "const_os good_reply" open_client demo_tuple blank_key_info "[]"]
  by (simp add: open_client_def good_reply_datagram Let_def del: upt_rec_numeral)

text \<open>
  Remark (client_fetch_accepts_failed_receive). A receive that fails (\<^verbatim>\<open>recvfrom\<close> returns -1) is
  not noticed, because the code tests for 0: the cleared buffer is read as status 0 and the
  fetch returns success with an all-zero key.
\<close>

theorem client_fetch_accepts_failed_receive:
  assumes "net_up os" and "0 \<le> netlink_sock s"
    and "os_recvfrom os (client_fetch_hist os t s h) (netlink_sock s) = IoErr"
  shows "\<exists>s' h'. client_fetch_key os (Some t) (Some k) s h =
           Some (0, Some (k\<lparr>tki_key := replicate 32 0, key_len := 32, tki_iv := replicate 16 0, iv_len := 12\<rparr>), s', h')"
proof -
  have "map (datagram_byte IoErr) [17..<21] = [0, 0, 0, 0]" "map (datagram_byte IoErr) [21..<53] = replicate 32 0"
    by (simp_all add: datagram_byte_def numeral_eq_Suc)
  then show ?thesis
    using client_fetch_key_up [OF assms(1,2), of t k h] by (simp add: assms(3) Let_def del: upt_rec_numeral)
qed

theorem client_fetch_accepts_failed_receive_witness:
  "\<exists>s' h'. client_fetch_key (const_os IoErr) (Some demo_tuple) (Some blank_key_info) open_client [] =
     Some (0, Some \<lparr>tki_key = replicate 32 0, tki_iv = replicate 16 0, key_len = 32, iv_len = 12\<rparr>, s', h')"
  using client_fetch_accepts_failed_receive [of "const_os IoErr" open_client demo_tuple "[]" blank_key_info]
  by (simp add: open_client_def blank_key_info_def)

section \<open>Sessions\<close>

text \<open>
  Relative to a base history, the client owns its socket while it is open, and the buffer of
  the handshake once it has been allocated (the buffer is kept for the life of the thread).
\<close>

definition client_owns :: "hist \<Rightarrow> client_state \<times> hist \<Rightarrow> bool" where
  "client_owns h0 = (\<lambda>(s, h).
     (\<forall>x. fd_balance h x = fd_balance h0 x + (if netlink_sock s = x \<and> 0 \<le> x then 1 else 0)) \<and>
     (\<forall>p. mem_balance h p = mem_balance h0 p + (if hs_nlh s = p \<and> p \<noteq> NULL then 1 else 0)))"

datatype client_call = CFetch flow_tuple tls_key_info | CHandshake flow_tuple

fun client_step :: "os \<Rightarrow> client_call \<Rightarrow> client_state \<times> hist \<Rightarrow> (client_state \<times> hist) option" where
  "client_step os (CFetch t k) (s, h) = map_option (\<lambda>(r, ki, s', h'). (s', h')) (client_fetch_key os (Some t) (Some k) s h)"
| "client_step os (CHandshake t) (s, h) = map_option (\<lambda>(r, s', h'). (s', h')) (client_handshake os (Some t) s h)"

lemma client_fetch_key_neutral:
  "client_fetch_key os tuple ki s h = Some (r, ki', s', h') \<Longrightarrow> neutral h h'"
  by (auto simp: client_fetch_key_def Let_def neutral_def fun_eq_iff balance split: option.splits if_splits)

lemma client_owns_neutral:
  "client_owns h0 (s, h) \<Longrightarrow> neutral h h' \<Longrightarrow> netlink_sock s' = netlink_sock s \<Longrightarrow> hs_nlh s' = hs_nlh s \<Longrightarrow>
     client_owns h0 (s', h')"
  by (simp add: client_owns_def neutral_def)

lemma client_handshake_owns:
  assumes "client_handshake os (Some t) s h = Some (r, s', h')" and "client_owns h0 (s, h)"
  shows "client_owns h0 (s', h')"
proof (cases "netlink_sock s < 0")
  case True
  with assms show ?thesis by (simp add: client_handshake_def)
next
  case False
  define p where "p = (if hs_nlh s = NULL then os_malloc os h nlmsg_space else hs_nlh s)"
  define h1 where "h1 = (if hs_nlh s = NULL then h @ [Malloc nlmsg_space (os_malloc os h nlmsg_space)] else h)"
  have own: "client_owns h0 (s\<lparr>hs_nlh := p\<rparr>, h1)"
    using assms(2) by (auto simp: client_owns_def p_def h1_def balance)
  have pair: "(if hs_nlh s = NULL then (os_malloc os h nlmsg_space, h @ [Malloc nlmsg_space (os_malloc os h nlmsg_space)])
      else (hs_nlh s, h)) = (p, h1)"
    by (simp add: p_def h1_def)
  have "netlink_sock s' = netlink_sock s \<and> hs_nlh s' = p \<and> neutral h1 h'"
    using assms(1) False
    by (auto simp: client_handshake_def Let_def pair neutral_def fun_eq_iff balance
        split: if_splits option.splits prod.splits wait_end.splits dest!: recv_loop_neutral)
  then show ?thesis using client_owns_neutral [OF own, of h' s'] by simp
qed

interpretation client: invariant_steps "client_step os" "client_owns h0" for os h0
proof
  fix st c st' assume "client_owns h0 st" and "client_step os c st = Some st'"
  then show "client_owns h0 st'"
    by (cases c; cases st)
      (auto intro: client_handshake_owns client_owns_neutral client_fetch_key_neutral client_fetch_key_ret)
qed

lemma client_init_loop:
  assumes "recv_loop os fd client_init_switch a h = Some (e, a', h')"
  shows "fd_balance h' = fd_balance h" "mem_balance h' = mem_balance h" "e = Decided v \<Longrightarrow> v = 0"
proof -
  show "fd_balance h' = fd_balance h" "mem_balance h' = mem_balance h"
    using recv_loop_neutral [OF assms] by (simp_all add: neutral_def)
  assume "e = Decided v"
  then show "v = 0" using assms
    by (auto simp: recv_loop_iff first_decisive_def verdict_def client_init_switch_def split: if_splits)
qed

lemma tlshub_client_init_owns:
  assumes "tlshub_client_init os client_start h0 = Some (r, s', h')" and "-1 \<le> os_socket os h0"
  shows "client_owns h0 (s', h') \<and> (r = 0 \<longleftrightarrow> 0 \<le> netlink_sock s')"
proof -
  define fd where "fd = os_socket os h0"
  define h1 where "h1 = h0 @ [Socket fd]"
  define src where "src = bind_addr (os_gettid os h1)"
  define h2 where "h2 = h1 @ [Bind fd src (os_bind os h1 fd src)]"
  define p where "p = os_malloc os h2 nlmsg_space"
  define h3 where "h3 = h2 @ [Malloc nlmsg_space p]"
  define bs where "bs = request_bytes (client_hdr os h3) client_init_msg"
  define h4 where "h4 = h3 @ [SendTo fd kernel_addr bs (os_sendto os h3 fd kernel_addr bs)]"
  note defs = fd_def [symmetric] h1_def [symmetric] src_def [symmetric] h2_def [symmetric] p_def [symmetric]
    h3_def [symmetric] bs_def [symmetric] h4_def [symmetric]
  have b1: "fd_balance h1 x = fd_balance h0 x + (if fd = x \<and> x \<noteq> -1 then 1 else 0)" "mem_balance h1 q = mem_balance h0 q" for x q
    by (auto simp: h1_def balance)
  have b4: "fd_balance h4 x = fd_balance h1 x" "mem_balance h4 q = mem_balance h0 q + (if p = q \<and> q \<noteq> NULL then 1 else 0)" for x q
    by (auto simp: h1_def h2_def h3_def h4_def balance)
  have b23: "fd_balance h2 x = fd_balance h1 x" "mem_balance h2 q = mem_balance h0 q"
    "fd_balance h3 x = fd_balance h1 x" "mem_balance h3 q = mem_balance h0 q + (if p = q \<and> q \<noteq> NULL then 1 else 0)" for x q
    by (auto simp: h1_def h2_def h3_def balance)
  have ge: "-1 \<le> fd" using assms(2) by (simp add: fd_def)
  consider "fd < 0" | "0 \<le> fd" "os_bind os h1 fd src < 0 \<or> p = NULL \<or> os_sendto os h3 fd kernel_addr bs = 0"
    | "0 \<le> fd" "\<not> os_bind os h1 fd src < 0" "p \<noteq> NULL" "os_sendto os h3 fd kernel_addr bs \<noteq> 0"
    by linarith
  then show ?thesis
  proof cases
    case 1
    then show ?thesis using assms(1) ge b1
      by (auto simp: tlshub_client_init_def client_start_def client_owns_def Let_def defs)
  next
    case 2
    then show ?thesis using assms(1) b4 b1 b23
      by (auto simp: tlshub_client_init_def client_start_def client_owns_def Let_def defs balance
          split: if_splits)
  next
    case 3
    obtain e a h5 where l: "recv_loop os fd client_init_switch kernel_addr h4 = Some (e, a, h5)"
      using assms(1) 3 by (auto simp: tlshub_client_init_def Let_def defs split: option.splits)
    show ?thesis
      using assms(1) 3 client_init_loop [OF l] b4 b1
      by (cases e) (auto simp: tlshub_client_init_def client_start_def client_owns_def Let_def defs l balance)
  qed
qed

text \<open>
  Property C18 (client_session_closes_socket). A session of the capture client (initialise, any number
  of fetches and handshakes, clean up) ends with every descriptor it opened closed; the only
  memory it still holds is at most one handshake buffer.
\<close>

theorem client_session_closes_socket:
  assumes "-1 \<le> os_socket os h0"
    and "tlshub_client_init os client_start h0 = Some (r, s1, h1)"
    and "run_steps (client_step os) cs (s1, h1) = Some (s2, h2)"
    and "tlshub_client_cleanup s2 h2 = (s3, h3)"
  shows "netlink_sock s3 < 0 \<and> fd_balance h3 = fd_balance h0 \<and>
         (mem_balance h3 = mem_balance h0 \<or>
          (\<exists>p. mem_balance h3 = (mem_balance h0)(p := mem_balance h0 p + 1) \<and> hs_nlh s3 = p))"
proof -
  have "client_owns h0 (s1, h1)" using tlshub_client_init_owns [OF assms(2,1)] by blast
  then have "client_owns h0 (s2, h2)" using assms(3) by (rule client.run_inv)
  then have fd: "fd_balance h2 x = fd_balance h0 x + (if netlink_sock s2 = x \<and> 0 \<le> x then 1 else 0)"
    and mem: "mem_balance h2 p = mem_balance h0 p + (if hs_nlh s2 = p \<and> p \<noteq> NULL then 1 else 0)" for x p
    by (auto simp: client_owns_def)
  have "netlink_sock s3 < 0 \<and> fd_balance h3 = fd_balance h0" and m3: "mem_balance h3 = mem_balance h2" "hs_nlh s3 = hs_nlh s2"
    using assms(4) fd by (cases "0 \<le> netlink_sock s2"; auto simp: tlshub_client_cleanup_def fun_eq_iff balance)+
  moreover have "mem_balance h2 = mem_balance h0 \<or> mem_balance h2 = (mem_balance h0)(hs_nlh s2 := mem_balance h0 (hs_nlh s2) + 1)"
    by (cases "hs_nlh s2 = NULL") (auto simp: fun_eq_iff mem)
  ultimately show ?thesis by auto
qed

theorem client_session_closes_socket_witness:
  "\<exists>s1 h1 s2 h2 s3 h3. tlshub_client_init (const_os (IoData kernel_addr (reply_bytes (reply_hdr 17) 7 []))) client_start [] = Some (0, s1, h1) \<and>
     run_steps (client_step (const_os (IoData kernel_addr (reply_bytes (reply_hdr 17) 7 [])))) [CFetch demo_tuple blank_key_info] (s1, h1) = Some (s2, h2) \<and>
     tlshub_client_cleanup s2 h2 = (s3, h3) \<and> fd_balance h3 = fd_balance []"
proof -
  let ?os = "const_os (IoData kernel_addr (reply_bytes (reply_hdr 17) 7 []))"
  obtain s1 h1 where 1: "tlshub_client_init ?os client_start [] = Some (0, s1, h1)" and s1: "netlink_sock s1 = 5"
    by (simp add: tlshub_client_init_def client_start_def Let_def recv_loop_const verdict_reply client_init_switch_def)
  obtain s2 h2 where 2: "run_steps (client_step ?os) [CFetch demo_tuple blank_key_info] (s1, h1) = Some (s2, h2)"
    using client_fetch_key_up [of ?os s1 demo_tuple blank_key_info h1] s1
    by (auto simp: Let_def reply_bytes_def simp del: upt_rec_numeral split: if_splits)
  obtain s3 h3 where 3: "tlshub_client_cleanup s2 h2 = (s3, h3)" by fastforce
  show ?thesis using client_session_closes_socket [OF _ 1 2 3] 1 2 3 by auto
qed

end
