(* ===== verification/Ktls_Config.thy ===== *)
theory Ktls_Config
  imports Capture_Types
begin

text \<open>
  Kernel TLS set-up, \<^verbatim>\<open>capture/src/ktls_config.c\<close>: the upper-layer protocol is attached to the socket,
  then the AES-GCM-128 parameters are installed for sending and for receiving.
\<close>

section \<open>Crypto parameters\<close>

text \<open>\<^verbatim>\<open>struct tls12_crypto_info_aes_gcm_128\<close>, cleared and filled from the key record.\<close>

record crypto_info =
  ci_version :: u16
  ci_cipher_type :: u16
  ci_iv :: "byte list"
  ci_key :: "byte list"
  ci_salt :: "byte list"
  ci_rec_seq :: "byte list"

definition TLS_1_2_VERSION :: u16 where "TLS_1_2_VERSION = 0x0303"
definition TLS_CIPHER_AES_GCM_128 :: u16 where "TLS_CIPHER_AES_GCM_128 = 51"

definition ktls_crypto_info :: "tls_key_info \<Rightarrow> crypto_info" where
  "ktls_crypto_info k =
     (let c = \<lparr>ci_version = TLS_1_2_VERSION, ci_cipher_type = TLS_CIPHER_AES_GCM_128, ci_iv = replicate 8 0,
               ci_key = bytes_at 0 16 (tki_key k), ci_salt = replicate 4 0, ci_rec_seq = replicate 8 0\<rparr>
      in if iv_len k \<ge> 12 then c\<lparr>ci_salt := bytes_at 0 4 (tki_iv k), ci_iv := bytes_at 4 8 (tki_iv k)\<rparr>
         else c\<lparr>ci_salt := put 0 (bytes_at 0 (if iv_len k < 4 then unat (iv_len k) else 4) (tki_iv k)) (ci_salt c)\<rparr>)"

definition crypto_info_bytes :: "crypto_info \<Rightarrow> byte list" where
  "crypto_info_bytes c = le16 (ci_version c) @ le16 (ci_cipher_type c) @ ci_iv c @ ci_key c @ ci_salt c @ ci_rec_seq c"

section \<open>Socket options\<close>

text \<open>\<^verbatim>\<open>"tls"\<close> with its terminating zero byte.\<close>

definition ulp_name :: "byte list" where
  "ulp_name = [116, 108, 115, 0]"

definition enable_ktls_tx :: "os \<Rightarrow> int \<Rightarrow> tls_key_info \<Rightarrow> hist \<Rightarrow> int \<times> hist" where
  "enable_ktls_tx os sockfd k h =
     (let r = os_setsockopt os h sockfd ''TCP_ULP'' ulp_name; h1 = h @ [SetSockOpt sockfd ''TCP_ULP'' ulp_name r] in
      if r < 0 then (r, h1)
      else
        let ci = crypto_info_bytes (ktls_crypto_info k);
            r' = os_setsockopt os h1 sockfd ''TLS_TX'' ci; h2 = h1 @ [SetSockOpt sockfd ''TLS_TX'' ci r']
        in if r' < 0 then (r', h2) else (0, h2))"

definition enable_ktls_rx :: "os \<Rightarrow> int \<Rightarrow> tls_key_info \<Rightarrow> hist \<Rightarrow> int \<times> hist" where
  "enable_ktls_rx os sockfd k h =
     (let ci = crypto_info_bytes (ktls_crypto_info k);
          r = os_setsockopt os h sockfd ''TLS_RX'' ci; h1 = h @ [SetSockOpt sockfd ''TLS_RX'' ci r]
      in if r < 0 then (r, h1) else (0, h1))"

definition configure_ktls :: "os \<Rightarrow> int \<Rightarrow> tls_key_info \<Rightarrow> hist \<Rightarrow> int \<times> hist" where
  "configure_ktls os sockfd k h =
     (let (r, h1) = enable_ktls_tx os sockfd k h in
      if r < 0 then (r, h1)
      else let (r', h2) = enable_ktls_rx os sockfd k h1 in
           if r' < 0 then (r', h2) else (0, h2))"

section \<open>Properties\<close>

lemma length_crypto_fields:
  "key_info_wf k \<Longrightarrow> length (ci_key (ktls_crypto_info k)) = 16"
  "key_info_wf k \<Longrightarrow> length (ci_iv (ktls_crypto_info k)) = 8"
  "key_info_wf k \<Longrightarrow> length (ci_salt (ktls_crypto_info k)) = 4"
  "length (ci_rec_seq (ktls_crypto_info k)) = 8"
  by (auto simp: ktls_crypto_info_def key_info_wf_def bytes_at_def Let_def put_def word_less_nat_alt)

text \<open>
  Property C28 (ktls_parameter_image). The parameter block handed to the kernel has the 40 bytes of
  the kernel's structure whatever \<open>iv_len\<close> says: version, cipher, 8-byte nonce, 16-byte key, 4-byte
  salt and a zero record number at fixed offsets. The key is the first half of the key array; with at
  least 12 IV bytes the salt is IV bytes 0 to 3 and the nonce IV bytes 4 to 11, and with fewer the
  nonce is zero and the salt is the available IV bytes (at most 4) padded with zeros.
\<close>

theorem ktls_parameter_image:
  assumes "key_info_wf k"
  defines "img \<equiv> crypto_info_bytes (ktls_crypto_info k)"
  shows "length img = 40 \<and> bytes_at 0 4 img = le16 TLS_1_2_VERSION @ le16 TLS_CIPHER_AES_GCM_128 \<and>
         bytes_at 12 16 img = take 16 (tki_key k) \<and> bytes_at 32 8 img = replicate 8 0 \<and>
         (if iv_len k \<ge> 12
          then bytes_at 28 4 img = take 4 (tki_iv k) \<and> bytes_at 4 8 img = take 8 (drop 4 (tki_iv k))
          else bytes_at 4 8 img = replicate 8 0 \<and>
               bytes_at 28 4 img = take (min 4 (unat (iv_len k))) (tki_iv k) @ replicate (4 - unat (iv_len k)) 0)"
proof -
  let ?c = "ktls_crypto_info k"
  have len: "length (ci_key ?c) = 16" "length (ci_iv ?c) = 8" "length (ci_salt ?c) = 4" "length (ci_rec_seq ?c) = 8"
    using assms(1) length_crypto_fields by auto
  have img: "length img = 40" "bytes_at 0 4 img = le16 (ci_version ?c) @ le16 (ci_cipher_type ?c)"
    "bytes_at 4 8 img = ci_iv ?c" "bytes_at 12 16 img = ci_key ?c" "bytes_at 28 4 img = ci_salt ?c" "bytes_at 32 8 img = ci_rec_seq ?c"
    using len by (simp_all add: img_def crypto_info_bytes_def bytes_at_def)
  have "iv_len k < 4 \<Longrightarrow> min 4 (unat (iv_len k)) = unat (iv_len k)"
    and "\<not> iv_len k < 4 \<Longrightarrow> min 4 (unat (iv_len k)) = 4 \<and> 4 - unat (iv_len k) = 0"
    by (simp_all add: word_less_nat_alt)
  moreover have "length (tki_iv k) = 16" using assms(1) by (simp add: key_info_wf_def)
  ultimately show ?thesis unfolding img
    by (cases "iv_len k < 4")
      (auto simp: img(1) ktls_crypto_info_def Let_def bytes_at_def put_def word_less_nat_alt)
qed

theorem ktls_parameter_image_witness:
  "key_info_wf blank_key_info \<and>
   bytes_at 12 16 (crypto_info_bytes (ktls_crypto_info blank_key_info)) = replicate 16 0"
proof -
  have "tki_key blank_key_info = replicate 32 0" by (simp add: blank_key_info_def)
  then show ?thesis using ktls_parameter_image [OF blank_key_info_wf] by simp
qed

text \<open>
  Remark (ktls_configured_iff_all_options_set). \<^verbatim>\<open>configure_ktls\<close> returns 0 exactly when the three
  socket options were accepted, and then it has set, in this order, the TLS protocol, the sending
  parameters and the receiving parameters, with the same parameter block in both directions. In every other
  case it returns the negative result of the option that failed, and no later option was tried.
\<close>

theorem ktls_configured_iff_all_options_set:
  "\<exists>rs. snd (configure_ktls os fd k h) =
            h @ map (\<lambda>((opt, ci), r). SetSockOpt fd opt ci r)
                  (zip [(''TCP_ULP'', ulp_name), (''TLS_TX'', crypto_info_bytes (ktls_crypto_info k)),
                        (''TLS_RX'', crypto_info_bytes (ktls_crypto_info k))] rs) \<and>
          rs \<noteq> [] \<and> length rs \<le> 3 \<and> list_all (\<lambda>r. 0 \<le> r) (butlast rs) \<and>
          (if 0 \<le> last rs then length rs = 3 \<and> fst (configure_ktls os fd k h) = 0
           else fst (configure_ktls os fd k h) = last rs)"
proof -
  let ?ci = "crypto_info_bytes (ktls_crypto_info k)"
  define r1 where "r1 = os_setsockopt os h fd ''TCP_ULP'' ulp_name"
  define h1 where "h1 = h @ [SetSockOpt fd ''TCP_ULP'' ulp_name r1]"
  define r2 where "r2 = os_setsockopt os h1 fd ''TLS_TX'' ?ci"
  define h2 where "h2 = h1 @ [SetSockOpt fd ''TLS_TX'' ?ci r2]"
  define r3 where "r3 = os_setsockopt os h2 fd ''TLS_RX'' ?ci"
  note d = r1_def [symmetric] h1_def [symmetric] r2_def [symmetric] h2_def [symmetric] r3_def [symmetric]
  have eq: "configure_ktls os fd k h =
      (if r1 < 0 then (r1, h1) else if r2 < 0 then (r2, h2)
       else (if r3 < 0 then r3 else 0, h2 @ [SetSockOpt fd ''TLS_RX'' ?ci r3]))"
    by (simp add: configure_ktls_def enable_ktls_tx_def enable_ktls_rx_def Let_def d)
  show ?thesis
    by (rule exI [of _ "if r1 < 0 then [r1] else if r2 < 0 then [r1, r2] else [r1, r2, r3]"])
      (auto simp: eq h1_def h2_def)
qed

end
