(* ===== verification/Key_Provider.thy ===== *)
theory Key_Provider
  imports Tlshub_Client Ktls_Config
begin

text \<open>
  The key provider, \<^verbatim>\<open>capture/src/key_provider.c\<close>: it hides where a session key comes from. In TLShub mode
  it fetches the key, and if that fails asks for a handshake and fetches again; in the OpenSSL and
  BoringSSL modes it derives a key with the TLS exporter. The OpenSSL library is a parameter.
\<close>

section \<open>The fetch-or-handshake flow over any key source\<close>

text \<open>Lines 104 to 124 of the source, over the two client functions it calls.\<close>

definition fetch_or_handshake ::
  "('t \<Rightarrow> 'k \<Rightarrow> 's \<Rightarrow> (int \<times> 'k \<times> 's) option) \<Rightarrow> ('t \<Rightarrow> 's \<Rightarrow> (int \<times> 's) option) \<Rightarrow> 't \<Rightarrow> 'k \<Rightarrow> 's \<Rightarrow> (int \<times> 'k \<times> 's) option"
where
  "fetch_or_handshake fetch handshake t k s =
     (case fetch t k s of
        None \<Rightarrow> None
      | Some (r, k1, s1) \<Rightarrow>
          if r < 0 then
            (case handshake t s1 of
               None \<Rightarrow> None
             | Some (r', s2) \<Rightarrow>
                 if r' < 0 then Some (r', k1, s2)
                 else
                   (case fetch t k1 s2 of
                      None \<Rightarrow> None
                    | Some (r'', k2, s3) \<Rightarrow> if r'' < 0 then Some (r'', k2, s3) else Some (0, k2, s3)))
          else Some (0, k1, s1))"

text \<open>
  What the flow relies on: the codes are 0 and -1, a failed fetch leaves the key record alone,
  and a successful one fills it, from the state it ends in.
\<close>

locale key_source =
  fixes fetch :: "'t \<Rightarrow> 'k \<Rightarrow> 's \<Rightarrow> (int \<times> 'k \<times> 's) option"
    and handshake :: "'t \<Rightarrow> 's \<Rightarrow> (int \<times> 's) option"
    and filled :: "'t \<Rightarrow> 'k \<Rightarrow> 's \<Rightarrow> bool"
  assumes fetch_code: "fetch t k s = Some (r, k', s') \<Longrightarrow> r = 0 \<or> r = -1"
    and fetch_fail: "fetch t k s = Some (r, k', s') \<Longrightarrow> r \<noteq> 0 \<Longrightarrow> k' = k"
    and fetch_ok: "fetch t k s = Some (0, k', s') \<Longrightarrow> filled t k' s'"
    and handshake_code: "handshake t s = Some (r, s') \<Longrightarrow> r = 0 \<or> r = -1"
begin

lemma flow_result:
  assumes "fetch_or_handshake fetch handshake t k s = Some (r, k', s')"
  shows "r = 0 \<and> filled t k' s' \<or> r = -1 \<and> k' = k"
proof -
  from assms obtain r1 k1 s1 where 1: "fetch t k s = Some (r1, k1, s1)"
    by (auto simp: fetch_or_handshake_def split: option.splits)
  show ?thesis
  proof (cases "r1 = 0")
    case True
    with assms 1 show ?thesis using fetch_ok by (auto simp: fetch_or_handshake_def)
  next
    case False
    with 1 have r1: "r1 = -1" "k1 = k" using fetch_code fetch_fail by blast+
    with assms 1 obtain r2 s2 where 2: "handshake t s1 = Some (r2, s2)"
      by (auto simp: fetch_or_handshake_def split: option.splits)
    show ?thesis
    proof (cases "r2 = 0")
      case False
      with handshake_code [OF 2] assms 1 2 r1 show ?thesis by (auto simp: fetch_or_handshake_def)
    next
      case True
      with assms 1 2 r1 obtain r3 k3 s3 where 3: "fetch t k s2 = Some (r3, k3, s3)"
        by (auto simp: fetch_or_handshake_def split: option.splits)
      with fetch_code [OF 3] fetch_fail [OF 3] fetch_ok [of t k s2] assms 1 2 r1 True show ?thesis
        by (auto simp: fetch_or_handshake_def)
    qed
  qed
qed

lemma flow_ok_iff:
  "(\<exists>k' s'. fetch_or_handshake fetch handshake t k s = Some (0, k', s')) \<longleftrightarrow>
     (\<exists>k' s'. fetch t k s = Some (0, k', s')) \<or>
     (\<exists>s1 s2 k' s3. fetch t k s = Some (-1, k, s1) \<and> handshake t s1 = Some (0, s2) \<and>
        fetch t k s2 = Some (0, k', s3))"
  (is "?L \<longleftrightarrow> ?R")
proof
  assume ?L
  then obtain k' s' where f: "fetch_or_handshake fetch handshake t k s = Some (0, k', s')" by blast
  then obtain r k1 s1 where 1: "fetch t k s = Some (r, k1, s1)"
    by (auto simp: fetch_or_handshake_def split: option.splits)
  show ?R
  proof (cases "r = 0")
    case True
    with 1 show ?thesis by blast
  next
    case False
    with 1 have r: "r = -1" "k1 = k" using fetch_code fetch_fail by blast+
    with f 1 obtain r' s2 where 2: "handshake t s1 = Some (r', s2)"
      by (auto simp: fetch_or_handshake_def split: option.splits)
    moreover have "r' = 0" using handshake_code [OF 2] f 1 2 r by (auto simp: fetch_or_handshake_def)
    moreover obtain r'' k2 s3 where 3: "fetch t k s2 = Some (r'', k2, s3)"
      using f 1 2 r \<open>r' = 0\<close> by (auto simp: fetch_or_handshake_def split: option.splits)
    moreover have "r'' = 0" using fetch_code [OF 3] f 1 2 3 r \<open>r' = 0\<close> by (auto simp: fetch_or_handshake_def)
    ultimately show ?thesis using 1 r by blast
  qed
next
  assume ?R
  then show ?L by (auto simp: fetch_or_handshake_def)
qed

end

section \<open>The OpenSSL library\<close>

text \<open>
  What the provider uses of OpenSSL: creating a context and a connection object, and the exporter, which
  returns 1 on success and fills the output buffer (\<open>i\<close> is the offset in the buffer).
\<close>

record ssl_lib =
  SSL_CTX_new :: "hist \<Rightarrow> bool"
  SSL_new :: "hist \<Rightarrow> bool"
  SSL_export_keying_material :: "hist \<Rightarrow> string \<Rightarrow> nat \<Rightarrow> int \<times> (nat \<Rightarrow> byte)"

record provider_state =
  current_mode :: key_provider_mode
  ssl_ctx :: bool
  kp_client :: client_state

definition provider_start :: provider_state where
  "provider_start = \<lparr>current_mode = MODE_TLSHUB, ssl_ctx = False, kp_client = client_start\<rparr>"

section \<open>Operations\<close>

definition ssl_provider_init :: "ssl_lib \<Rightarrow> provider_state \<Rightarrow> hist \<Rightarrow> int \<times> provider_state \<times> hist" where
  "ssl_provider_init lib s h =
     (let ok = SSL_CTX_new lib h; s1 = s\<lparr>ssl_ctx := ok\<rparr>; h1 = h @ [SslCtxNew ok]
      in if \<not> ok then (-1, s1, h1) else (0, s1, h1))"

definition key_provider_init ::
  "os \<Rightarrow> ssl_lib \<Rightarrow> key_provider_mode \<Rightarrow> provider_state \<Rightarrow> hist \<Rightarrow> (int \<times> provider_state \<times> hist) option"
where
  "key_provider_init os lib mode s h =
     (let s1 = s\<lparr>current_mode := mode\<rparr> in
      case mode of
        MODE_TLSHUB \<Rightarrow> map_option (\<lambda>(r, c, h'). (r, s1\<lparr>kp_client := c\<rparr>, h')) (tlshub_client_init os (kp_client s1) h)
      | MODE_OPENSSL \<Rightarrow> Some (ssl_provider_init lib s1 h)
      | MODE_BORINGSSL \<Rightarrow> Some (ssl_provider_init lib s1 h)
      | MODE_OTHER n \<Rightarrow> Some (-1, s1, h))"

definition key_provider_cleanup :: "provider_state \<Rightarrow> hist \<Rightarrow> provider_state \<times> hist" where
  "key_provider_cleanup s h =
     (case current_mode s of
        MODE_TLSHUB \<Rightarrow> (let (c, h') = tlshub_client_cleanup (kp_client s) h in (s\<lparr>kp_client := c\<rparr>, h'))
      | MODE_OTHER n \<Rightarrow> (s, h)
      | _ \<Rightarrow> if ssl_ctx s then (s\<lparr>ssl_ctx := False\<rparr>, h @ [SslCtxFree]) else (s, h))"

definition key_provider_set_mode :: "key_provider_mode \<Rightarrow> provider_state \<Rightarrow> provider_state" where
  "key_provider_set_mode mode s = s\<lparr>current_mode := mode\<rparr>"

definition key_provider_get_mode :: "provider_state \<Rightarrow> key_provider_mode" where
  "key_provider_get_mode s = current_mode s"

text \<open>The exporter label as it is passed: 21 bytes starting at the 20-character literal.\<close>

definition exporter_label :: string where
  "exporter_label = ''EXPORTER-TLS-Capture''"

definition exporter_label_arg :: string where
  "exporter_label_arg = take 21 (exporter_label @ [CHR 0x00])"

definition openssl_get_key ::
  "ssl_lib \<Rightarrow> tls_key_info \<Rightarrow> provider_state \<Rightarrow> hist \<Rightarrow> int \<times> tls_key_info \<times> hist"
where
  "openssl_get_key lib k s h =
     (if \<not> ssl_ctx s then (-1, k, h)
      else
        let ok = SSL_new lib h; h1 = h @ [SslNew ok] in
        if \<not> ok then (-1, k, h1)
        else
          let (ret, out) = SSL_export_keying_material lib h1 exporter_label_arg 64;
              h2 = h1 @ [SslExport exporter_label_arg 64 ret];
              km = map out [0..<64]
          in if ret \<noteq> 1 then (-1, k, h2 @ [SslFree])
             else (0, k\<lparr>tki_key := put 0 (bytes_at 0 16 km) (tki_key k), tki_iv := put 0 (bytes_at 16 12 km) (tki_iv k),
                        key_len := 16, iv_len := 12\<rparr>, h2 @ [SslFree]))"

definition boringssl_get_key ::
  "ssl_lib \<Rightarrow> tls_key_info \<Rightarrow> provider_state \<Rightarrow> hist \<Rightarrow> int \<times> tls_key_info \<times> hist"
where
  "boringssl_get_key lib k s h = openssl_get_key lib k s h"

definition tlshub_source_fetch ::
  "os \<Rightarrow> flow_tuple \<Rightarrow> tls_key_info \<Rightarrow> client_state \<times> hist \<Rightarrow> (int \<times> tls_key_info \<times> client_state \<times> hist) option"
where
  "tlshub_source_fetch os t k = (\<lambda>(c, h).
     map_option (\<lambda>(r, ki, c', h'). (r, case ki of Some k' \<Rightarrow> k' | None \<Rightarrow> k, c', h')) (client_fetch_key os (Some t) (Some k) c h))"

definition tlshub_source_handshake :: "os \<Rightarrow> flow_tuple \<Rightarrow> client_state \<times> hist \<Rightarrow> (int \<times> client_state \<times> hist) option" where
  "tlshub_source_handshake os t = (\<lambda>(c, h). client_handshake os (Some t) c h)"

definition key_provider_get_key ::
  "os \<Rightarrow> ssl_lib \<Rightarrow> flow_tuple option \<Rightarrow> tls_key_info option \<Rightarrow> provider_state \<Rightarrow> hist \<Rightarrow>
     (int \<times> tls_key_info option \<times> provider_state \<times> hist) option"
where
  "key_provider_get_key os lib tuple ki s h =
     (case (tuple, ki) of
        (Some t, Some k) \<Rightarrow>
          (case current_mode s of
             MODE_TLSHUB \<Rightarrow>
               map_option (\<lambda>(r, k', c, h'). (r, Some k', s\<lparr>kp_client := c\<rparr>, h'))
                 (fetch_or_handshake (tlshub_source_fetch os) (tlshub_source_handshake os) t k (kp_client s, h))
           | MODE_OPENSSL \<Rightarrow> (let (r, k', h') = openssl_get_key lib k s h in Some (r, Some k', s, h'))
           | MODE_BORINGSSL \<Rightarrow> (let (r, k', h') = boringssl_get_key lib k s h in Some (r, Some k', s, h'))
           | MODE_OTHER n \<Rightarrow> Some (-1, ki, s, h))
      | _ \<Rightarrow> Some (-1, ki, s, h))"

section \<open>The TLShub client is a key source\<close>

text \<open>
  A record filled over the network: the last calls are the fetch request for the tuple, a receive on the same socket and the
  release of the buffer; the received datagram has status 0 and carries the key.
\<close>

definition hub_filled :: "flow_tuple \<Rightarrow> tls_key_info \<Rightarrow> client_state \<times> hist \<Rightarrow> bool" where
  "hub_filled t k = (\<lambda>(c, h). \<exists>h0 fd a n ret r p.
     h = h0 @ [SendTo fd a (request_bytes n (client_msg TLS_SERVICE_FETCH t)) ret, RecvFrom fd r, Free p] \<and>
     (\<forall>src. r \<noteq> IoData src []) \<and> map (datagram_byte r) [17..<21] = [0, 0, 0, 0] \<and>
     k = \<lparr>tki_key = map (datagram_byte r) [21..<53], tki_iv = replicate 16 0, key_len = 32, iv_len = 12\<rparr>)"

lemma tlshub_source_fetch_ok:
  assumes "tlshub_source_fetch os t k s = Some (0, k', s')"
  shows "hub_filled t k' s'"
proof -
  obtain c h c' h' where s: "s = (c, h)" "s' = (c', h')" by fastforce
  from assms obtain ki where f: "client_fetch_key os (Some t) (Some k) c h = Some (0, ki, c', h')"
    and k': "k' = (case ki of Some k' \<Rightarrow> k' | None \<Rightarrow> k)"
    by (auto simp: tlshub_source_fetch_def s)
  from client_fetch_key_success [OF f] show ?thesis
    by (cases k) (auto simp: hub_filled_def s k' client_fetch_hist_def Let_def simp del: upt_rec_numeral)
qed

lemma tlshub_source_fetch_cases:
  assumes "tlshub_source_fetch os t k s = Some (r, k', s')"
  shows "r = 0 \<or> r = -1" and "r \<noteq> 0 \<Longrightarrow> k' = k"
  using assms by (cases s; auto simp: tlshub_source_fetch_def dest: client_fetch_key_ret)+

interpretation hub: key_source "tlshub_source_fetch os" "tlshub_source_handshake os" hub_filled for os
proof
  fix t s r s' assume "tlshub_source_handshake os t s = Some (r, s')"
  then show "r = 0 \<or> r = -1"
    by (cases s; cases s') (auto simp: tlshub_source_handshake_def dest: client_handshake_ret)
qed (use tlshub_source_fetch_cases tlshub_source_fetch_ok in blast)+

section \<open>What a caller gets\<close>

text \<open>
  A record \<open>k'\<close> filled in a call that started with the record \<open>k\<close> and the history \<open>h\<close> and ended in the state \<open>s'\<close> with the
  history \<open>h'\<close>. In the exporter modes a connection object was made, the exporter returned 1 for the 21-byte label and 64
  bytes, and the object was freed; bytes 0 to 15 and 16 to 27 of the exported material are the key and the IV.
\<close>

definition exporter_filled :: "ssl_lib \<Rightarrow> tls_key_info \<Rightarrow> hist \<Rightarrow> tls_key_info \<Rightarrow> hist \<Rightarrow> bool" where
  "exporter_filled lib k h k' h' \<longleftrightarrow>
     (\<exists>out. SSL_export_keying_material lib (h @ [SslNew True]) (''EXPORTER-TLS-Capture'' @ [CHR 0x00]) 64 = (1, out) \<and>
        h' = h @ [SslNew True, SslExport (''EXPORTER-TLS-Capture'' @ [CHR 0x00]) 64 1, SslFree] \<and>
        k' = \<lparr>tki_key = map out [0..<16] @ drop 16 (tki_key k), tki_iv = map out [16..<28] @ drop 12 (tki_iv k),
              key_len = 16, iv_len = 12\<rparr>)"

definition filled_by ::
  "key_provider_mode \<Rightarrow> ssl_lib \<Rightarrow> flow_tuple \<Rightarrow> tls_key_info \<Rightarrow> hist \<Rightarrow> tls_key_info \<Rightarrow> provider_state \<Rightarrow> hist \<Rightarrow> bool"
where
  "filled_by m lib t k h k' s' h' =
     (case m of
        MODE_TLSHUB \<Rightarrow> hub_filled t k' (kp_client s', h')
      | MODE_OTHER n \<Rightarrow> False
      | _ \<Rightarrow> exporter_filled lib k h k' h')"

lemma hub_filled_wf: "hub_filled t k s \<Longrightarrow> key_info_wf k"
  by (auto simp: hub_filled_def key_info_wf_def)

lemma exporter_label_arg_eq: "exporter_label_arg = ''EXPORTER-TLS-Capture'' @ [CHR 0x00]"
  by (simp add: exporter_label_arg_def exporter_label_def)

lemma exported_parts: "bytes_at 0 16 (map out [0..<64]) = map out [0..<16]" "bytes_at 16 12 (map out [0..<64]) = map out [16..<28]"
  by (simp_all add: bytes_at_def take_map drop_map)

lemma exporter_filled_wf: "exporter_filled lib k h k' h' \<Longrightarrow> key_info_wf k \<Longrightarrow> key_info_wf k'"
  by (auto simp: exporter_filled_def key_info_wf_def)

lemma openssl_get_key_cases:
  assumes "openssl_get_key lib k s h = (r, k', h')"
  shows "r = 0 \<and> exporter_filled lib k h k' h' \<or> r = -1 \<and> k' = k"
  using assms
  by (cases k) (auto simp: openssl_get_key_def exporter_filled_def exporter_label_arg_eq exported_parts put_def Let_def
      simp del: upt_rec_numeral split: if_splits prod.splits)

text \<open>
  Property C7 (get_key_fills_record_or_leaves_it). A call of \<^verbatim>\<open>key_provider_get_key\<close> that returns has one
  of two results, whatever the mode, the peer and the TLS library do: 0, with the record filled, or -1, with the record exactly
  as the caller passed it. Filled means, in TLShub mode, that the fetch request for the caller's tuple was sent, the datagram
  received next has status 0, and its bytes 21 to 52 are the 32-byte key, with an all-zero IV of length 12 (missing bytes, and
  those of a failed receive, are zeros); in the OpenSSL and BoringSSL modes, that the exporter returned 1 and the
  first 16 and the next 12 bytes of its output are now the key and the IV, with these lengths. The array sizes of the record and
  the mode never change.
\<close>

theorem get_key_fills_record_or_leaves_it:
  assumes "key_info_wf k"
    and "key_provider_get_key os lib (Some t) (Some k) s h = Some (r, ki, s', h')"
  shows "\<exists>k'. ki = Some k' \<and> key_info_wf k' \<and> current_mode s' = current_mode s \<and>
           (r = 0 \<and> filled_by (current_mode s) lib t k h k' s' h' \<or> r = -1 \<and> k' = k)"
proof (cases "current_mode s")
  case MODE_TLSHUB
  then obtain k' c where f: "fetch_or_handshake (tlshub_source_fetch os) (tlshub_source_handshake os) t k (kp_client s, h) = Some (r, k', c, h')"
    and eq: "ki = Some k'" "s' = s\<lparr>kp_client := c\<rparr>"
    using assms(2) by (auto simp: key_provider_get_key_def)
  from hub.flow_result [OF f] show ?thesis
    using eq MODE_TLSHUB assms(1) hub_filled_wf by (auto simp: filled_by_def)
qed (use assms in \<open>auto simp: key_provider_get_key_def boringssl_get_key_def filled_by_def split: prod.splits
      dest!: openssl_get_key_cases intro: exporter_filled_wf\<close>)

definition open_provider :: provider_state where
  "open_provider = \<lparr>current_mode = MODE_TLSHUB, ssl_ctx = False, kp_client = open_client\<rparr>"

definition no_ssl :: ssl_lib where
  "no_ssl = \<lparr>SSL_CTX_new = (\<lambda>h. False), SSL_new = (\<lambda>h. False), SSL_export_keying_material = (\<lambda>h l n. (0, \<lambda>i. 0))\<rparr>"

lemma source_fetch_good:
  "\<exists>c h'. tlshub_source_fetch (const_os good_reply) demo_tuple k (open_client, h) =
     Some (0, store_key (replicate 32 9) k, c, h')"
  using client_fetch_key_up [of "const_os good_reply" open_client demo_tuple k h]
  by (auto simp: open_client_def good_reply_datagram tlshub_source_fetch_def store_key_def Let_def simp del: upt_rec_numeral)

lemma get_key_good:
  "\<exists>s' h'. key_provider_get_key (const_os good_reply) no_ssl (Some demo_tuple) (Some k) open_provider h =
     Some (0, Some (store_key (replicate 32 9) k), s', h')"
  using source_fetch_good [of k h]
  by (auto simp: key_provider_get_key_def open_provider_def fetch_or_handshake_def)

text \<open>A library whose exporter delivers the bytes 0 to 63, and a provider in the OpenSSL mode.\<close>

definition demo_ssl :: ssl_lib where
  "demo_ssl = \<lparr>SSL_CTX_new = (\<lambda>h. True), SSL_new = (\<lambda>h. True), SSL_export_keying_material = (\<lambda>h l n. (1, of_nat))\<rparr>"

definition ssl_provider :: provider_state where
  "ssl_provider = \<lparr>current_mode = MODE_OPENSSL, ssl_ctx = True, kp_client = client_start\<rparr>"

theorem get_key_fills_record_or_leaves_it_witness:
  "(\<exists>s' h' k'. key_provider_get_key (const_os good_reply) no_ssl (Some demo_tuple) (Some blank_key_info) open_provider [] =
     Some (0, Some k', s', h') \<and> filled_by MODE_TLSHUB no_ssl demo_tuple blank_key_info [] k' s' h') \<and>
   (\<exists>s' h' k'. key_provider_get_key (const_os good_reply) demo_ssl (Some demo_tuple) (Some blank_key_info) ssl_provider [] =
     Some (0, Some k', s', h') \<and> filled_by MODE_OPENSSL demo_ssl demo_tuple blank_key_info [] k' s' h' \<and> tki_key k' ! 15 = 15)"
proof
  obtain s' h' where g: "key_provider_get_key (const_os good_reply) no_ssl (Some demo_tuple) (Some blank_key_info) open_provider [] =
     Some (0, Some (store_key (replicate 32 9) blank_key_info), s', h')"
    using get_key_good by blast
  show "\<exists>s' h' k'. key_provider_get_key (const_os good_reply) no_ssl (Some demo_tuple) (Some blank_key_info) open_provider [] =
     Some (0, Some k', s', h') \<and> filled_by MODE_TLSHUB no_ssl demo_tuple blank_key_info [] k' s' h'"
    using get_key_fills_record_or_leaves_it [OF blank_key_info_wf g] g by (auto simp: open_provider_def)
next
  let ?k = "\<lparr>tki_key = map of_nat [0..<16] @ drop 16 (tki_key blank_key_info), tki_iv = map of_nat [16..<28] @ drop 12 (tki_iv blank_key_info),
    key_len = 16, iv_len = 12\<rparr>"
  obtain h' where g: "key_provider_get_key (const_os good_reply) demo_ssl (Some demo_tuple) (Some blank_key_info) ssl_provider [] =
     Some (0, Some ?k, ssl_provider, h')"
    by (cases blank_key_info) (simp add: key_provider_get_key_def ssl_provider_def openssl_get_key_def demo_ssl_def Let_def
        exported_parts put_def del: upt_rec_numeral)
  have "tki_key ?k ! 15 = 15" by (simp add: nth_append)
  then show "\<exists>s' h' k'. key_provider_get_key (const_os good_reply) demo_ssl (Some demo_tuple) (Some blank_key_info) ssl_provider [] =
     Some (0, Some k', s', h') \<and> filled_by MODE_OPENSSL demo_ssl demo_tuple blank_key_info [] k' s' h' \<and> tki_key k' ! 15 = 15"
    using get_key_fills_record_or_leaves_it [OF blank_key_info_wf g] g by (auto simp: ssl_provider_def)
qed

text \<open>
  Remark (get_key_tlshub_succeeds_iff). In TLShub mode a key is obtained exactly in two ways: the first
  fetch succeeds, or it fails, a handshake succeeds, and the fetch after it succeeds. There
  is no third attempt and no success without a successful fetch.
\<close>

theorem get_key_tlshub_succeeds_iff:
  assumes "current_mode s = MODE_TLSHUB"
  shows "(\<exists>ki s' h'. key_provider_get_key os lib (Some t) (Some k) s h = Some (0, ki, s', h')) \<longleftrightarrow>
     (\<exists>ki c h'. client_fetch_key os (Some t) (Some k) (kp_client s) h = Some (0, ki, c, h')) \<or>
     (\<exists>c1 h1 c2 h2 ki c3 h3. client_fetch_key os (Some t) (Some k) (kp_client s) h = Some (-1, Some k, c1, h1) \<and>
        client_handshake os (Some t) c1 h1 = Some (0, c2, h2) \<and>
        client_fetch_key os (Some t) (Some k) c2 h2 = Some (0, ki, c3, h3))"
proof -
  have fail: "(\<exists>k'. tlshub_source_fetch os t k (c, h) = Some (-1, k', c', h')) \<longleftrightarrow>
      client_fetch_key os (Some t) (Some k) c h = Some (-1, Some k, c', h')" for c h c' h'
    using client_fetch_key_ret(2) by (fastforce simp: tlshub_source_fetch_def)
  have fail': "tlshub_source_fetch os t k (c, h) = Some (-1, k, c', h') \<longleftrightarrow>
      client_fetch_key os (Some t) (Some k) c h = Some (-1, Some k, c', h')" for c h c' h'
    using fail [of c h c' h'] tlshub_source_fetch_cases(2) [of os t k "(c, h)" "-1" _ "(c', h')"] by auto
  have ok: "(\<exists>k' s'. tlshub_source_fetch os t k (c, h) = Some (0, k', s')) \<longleftrightarrow>
      (\<exists>ki c' h'. client_fetch_key os (Some t) (Some k) c h = Some (0, ki, c', h'))" for c h
    by (auto simp: tlshub_source_fetch_def)
  have "(\<exists>ki s' h'. key_provider_get_key os lib (Some t) (Some k) s h = Some (0, ki, s', h')) \<longleftrightarrow>
      (\<exists>k' s'. fetch_or_handshake (tlshub_source_fetch os) (tlshub_source_handshake os) t k (kp_client s, h) = Some (0, k', s'))"
    using assms by (auto simp: key_provider_get_key_def)
  also have "\<dots> \<longleftrightarrow> (\<exists>k' s'. tlshub_source_fetch os t k (kp_client s, h) = Some (0, k', s')) \<or>
      (\<exists>c1 h1 c2 h2. client_fetch_key os (Some t) (Some k) (kp_client s) h = Some (-1, Some k, c1, h1) \<and>
         client_handshake os (Some t) c1 h1 = Some (0, c2, h2) \<and>
         (\<exists>k' s3. tlshub_source_fetch os t k (c2, h2) = Some (0, k', s3)))"
    unfolding hub.flow_ok_iff by (auto simp: fail' tlshub_source_handshake_def)
  finally show ?thesis unfolding ok by blast
qed

theorem get_key_tlshub_succeeds_iff_witness:
  "current_mode open_provider = MODE_TLSHUB \<and>
   (\<exists>ki s' h'. key_provider_get_key (const_os good_reply) no_ssl (Some demo_tuple) (Some blank_key_info) open_provider [] = Some (0, ki, s', h'))"
proof -
  have m: "current_mode open_provider = MODE_TLSHUB" "kp_client open_provider = open_client" by (simp_all add: open_provider_def)
  have "\<exists>ki c h'. client_fetch_key (const_os good_reply) (Some demo_tuple) (Some blank_key_info) open_client [] = Some (0, ki, c, h')"
    using source_fetch_good [of blank_key_info "[]"] by (auto simp: tlshub_source_fetch_def)
  then show ?thesis
    using get_key_tlshub_succeeds_iff [OF m(1), of "const_os good_reply" no_ssl demo_tuple blank_key_info "[]"] m by simp
qed

section \<open>The exporter modes\<close>

text \<open>
  Remark (openssl_key_is_exported_material). The OpenSSL provider succeeds exactly when a context exists,
  a connection object can be made and the exporter returns 1; the key is then bytes 0 to 15 of the 64
  exported bytes and the IV bytes 16 to 27, the rest of both arrays being kept. Every connection object made
  is freed before the function returns, and the exporter is asked for a 21-byte label: the documented
  \<^verbatim>\<open>EXPORTER-TLS-Capture\<close> and a zero byte.
\<close>

theorem openssl_key_is_exported_material:
  "\<exists>es. openssl_get_key lib k s h =
     (let h1 = h @ [SslNew True];
          (ret, out) = SSL_export_keying_material lib h1 (''EXPORTER-TLS-Capture'' @ [CHR 0x00]) 64
      in (if ssl_ctx s \<and> SSL_new lib h \<and> ret = 1
          then (0, k\<lparr>tki_key := map out [0..<16] @ drop 16 (tki_key k), tki_iv := map out [16..<28] @ drop 12 (tki_iv k),
                     key_len := 16, iv_len := 12\<rparr>, h @ es)
          else (-1, k, h @ es))) \<and>
     count_list es (SslNew True) = count_list es SslFree"
proof -
  obtain ret out where e: "SSL_export_keying_material lib (h @ [SslNew True]) exporter_label_arg 64 = (ret, out)"
    by fastforce
  define es where "es = (if \<not> ssl_ctx s then [] else if \<not> SSL_new lib h then [SslNew False]
      else [SslNew True, SslExport exporter_label_arg 64 ret, SslFree])"
  have "count_list es (SslNew True) = count_list es SslFree" by (simp add: es_def)
  moreover have "openssl_get_key lib k s h =
      (if ssl_ctx s \<and> SSL_new lib h \<and> ret = 1
       then (0, k\<lparr>tki_key := map out [0..<16] @ drop 16 (tki_key k), tki_iv := map out [16..<28] @ drop 12 (tki_iv k),
                  key_len := 16, iv_len := 12\<rparr>, h @ es)
       else (-1, k, h @ es))"
    using e by (cases "SSL_new lib h") (simp_all add: openssl_get_key_def es_def Let_def put_def exported_parts del: upt_rec_numeral)
  ultimately show ?thesis unfolding exporter_label_arg_eq [symmetric] Let_def e prod.case by blast
qed

section \<open>Changing the mode\<close>

text \<open>
  Remark (mode_switch_strands_client_socket). Changing the mode with \<^verbatim>\<open>key_provider_set_mode\<close> after a
  successful TLShub initialisation initialises nothing: every later request for a key fails, and
  the clean-up, which looks at the new mode only, leaves the client's socket open.
\<close>

theorem mode_switch_strands_client_socket:
  assumes "-1 \<le> os_socket os h0"
    and "key_provider_init os lib MODE_TLSHUB provider_start h0 = Some (0, s, h)"
    and "m = MODE_OPENSSL \<or> m = MODE_BORINGSSL"
  defines "s' \<equiv> key_provider_set_mode m s"
  shows "key_provider_get_mode s' = m \<and>
         (\<forall>t k. key_provider_get_key os lib t k s' h = Some (-1, k, s', h)) \<and>
         key_provider_cleanup s' h = (s', h) \<and>
         (\<exists>fd. fd_balance h = (fd_balance h0)(fd := fd_balance h0 fd + 1))"
proof -
  from assms(2) obtain c where i: "tlshub_client_init os client_start h0 = Some (0, c, h)" and s: "s = provider_start\<lparr>kp_client := c\<rparr>"
    by (auto simp: key_provider_init_def provider_start_def)
  have "client_owns h0 (c, h)" "0 \<le> netlink_sock c" using tlshub_client_init_owns [OF i assms(1)] by auto
  then have "fd_balance h = (fd_balance h0)(netlink_sock c := fd_balance h0 (netlink_sock c) + 1)"
    by (auto simp: client_owns_def fun_eq_iff)
  moreover have "\<not> ssl_ctx s'" "current_mode s' = m" by (simp_all add: s'_def s key_provider_set_mode_def provider_start_def)
  ultimately show ?thesis using assms(3)
    by (auto simp: key_provider_get_mode_def key_provider_get_key_def key_provider_cleanup_def boringssl_get_key_def
        openssl_get_key_def split: option.splits)
qed

lemma init_const_ok:
  "\<exists>s h'. key_provider_init (const_os (IoData kernel_addr (reply_bytes (reply_hdr 17) 7 []))) no_ssl MODE_TLSHUB provider_start h = Some (0, s, h')"
  by (simp add: key_provider_init_def provider_start_def tlshub_client_init_def client_start_def Let_def recv_loop_const
      verdict_reply client_init_switch_def)

theorem mode_switch_strands_client_socket_witness:
  "\<exists>s h fd. key_provider_init (const_os (IoData kernel_addr (reply_bytes (reply_hdr 17) 7 []))) no_ssl MODE_TLSHUB provider_start [] = Some (0, s, h) \<and>
     fd_balance (snd (key_provider_cleanup (key_provider_set_mode MODE_OPENSSL s) h)) fd = 1"
proof -
  obtain s h where i: "key_provider_init (const_os (IoData kernel_addr (reply_bytes (reply_hdr 17) 7 []))) no_ssl MODE_TLSHUB provider_start [] = Some (0, s, h)"
    using init_const_ok by blast
  have "\<exists>fd. fd_balance (snd (key_provider_cleanup (key_provider_set_mode MODE_OPENSSL s) h)) fd = 1"
    using mode_switch_strands_client_socket [OF _ i, of MODE_OPENSSL] by (auto simp: balance)
  then show ?thesis using i by blast
qed

section \<open>From a fetched key to the kernel\<close>

text \<open>
  Property C21 (hub_key_installed_with_zero_nonce). A key obtained from TLShub and handed to
  \<^verbatim>\<open>configure_ktls\<close> is installed as AES-GCM-128 with the first 16 of the 32 master-key bytes, an all-zero
  salt, an all-zero nonce and record number 0, the same block for sending and for receiving.
\<close>

theorem hub_key_installed_with_zero_nonce:
  assumes "current_mode s = MODE_TLSHUB"
    and "key_provider_get_key os lib (Some t) (Some k) s h = Some (0, Some k', s', h')"
    and "configure_ktls os fd k' h' = (0, h'')"
  shows "\<exists>r0 r1 r2. h'' = h' @ [SetSockOpt fd ''TCP_ULP'' ulp_name r0,
           SetSockOpt fd ''TLS_TX'' ([3, 3, 51, 0] @ replicate 8 0 @ take 16 (tki_key k') @ replicate 12 0) r1,
           SetSockOpt fd ''TLS_RX'' ([3, 3, 51, 0] @ replicate 8 0 @ take 16 (tki_key k') @ replicate 12 0) r2]"
proof -
  from assms(1,2) obtain c where f: "fetch_or_handshake (tlshub_source_fetch os) (tlshub_source_handshake os) t k (kp_client s, h) = Some (0, k', c, h')"
    by (auto simp: key_provider_get_key_def)
  from hub.flow_result [OF f] have "hub_filled t k' (c, h')" by simp
  then obtain r where "k' = \<lparr>tki_key = map (datagram_byte r) [21..<53], tki_iv = replicate 16 0, key_len = 32, iv_len = 12\<rparr>"
    by (auto simp: hub_filled_def)
  then have "crypto_info_bytes (ktls_crypto_info k') = [3, 3, 51, 0] @ replicate 8 0 @ take 16 (tki_key k') @ replicate 12 0"
    by (simp add: crypto_info_bytes_def ktls_crypto_info_def Let_def bytes_at_def TLS_1_2_VERSION_def
        TLS_CIPHER_AES_GCM_128_def le16_two flip: replicate_add)
  then show ?thesis
    using assms(3) by (auto simp: configure_ktls_def enable_ktls_tx_def enable_ktls_rx_def Let_def split: if_splits)
qed

theorem hub_key_installed_with_zero_nonce_witness:
  "\<exists>k' s' h'. key_provider_get_key (const_os good_reply) no_ssl (Some demo_tuple) (Some blank_key_info) open_provider [] = Some (0, Some k', s', h') \<and>
     (\<exists>r. SetSockOpt 4 ''TLS_TX'' ([3, 3, 51, 0] @ replicate 8 0 @ replicate 16 9 @ replicate 12 0) r
        \<in> set (snd (configure_ktls (const_os good_reply) 4 k' h')))"
proof -
  let ?k = "store_key (replicate 32 9) blank_key_info"
  obtain s' h' where g: "key_provider_get_key (const_os good_reply) no_ssl (Some demo_tuple) (Some blank_key_info) open_provider [] =
     Some (0, Some ?k, s', h')"
    using get_key_good by blast
  have m: "current_mode open_provider = MODE_TLSHUB" by (simp add: open_provider_def)
  obtain h'' where c: "configure_ktls (const_os good_reply) 4 ?k h' = (0, h'')"
    by (simp add: configure_ktls_def enable_ktls_tx_def enable_ktls_rx_def const_os_def Let_def)
  have "take 16 (tki_key ?k) = replicate 16 9" by (simp add: store_key_def)
  then show ?thesis using hub_key_installed_with_zero_nonce [OF m g c] g c by fastforce
qed

end
