(* ===== verification/Perf_Metrics.thy ===== *)
theory Perf_Metrics
  imports Netlink_Wait CLib
begin

text \<open>
  The performance metrics of the capture program, \<^verbatim>\<open>capture/src/performance_metrics.c\<close> and its header: a
  context with one slot per tracked connection, counters, system figures read from \<^verbatim>\<open>/proc\<close>, a summary and
  the JSON and CSV exports. The C type \<^verbatim>\<open>double\<close> is modelled by real numbers, so rounding is not visible;
  unsigned integers keep their width.
\<close>

section \<open>Data\<close>

record timepoint =
  tp_start :: timespec
  tp_end :: timespec
  duration_ns :: u64

record connection_metrics =
  connection_id :: u64
  connection_latency :: timepoint
  key_negotiation :: timepoint
  bytes_sent :: u64
  bytes_received :: u64
  throughput_mbps :: real
  first_data_time :: timespec
  last_data_time :: timespec

record system_metrics =
  cpu_usage_percent :: real
  memory_usage_kb :: u64
  memory_rss_kb :: u64
  memory_vms_kb :: u64
  active_connections :: u32
  measurement_time :: timespec

record performance_stats =
  total_connections :: u64
  successful_connections :: u64
  failed_connections :: u64
  avg_connection_latency_ms :: real
  min_connection_latency_ms :: real
  max_connection_latency_ms :: real
  avg_key_negotiation_ms :: real
  min_key_negotiation_ms :: real
  max_key_negotiation_ms :: real
  avg_throughput_mbps :: real
  max_throughput_mbps :: real
  total_bytes_transferred :: u64
  avg_cpu_usage :: real
  peak_cpu_usage :: real
  avg_memory_usage_kb :: u64
  peak_memory_usage_kb :: u64

record cpu_stat =
  cs_user :: u64
  cs_nice :: u64
  cs_system :: u64
  cs_idle :: u64
  cs_iowait :: u64
  cs_irq :: u64
  cs_softirq :: u64

record perf_metrics_ctx =
  conn_metrics :: "connection_metrics list"
  max_connections :: u32
  current_connections :: u32
  sys_metrics :: system_metrics
  pm_stats :: performance_stats
  start_time :: timespec
  monitoring_enabled :: bool
  prev_cpu_stat :: cpu_stat
  cpu_first_call :: bool

definition zero_time :: timespec where
  "zero_time = \<lparr>tv_sec = 0, tv_nsec = 0\<rparr>"

definition zero_timepoint :: timepoint where
  "zero_timepoint = \<lparr>tp_start = zero_time, tp_end = zero_time, duration_ns = 0\<rparr>"

definition zero_conn :: connection_metrics where
  "zero_conn = \<lparr>connection_id = 0, connection_latency = zero_timepoint, key_negotiation = zero_timepoint, bytes_sent = 0,
     bytes_received = 0, throughput_mbps = 0, first_data_time = zero_time, last_data_time = zero_time\<rparr>"

definition zero_system :: system_metrics where
  "zero_system = \<lparr>cpu_usage_percent = 0, memory_usage_kb = 0, memory_rss_kb = 0, memory_vms_kb = 0, active_connections = 0,
     measurement_time = zero_time\<rparr>"

definition zero_stats :: performance_stats where
  "zero_stats = \<lparr>total_connections = 0, successful_connections = 0, failed_connections = 0, avg_connection_latency_ms = 0,
     min_connection_latency_ms = 0, max_connection_latency_ms = 0, avg_key_negotiation_ms = 0, min_key_negotiation_ms = 0,
     max_key_negotiation_ms = 0, avg_throughput_mbps = 0, max_throughput_mbps = 0, total_bytes_transferred = 0,
     avg_cpu_usage = 0, peak_cpu_usage = 0, avg_memory_usage_kb = 0, peak_memory_usage_kb = 0\<rparr>"

definition zero_cpu :: cpu_stat where
  "zero_cpu = \<lparr>cs_user = 0, cs_nice = 0, cs_system = 0, cs_idle = 0, cs_iowait = 0, cs_irq = 0, cs_softirq = 0\<rparr>"

section \<open>Time\<close>

text \<open>\<^verbatim>\<open>(__u64)tv_sec * 1000000000ULL + tv_nsec\<close>, in 64-bit arithmetic.\<close>

definition timespec_ns :: "timespec \<Rightarrow> u64" where
  "timespec_ns t = of_int (tv_sec t) * 1000000000 + of_int (tv_nsec t)"

definition perf_get_time_ns :: "os \<Rightarrow> hist \<Rightarrow> u64 \<times> hist" where
  "perf_get_time_ns os h = (let t = os_clock os h CLOCK_MONOTONIC in (timespec_ns t, h @ [Clock CLOCK_MONOTONIC t]))"

definition perf_time_diff_ns :: "timespec \<Rightarrow> timespec \<Rightarrow> u64" where
  "perf_time_diff_ns s e = timespec_ns e - timespec_ns s"

definition perf_ns_to_ms :: "u64 \<Rightarrow> real" where
  "perf_ns_to_ms ns = real (unat ns) / 1000000"

definition perf_timepoint_start :: "os \<Rightarrow> timepoint \<Rightarrow> hist \<Rightarrow> timepoint \<times> hist" where
  "perf_timepoint_start os tp h =
     (let t = os_clock os h CLOCK_MONOTONIC in (tp\<lparr>tp_start := t\<rparr>, h @ [Clock CLOCK_MONOTONIC t]))"

definition perf_timepoint_end :: "os \<Rightarrow> timepoint \<Rightarrow> hist \<Rightarrow> timepoint \<times> hist" where
  "perf_timepoint_end os tp h =
     (let t = os_clock os h CLOCK_MONOTONIC; tp1 = tp\<lparr>tp_end := t\<rparr>
      in (tp1\<lparr>duration_ns := perf_time_diff_ns (tp_start tp1) (tp_end tp1)\<rparr>, h @ [Clock CLOCK_MONOTONIC t]))"

section \<open>System figures\<close>

text \<open>\<^verbatim>\<open>read_cpu_stat\<close>: \<open>None\<close> is the result -1.\<close>

definition parse_cpu_line :: "string \<Rightarrow> cpu_stat option" where
  "parse_cpu_line line =
     (case match_lit ''cpu'' line of
        None \<Rightarrow> None
      | Some r \<Rightarrow>
          (case scan_ulls 7 r of
             [u, n, s, i, w, q, sq] \<Rightarrow>
               Some \<lparr>cs_user = u, cs_nice = n, cs_system = s, cs_idle = i, cs_iowait = w, cs_irq = q, cs_softirq = sq\<rparr>
           | _ \<Rightarrow> None))"

definition read_cpu_stat :: "os \<Rightarrow> hist \<Rightarrow> cpu_stat option \<times> hist" where
  "read_cpu_stat os h =
     (case os_fopen os h ''/proc/stat'' of
        None \<Rightarrow> (None, h @ [FOpen ''/proc/stat'' False])
      | Some s \<Rightarrow>
          (let h1 = h @ [FOpen ''/proc/stat'' True] in
           case fgets 256 s of
             None \<Rightarrow> (None, h1 @ [FClose])
           | Some (buf, rest) \<Rightarrow> (parse_cpu_line (c_str buf), h1 @ [FClose])))"

definition cpu_total :: "cpu_stat \<Rightarrow> u64" where
  "cpu_total c = cs_user c + cs_nice c + cs_system c + cs_idle c + cs_iowait c + cs_irq c + cs_softirq c"

definition cpu_idle :: "cpu_stat \<Rightarrow> u64" where
  "cpu_idle c = cs_idle c + cs_iowait c"

definition calculate_cpu_usage :: "cpu_stat \<Rightarrow> cpu_stat \<Rightarrow> real" where
  "calculate_cpu_usage prev now =
     (let total_diff = cpu_total now - cpu_total prev; idle_diff = cpu_idle now - cpu_idle prev
      in if total_diff = 0 then 0 else real (unat (total_diff - idle_diff)) * 100 / real (unat total_diff))"

text \<open>\<^verbatim>\<open>read_memory_usage\<close>: one line of \<^verbatim>\<open>/proc/self/status\<close>, and the loop over the lines.\<close>

definition status_line :: "u64 \<times> u64 \<Rightarrow> string \<Rightarrow> u64 \<times> u64" where
  "status_line = (\<lambda>(rss, vms) line.
     if take 6 line = ''VmRSS:'' then (case scan_ull (drop 6 line) of Some (v, _) \<Rightarrow> (v, vms) | None \<Rightarrow> (rss, vms))
     else if take 7 line = ''VmSize:'' then (case scan_ull (drop 7 line) of Some (v, _) \<Rightarrow> (rss, v) | None \<Rightarrow> (rss, vms))
     else (rss, vms))"

definition read_memory_usage :: "os \<Rightarrow> hist \<Rightarrow> (u64 \<times> u64) option \<times> hist" where
  "read_memory_usage os h =
     (case os_fopen os h ''/proc/self/status'' of
        None \<Rightarrow> (None, h @ [FOpen ''/proc/self/status'' False])
      | Some s \<Rightarrow> (Some (foldl status_line (0, 0) (chunks 256 s)), h @ [FOpen ''/proc/self/status'' True, FClose]))"

section \<open>Life cycle\<close>

definition perf_ctx_size :: nat where "perf_ctx_size = 288"
definition connection_metrics_size :: nat where "connection_metrics_size = 144"

text \<open>The context and its array are two blocks; the pointers to them are kept beside the record.\<close>

definition perf_metrics_init :: "os \<Rightarrow> u32 \<Rightarrow> hist \<Rightarrow> (ptr \<times> ptr \<times> perf_metrics_ctx) option \<times> hist" where
  "perf_metrics_init os mx h =
     (let p = os_malloc os h perf_ctx_size; h1 = h @ [Malloc perf_ctx_size p] in
      if p = NULL then (None, h1)
      else
        let n = unat mx * connection_metrics_size; q = os_malloc os h1 n; h2 = h1 @ [Malloc n q] in
        if q = NULL then (None, h2 @ [Free p])
        else
          let t = os_clock os h2 CLOCK_MONOTONIC in
          (Some (p, q,
             \<lparr>conn_metrics = replicate (unat mx) zero_conn, max_connections = mx, current_connections = 0,
              sys_metrics = zero_system,
              pm_stats = zero_stats\<lparr>min_connection_latency_ms := 999999, min_key_negotiation_ms := 999999\<rparr>,
              start_time = t, monitoring_enabled = True, prev_cpu_stat = zero_cpu, cpu_first_call = True\<rparr>),
           h2 @ [Clock CLOCK_MONOTONIC t]))"

definition perf_metrics_cleanup :: "ptr \<Rightarrow> ptr \<Rightarrow> hist \<Rightarrow> hist" where
  "perf_metrics_cleanup p q h =
     (if p = NULL then h else if q \<noteq> NULL then h @ [Free q, Free p] else h @ [Free p])"

definition perf_metrics_set_enabled :: "bool \<Rightarrow> perf_metrics_ctx \<Rightarrow> perf_metrics_ctx" where
  "perf_metrics_set_enabled enabled ctx = ctx\<lparr>monitoring_enabled := enabled\<rparr>"

section \<open>Recording\<close>

text \<open>
  The slot number is the C \<^verbatim>\<open>int\<close> made from the unsigned counter, negative from 2 to the 31 on. Every access to a slot of
  the array is checked: one outside the array is a fault.
\<close>

definition perf_metrics_connection_start :: "u64 \<Rightarrow> perf_metrics_ctx \<Rightarrow> (int \<times> perf_metrics_ctx) outcome" where
  "perf_metrics_connection_start cid ctx =
     (if \<not> monitoring_enabled ctx then Ret (-1, ctx)
      else if current_connections ctx \<ge> max_connections ctx then Ret (-1, ctx)
      else
        let index = sint (current_connections ctx);
            ctx1 = ctx\<lparr>current_connections := current_connections ctx + 1\<rparr>
        in if index < 0 \<or> length (conn_metrics ctx) \<le> nat index then Fault
           else Ret (index,
             ctx1\<lparr>conn_metrics := (conn_metrics ctx)[nat index := zero_conn\<lparr>connection_id := cid\<rparr>],
                  pm_stats := (pm_stats ctx)\<lparr>total_connections := total_connections (pm_stats ctx) + 1\<rparr>,
                  sys_metrics := (sys_metrics ctx)\<lparr>active_connections := active_connections (sys_metrics ctx) + 1\<rparr>\<rparr>))"

definition tracked :: "perf_metrics_ctx \<Rightarrow> int \<Rightarrow> bool" where
  "tracked ctx i \<longleftrightarrow> monitoring_enabled ctx \<and> 0 \<le> i \<and> i < sint (current_connections ctx)"

definition upd_conn :: "int \<Rightarrow> connection_metrics \<Rightarrow> perf_metrics_ctx \<Rightarrow> perf_metrics_ctx" where
  "upd_conn i cm ctx = ctx\<lparr>conn_metrics := (conn_metrics ctx)[nat i := cm]\<rparr>"

definition with_slot ::
  "int \<Rightarrow> (connection_metrics \<Rightarrow> hist \<Rightarrow> connection_metrics \<times> hist) \<Rightarrow> perf_metrics_ctx \<Rightarrow> hist \<Rightarrow> (perf_metrics_ctx \<times> hist) outcome"
where
  "with_slot i f ctx h =
     (if i < 0 \<or> length (conn_metrics ctx) \<le> nat i then Fault
      else let (cm, h') = f (conn_metrics ctx ! nat i) h in Ret (upd_conn i cm ctx, h'))"

definition perf_metrics_connection_latency_start :: "os \<Rightarrow> int \<Rightarrow> perf_metrics_ctx \<Rightarrow> hist \<Rightarrow> (perf_metrics_ctx \<times> hist) outcome" where
  "perf_metrics_connection_latency_start os i ctx h =
     (if \<not> tracked ctx i then Ret (ctx, h)
      else with_slot i (\<lambda>cm h. let (tp, h') = perf_timepoint_start os (connection_latency cm) h in (cm\<lparr>connection_latency := tp\<rparr>, h')) ctx h)"

definition perf_metrics_connection_latency_end :: "os \<Rightarrow> int \<Rightarrow> perf_metrics_ctx \<Rightarrow> hist \<Rightarrow> (perf_metrics_ctx \<times> hist) outcome" where
  "perf_metrics_connection_latency_end os i ctx h =
     (if \<not> tracked ctx i then Ret (ctx, h)
      else with_slot i (\<lambda>cm h. let (tp, h') = perf_timepoint_end os (connection_latency cm) h in (cm\<lparr>connection_latency := tp\<rparr>, h')) ctx h)"

definition perf_metrics_key_negotiation_start :: "os \<Rightarrow> int \<Rightarrow> perf_metrics_ctx \<Rightarrow> hist \<Rightarrow> (perf_metrics_ctx \<times> hist) outcome" where
  "perf_metrics_key_negotiation_start os i ctx h =
     (if \<not> tracked ctx i then Ret (ctx, h)
      else with_slot i (\<lambda>cm h. let (tp, h') = perf_timepoint_start os (key_negotiation cm) h in (cm\<lparr>key_negotiation := tp\<rparr>, h')) ctx h)"

definition perf_metrics_key_negotiation_end :: "os \<Rightarrow> int \<Rightarrow> perf_metrics_ctx \<Rightarrow> hist \<Rightarrow> (perf_metrics_ctx \<times> hist) outcome" where
  "perf_metrics_key_negotiation_end os i ctx h =
     (if \<not> tracked ctx i then Ret (ctx, h)
      else with_slot i (\<lambda>cm h. let (tp, h') = perf_timepoint_end os (key_negotiation cm) h in (cm\<lparr>key_negotiation := tp\<rparr>, h')) ctx h)"

definition record_transfer :: "os \<Rightarrow> u64 \<Rightarrow> u64 \<Rightarrow> connection_metrics \<Rightarrow> hist \<Rightarrow> connection_metrics \<times> hist" where
  "record_transfer os sent received cm h =
     (let (cm1, h1) =
            (if bytes_sent cm = 0 \<and> bytes_received cm = 0
             then let t = os_clock os h CLOCK_MONOTONIC in (cm\<lparr>first_data_time := t\<rparr>, h @ [Clock CLOCK_MONOTONIC t])
             else (cm, h));
          t' = os_clock os h1 CLOCK_MONOTONIC;
          cm2 = cm1\<lparr>bytes_sent := bytes_sent cm1 + sent, bytes_received := bytes_received cm1 + received, last_data_time := t'\<rparr>;
          total_bytes = bytes_sent cm2 + bytes_received cm2;
          time_diff_ns = perf_time_diff_ns (first_data_time cm2) (last_data_time cm2);
          time_seconds = real (unat time_diff_ns) / 1000000000
      in (if time_diff_ns > 100000000
          then cm2\<lparr>throughput_mbps := (real (unat total_bytes) * 8) / (time_seconds * 1000000)\<rparr> else cm2,
          h1 @ [Clock CLOCK_MONOTONIC t']))"

definition perf_metrics_record_data_transfer ::
  "os \<Rightarrow> int \<Rightarrow> u64 \<Rightarrow> u64 \<Rightarrow> perf_metrics_ctx \<Rightarrow> hist \<Rightarrow> (perf_metrics_ctx \<times> hist) outcome"
where
  "perf_metrics_record_data_transfer os i sent received ctx h =
     (if \<not> tracked ctx i then Ret (ctx, h) else with_slot i (record_transfer os sent received) ctx h)"

definition perf_metrics_connection_end :: "int \<Rightarrow> bool \<Rightarrow> perf_metrics_ctx \<Rightarrow> perf_metrics_ctx" where
  "perf_metrics_connection_end i success ctx =
     (if \<not> tracked ctx i then ctx
      else
        let st = pm_stats ctx;
            ctx1 = (if success then ctx\<lparr>pm_stats := st\<lparr>successful_connections := successful_connections st + 1\<rparr>\<rparr>
                    else ctx\<lparr>pm_stats := st\<lparr>failed_connections := failed_connections st + 1\<rparr>\<rparr>);
            a = active_connections (sys_metrics ctx1)
        in if a > 0 then ctx1\<lparr>sys_metrics := (sys_metrics ctx1)\<lparr>active_connections := a - 1\<rparr>\<rparr> else ctx1)"

definition update_cpu :: "cpu_stat \<Rightarrow> perf_metrics_ctx \<Rightarrow> perf_metrics_ctx" where
  "update_cpu now ctx =
     (let ctx1 =
            (if \<not> cpu_first_call ctx then
               let u = calculate_cpu_usage (prev_cpu_stat ctx) now;
                   c = ctx\<lparr>sys_metrics := (sys_metrics ctx)\<lparr>cpu_usage_percent := u\<rparr>\<rparr>
               in if u > peak_cpu_usage (pm_stats c) then c\<lparr>pm_stats := (pm_stats c)\<lparr>peak_cpu_usage := u\<rparr>\<rparr> else c
             else ctx\<lparr>cpu_first_call := False, sys_metrics := (sys_metrics ctx)\<lparr>cpu_usage_percent := 0\<rparr>\<rparr>)
      in ctx1\<lparr>prev_cpu_stat := now\<rparr>)"

definition update_memory :: "u64 \<Rightarrow> u64 \<Rightarrow> perf_metrics_ctx \<Rightarrow> perf_metrics_ctx" where
  "update_memory rss vms ctx =
     (let ctx1 = ctx\<lparr>sys_metrics := (sys_metrics ctx)\<lparr>memory_rss_kb := rss, memory_vms_kb := vms, memory_usage_kb := rss\<rparr>\<rparr>
      in if rss > peak_memory_usage_kb (pm_stats ctx1) then ctx1\<lparr>pm_stats := (pm_stats ctx1)\<lparr>peak_memory_usage_kb := rss\<rparr>\<rparr> else ctx1)"

definition perf_metrics_update_system :: "os \<Rightarrow> perf_metrics_ctx \<Rightarrow> hist \<Rightarrow> int \<times> perf_metrics_ctx \<times> hist" where
  "perf_metrics_update_system os ctx h =
     (if \<not> monitoring_enabled ctx then (-1, ctx, h)
      else
        case read_cpu_stat os h of
          (None, h1) \<Rightarrow> (-1, ctx, h1)
        | (Some now, h1) \<Rightarrow>
            (let ctx1 = update_cpu now ctx in
             case read_memory_usage os h1 of
               (None, h2) \<Rightarrow> (-1, ctx1, h2)
             | (Some (rss, vms), h2) \<Rightarrow>
                 (let t = os_clock os h2 CLOCK_MONOTONIC; ctx2 = update_memory rss vms ctx1
                  in (0, ctx2\<lparr>sys_metrics := (sys_metrics ctx2)\<lparr>measurement_time := t\<rparr>\<rparr>, h2 @ [Clock CLOCK_MONOTONIC t]))))"

end
