(* ===== verification/Perf_Recording.thy ===== *)
theory Perf_Recording
  imports Perf_Metrics
begin

text \<open>
  What the recording functions of the performance metrics guarantee: the context stays well-formed under
  every sequence of calls, time spans and CPU figures are exact on well-behaved inputs, and counters agree.
\<close>

section \<open>The context invariant\<close>

definition perf_inv :: "perf_metrics_ctx \<Rightarrow> bool" where
  "perf_inv ctx \<longleftrightarrow>
     length (conn_metrics ctx) = unat (max_connections ctx) \<and> unat (max_connections ctx) < 2147483648 \<and>
     current_connections ctx \<le> max_connections ctx \<and>
     unat (total_connections (pm_stats ctx)) = unat (current_connections ctx) \<and>
     active_connections (sys_metrics ctx) \<le> current_connections ctx"

lemma perf_invD:
  assumes "perf_inv ctx"
  shows "sint (current_connections ctx) = uint (current_connections ctx)"
    "unat (current_connections ctx) \<le> length (conn_metrics ctx)" "length (conn_metrics ctx) < 2147483648"
  using assms sint_u32_small [of "current_connections ctx"] by (auto simp: perf_inv_def word_le_nat_alt)

lemma tracked_index:
  "perf_inv ctx \<Longrightarrow> tracked ctx i \<Longrightarrow> nat i < unat (current_connections ctx) \<and> nat i < length (conn_metrics ctx)"
proof -
  assume inv: "perf_inv ctx" and "tracked ctx i"
  then have "0 \<le> i" "i < uint (current_connections ctx)" using perf_invD(1) by (auto simp: tracked_def)
  then have "int (nat i) < int (unat (current_connections ctx))" by simp
  then have "nat i < unat (current_connections ctx)" by (simp only: of_nat_less_iff)
  then show ?thesis using perf_invD(2) [OF inv] by simp
qed

lemma perf_inv_upd_conn [simp]: "perf_inv (upd_conn i cm ctx) = perf_inv ctx"
  by (simp add: perf_inv_def upd_conn_def)

lemma with_slot_Ret:
  "with_slot i f ctx h = Ret (ctx', h') \<longleftrightarrow>
     0 \<le> i \<and> nat i < length (conn_metrics ctx) \<and> (\<exists>cm. f (conn_metrics ctx ! nat i) h = (cm, h') \<and> ctx' = upd_conn i cm ctx)"
  by (auto simp: with_slot_def split: prod.splits)

lemma tracked_slot:
  assumes "perf_inv ctx" and "tracked ctx i"
  shows "\<exists>ctx' h'. with_slot i f ctx h = Ret (ctx', h')"
  using tracked_index [OF assms] assms(2) by (cases "f (conn_metrics ctx ! nat i) h") (auto simp: with_slot_Ret tracked_def)

lemma perf_inv_connection_start:
  assumes "perf_inv ctx"
  shows "perf_metrics_connection_start cid ctx =
     (if monitoring_enabled ctx \<and> current_connections ctx < max_connections ctx
      then Ret (uint (current_connections ctx),
             ctx\<lparr>current_connections := current_connections ctx + 1,
                 conn_metrics := (conn_metrics ctx)[unat (current_connections ctx) := zero_conn\<lparr>connection_id := cid\<rparr>],
                 pm_stats := (pm_stats ctx)\<lparr>total_connections := total_connections (pm_stats ctx) + 1\<rparr>,
                 sys_metrics := (sys_metrics ctx)\<lparr>active_connections := active_connections (sys_metrics ctx) + 1\<rparr>\<rparr>)
      else Ret (-1, ctx))"
proof -
  let ?n = "unat (current_connections ctx)"
  have "current_connections ctx < max_connections ctx \<Longrightarrow> ?n < length (conn_metrics ctx)"
    using assms by (simp add: perf_inv_def word_less_nat_alt)
  then show ?thesis using perf_invD(1) [OF assms] by (auto simp: perf_metrics_connection_start_def Let_def not_le)
qed

lemma perf_inv_started:
  assumes "perf_inv ctx" and "perf_metrics_connection_start cid ctx = Ret (i, ctx')"
  shows "perf_inv ctx'"
proof (cases "monitoring_enabled ctx \<and> current_connections ctx < max_connections ctx")
  case False
  then show ?thesis using assms by (auto simp: perf_inv_connection_start)
next
  case True
  let ?c = "current_connections ctx" and ?a = "active_connections (sys_metrics ctx)"
  have lt: "?c < max_connections ctx" using True by blast
  have a: "?a \<le> ?c" using assms(1) by (simp add: perf_inv_def)
  then have "?a < max_connections ctx" using lt by simp
  then have "?a + 1 \<le> ?c + 1" "?c + 1 \<le> max_connections ctx"
    using a lt by (simp_all add: word_le_nat_alt word_less_nat_alt unat_Suc_u32 [OF lt] unat_Suc_u32 [of ?a "max_connections ctx"])
  then show ?thesis using assms True
    by (auto simp: perf_inv_connection_start perf_inv_def unat_Suc_u32 [OF lt] unat_Suc_u64 word_le_nat_alt)
qed

lemma perf_inv_end: "perf_inv ctx \<Longrightarrow> perf_inv (perf_metrics_connection_end i b ctx)"
proof -
  assume inv: "perf_inv ctx"
  let ?a = "active_connections (sys_metrics ctx)"
  have "?a > 0 \<Longrightarrow> ?a - 1 \<le> current_connections ctx"
    using inv unat_pred_u32 [of ?a] by (auto simp: perf_inv_def word_le_nat_alt)
  then show ?thesis using inv by (auto simp: perf_metrics_connection_end_def perf_inv_def Let_def)
qed

lemma perf_inv_update_cpu [simp]: "perf_inv (update_cpu c ctx) = perf_inv ctx"
  by (simp add: perf_inv_def update_cpu_def Let_def)

lemma perf_inv_update_memory [simp]: "perf_inv (update_memory r v ctx) = perf_inv ctx"
  by (simp add: perf_inv_def update_memory_def Let_def)

lemma perf_inv_measurement [simp]:
  "perf_inv (ctx\<lparr>sys_metrics := (sys_metrics ctx)\<lparr>measurement_time := t\<rparr>\<rparr>) = perf_inv ctx"
  by (simp add: perf_inv_def)

lemma perf_inv_update:
  "perf_inv ctx \<Longrightarrow> perf_metrics_update_system os ctx h = (r, ctx', h') \<Longrightarrow> perf_inv ctx'"
  by (auto simp: perf_metrics_update_system_def Let_def split: if_splits prod.splits option.splits)

section \<open>Sequences of calls\<close>

datatype perf_op =
    OpStart u64
  | OpLatencyStart int
  | OpLatencyEnd int
  | OpKeyStart int
  | OpKeyEnd int
  | OpTransfer int u64 u64
  | OpEnd int bool
  | OpUpdate
  | OpEnable bool

text \<open>A step that faults does not come back.\<close>

fun ret_some :: "'a outcome \<Rightarrow> 'a option" where
  "ret_some (Ret x) = Some x"
| "ret_some (Exit e) = None"
| "ret_some Fault = None"

lemma ret_some_Some: "ret_some m = Some x \<longleftrightarrow> m = Ret x"
  by (cases m) auto

fun perf_step :: "os \<Rightarrow> perf_op \<Rightarrow> perf_metrics_ctx \<times> hist \<Rightarrow> (perf_metrics_ctx \<times> hist) option" where
  "perf_step os (OpStart cid) (c, h) =
     (case perf_metrics_connection_start cid c of Ret (i, c') \<Rightarrow> Some (c', h) | _ \<Rightarrow> None)"
| "perf_step os (OpLatencyStart i) (c, h) = ret_some (perf_metrics_connection_latency_start os i c h)"
| "perf_step os (OpLatencyEnd i) (c, h) = ret_some (perf_metrics_connection_latency_end os i c h)"
| "perf_step os (OpKeyStart i) (c, h) = ret_some (perf_metrics_key_negotiation_start os i c h)"
| "perf_step os (OpKeyEnd i) (c, h) = ret_some (perf_metrics_key_negotiation_end os i c h)"
| "perf_step os (OpTransfer i s r) (c, h) = ret_some (perf_metrics_record_data_transfer os i s r c h)"
| "perf_step os (OpEnd i b) (c, h) = Some (perf_metrics_connection_end i b c, h)"
| "perf_step os OpUpdate (c, h) = Some (snd (perf_metrics_update_system os c h))"
| "perf_step os (OpEnable b) (c, h) = Some (perf_metrics_set_enabled b c, h)"

lemmas recording_defs = perf_metrics_connection_latency_start_def perf_metrics_connection_latency_end_def
  perf_metrics_key_negotiation_start_def perf_metrics_key_negotiation_end_def perf_metrics_record_data_transfer_def

lemma recording_shape:
  assumes "perf_step os op (c, h) = Some (c', h')"
    and "op \<in> {OpLatencyStart i, OpLatencyEnd i, OpKeyStart i, OpKeyEnd i, OpTransfer i s r}"
  shows "c' = c \<or> (tracked c i \<and> (\<exists>cm. c' = upd_conn i cm c))"
  using assms by (auto simp: recording_defs ret_some_Some with_slot_Ret split: if_splits)

lemma recording_total:
  assumes "perf_inv c"
  shows "\<exists>c' h'. perf_metrics_connection_latency_start os i c h = Ret (c', h')"
    "\<exists>c' h'. perf_metrics_connection_latency_end os i c h = Ret (c', h')"
    "\<exists>c' h'. perf_metrics_key_negotiation_start os i c h = Ret (c', h')"
    "\<exists>c' h'. perf_metrics_key_negotiation_end os i c h = Ret (c', h')"
    "\<exists>c' h'. perf_metrics_record_data_transfer os i s r c h = Ret (c', h')"
  using tracked_slot [OF assms, of i] by (cases "tracked c i"; simp add: recording_defs)+

lemma perf_step_inv:
  assumes "perf_inv c" and "perf_step os op (c, h) = Some (c', h')"
  shows "perf_inv c' \<and> max_connections c' = max_connections c \<and> current_connections c \<le> current_connections c'"
proof (cases op)
  case (OpStart cid)
  then obtain i where s: "perf_metrics_connection_start cid c = Ret (i, c')"
    using assms(2) by (auto split: outcome.splits)
  have "current_connections c < max_connections c \<Longrightarrow> current_connections c \<le> current_connections c + 1"
    by (simp add: word_le_nat_alt unat_Suc_u32)
  then show ?thesis using s perf_inv_started [OF assms(1) s] assms(1) by (auto simp: perf_inv_connection_start split: if_splits)
next
  case (OpEnd i b)
  then show ?thesis using assms perf_inv_end [of c i b] by (auto simp: perf_metrics_connection_end_def Let_def)
next
  case OpUpdate
  then obtain r where u: "perf_metrics_update_system os c h = (r, c', h')" using assms(2) by (cases "perf_metrics_update_system os c h") auto
  then show ?thesis using perf_inv_update [OF assms(1) u]
    by (auto simp: perf_metrics_update_system_def update_cpu_def update_memory_def Let_def split: if_splits prod.splits option.splits)
next
  case (OpEnable b)
  then show ?thesis using assms by (auto simp: perf_metrics_set_enabled_def perf_inv_def)
qed (use assms recording_shape [OF assms(2)] in \<open>auto simp: upd_conn_def perf_inv_def\<close>)

lemma perf_step_total: "perf_inv c \<Longrightarrow> \<exists>c' h'. perf_step os op (c, h) = Some (c', h')"
  using recording_total [where os = os and h = h] by (cases op) (auto simp: perf_inv_connection_start ret_some_Some)

interpretation perf: invariant_steps "perf_step os" "\<lambda>(c, h). perf_inv c \<and> max_connections c = mx \<and> cur \<le> current_connections c" for os mx cur
  by unfold_locales (auto dest: perf_step_inv)

lemma perf_run_total:
  assumes "perf_inv c"
  shows "\<exists>c' h'. run_steps (perf_step os) ops (c, h) = Some (c', h')"
  using assms
proof (induction ops arbitrary: c h)
  case (Cons op ops)
  obtain c1 h1 where 1: "perf_step os op (c, h) = Some (c1, h1)" using perf_step_total [OF Cons.prems] by blast
  then have "perf_inv c1" using perf_step_inv [OF Cons.prems] by blast
  then show ?case using Cons.IH [of c1 h1] 1 by simp
qed simp

lemma perf_inv_init:
  assumes "perf_metrics_init os mx h = (Some (p, q, ctx), h')" and "unat mx < 2147483648"
  shows "perf_inv ctx" "max_connections ctx = mx" "current_connections ctx = 0"
  using assms by (auto simp: perf_metrics_init_def Let_def perf_inv_def zero_stats_def zero_system_def split: if_splits)

lemma perf_init_counters:
  assumes "perf_metrics_init os mx h = (Some (p, q, ctx), h')"
  shows "active_connections (sys_metrics ctx) = 0" "total_connections (pm_stats ctx) = 0"
    "successful_connections (pm_stats ctx) = 0" "failed_connections (pm_stats ctx) = 0"
  using assms by (auto simp: perf_metrics_init_def Let_def zero_stats_def zero_system_def split: if_splits)

text \<open>
  Property C29 (recording_is_memory_safe). From a freshly initialised context for fewer than 2 to the 31
  connections, every sequence of recording calls, with any connection numbers, runs to its end without
  an access outside the array. It keeps the size of the array and the capacity; the number of tracked
  connections stays within the capacity, equals the reported total, and bounds the number of active ones.
\<close>

theorem recording_is_memory_safe:
  assumes "perf_metrics_init os mx h = (Some (p, q, ctx), h0)" and "unat mx < 2147483648"
  shows "\<exists>ctx' h'. run_steps (perf_step os) ops (ctx, h0) = Some (ctx', h') \<and>
           max_connections ctx' = mx \<and> length (conn_metrics ctx') = unat mx \<and>
           current_connections ctx' \<le> mx \<and>
           unat (total_connections (pm_stats ctx')) = unat (current_connections ctx') \<and>
           active_connections (sys_metrics ctx') \<le> current_connections ctx'"
proof -
  note i = perf_inv_init [OF assms]
  obtain ctx' h' where r: "run_steps (perf_step os) ops (ctx, h0) = Some (ctx', h')" using perf_run_total [OF i(1)] by blast
  from perf.run_inv [OF _ r, of mx 0] i have "perf_inv ctx'" "max_connections ctx' = mx" by auto
  then show ?thesis using r by (auto simp: perf_inv_def)
qed

lemma init_const_os:
  "\<exists>ctx h'. perf_metrics_init (const_os IoErr) 2 [] = (Some (4096, 4096, ctx), h')"
  by (simp add: perf_metrics_init_def Let_def)

theorem recording_is_memory_safe_witness:
  "\<exists>ctx h0 ctx' h'. perf_metrics_init (const_os IoErr) 2 [] = (Some (4096, 4096, ctx), h0) \<and>
     run_steps (perf_step (const_os IoErr)) [OpStart 7, OpEnd 99 True, OpLatencyEnd (-3), OpStart 8, OpStart 9] (ctx, h0) = Some (ctx', h') \<and>
     current_connections ctx' \<le> 2"
proof -
  obtain ctx h0 where i: "perf_metrics_init (const_os IoErr) 2 [] = (Some (4096, 4096, ctx), h0)" using init_const_os by blast
  have "unat (2 :: u32) < 2147483648" by simp
  from recording_is_memory_safe [OF i this] i show ?thesis by blast
qed

text \<open>
  Remark (tracking_stops_at_capacity). Slots are never given back: once as many connections were tracked
  as the context has slots, every later attempt to track one returns -1 and changes nothing, however many
  of the tracked connections have ended in between.
\<close>

theorem tracking_stops_at_capacity:
  assumes "perf_inv ctx" and "current_connections ctx = max_connections ctx"
    and "run_steps (perf_step os) ops (ctx, h) = Some (ctx', h')"
  shows "perf_metrics_connection_start cid ctx' = Ret (-1, ctx')"
proof -
  let ?m = "max_connections ctx"
  have "perf_inv ctx' \<and> max_connections ctx' = ?m \<and> ?m \<le> current_connections ctx'"
    using perf.run_inv [OF _ assms(3), of ?m ?m] assms(1,2) by simp
  then show ?thesis by (simp add: perf_inv_connection_start leD)
qed

definition full_ctx :: perf_metrics_ctx where
  "full_ctx = \<lparr>conn_metrics = [zero_conn], max_connections = 1, current_connections = 1,
     sys_metrics = zero_system\<lparr>active_connections := 1\<rparr>, pm_stats = zero_stats\<lparr>total_connections := 1\<rparr>,
     start_time = zero_time, monitoring_enabled = True, prev_cpu_stat = zero_cpu, cpu_first_call = True\<rparr>"

lemma full_ctx_inv: "perf_inv full_ctx" "current_connections full_ctx = max_connections full_ctx"
  by (simp_all add: perf_inv_def full_ctx_def zero_system_def zero_stats_def)

theorem tracking_stops_at_capacity_witness:
  "\<exists>ctx' h'. run_steps (perf_step (const_os IoErr)) [OpEnd 0 True] (full_ctx, []) = Some (ctx', h') \<and>
     perf_metrics_connection_start 5 ctx' = Ret (-1, ctx')"
proof -
  obtain ctx' h' where r: "run_steps (perf_step (const_os IoErr)) [OpEnd 0 True] (full_ctx, []) = Some (ctx', h')"
    using perf_run_total [OF full_ctx_inv(1)] by blast
  show ?thesis using tracking_stops_at_capacity [OF full_ctx_inv r] r by blast
qed

section \<open>Time spans\<close>

definition timespec_nat :: "timespec \<Rightarrow> int" where
  "timespec_nat t = tv_sec t * 1000000000 + tv_nsec t"

lemma timespec_ns_int: "timespec_ns t = of_int (timespec_nat t)"
  by (simp add: timespec_ns_def timespec_nat_def)

lemma time_diff_exact:
  assumes "0 \<le> timespec_nat e - timespec_nat s" and "timespec_nat e - timespec_nat s < 18446744073709551616"
  shows "int (unat (perf_time_diff_ns s e)) = timespec_nat e - timespec_nat s"
proof -
  have "perf_time_diff_ns s e = of_int (timespec_nat e - timespec_nat s)"
    by (simp add: perf_time_diff_ns_def timespec_ns_int)
  then have "uint (perf_time_diff_ns s e) = take_bit 64 (timespec_nat e - timespec_nat s)"
    by (simp only: uint_word_of_int_eq) simp
  then show ?thesis using assms by (simp add: take_bit_int_eq_self)
qed

text \<open>
  Remark (latency_is_elapsed_time). Starting and later ending the latency measurement of a tracked
  connection stores exactly the nanoseconds that passed on the monotonic clock between the two calls, if
  the clock did not go back and less than 2 to the 64 nanoseconds passed, and touches no other slot.
\<close>

theorem latency_is_elapsed_time:
  assumes "perf_inv ctx" and "tracked ctx i"
    and "perf_metrics_connection_latency_start os i ctx h = Ret (ctx1, h1)"
    and "perf_metrics_connection_latency_end os i ctx1 (h1 @ es) = Ret (ctx2, h2)"
    and "0 \<le> timespec_nat (os_clock os (h1 @ es) CLOCK_MONOTONIC) - timespec_nat (os_clock os h CLOCK_MONOTONIC)"
    and "timespec_nat (os_clock os (h1 @ es) CLOCK_MONOTONIC) - timespec_nat (os_clock os h CLOCK_MONOTONIC) < 18446744073709551616"
  shows "int (unat (duration_ns (connection_latency (conn_metrics ctx2 ! nat i)))) =
           timespec_nat (os_clock os (h1 @ es) CLOCK_MONOTONIC) - timespec_nat (os_clock os h CLOCK_MONOTONIC) \<and>
         (\<forall>j. j \<noteq> nat i \<longrightarrow> conn_metrics ctx2 ! j = conn_metrics ctx ! j)"
proof -
  have i: "nat i < length (conn_metrics ctx)" using tracked_index [OF assms(1,2)] by blast
  have c1: "ctx1 = upd_conn i ((conn_metrics ctx ! nat i)\<lparr>connection_latency := (connection_latency (conn_metrics ctx ! nat i))\<lparr>tp_start := os_clock os h CLOCK_MONOTONIC\<rparr>\<rparr>) ctx"
    using assms(2,3) by (auto simp: perf_metrics_connection_latency_start_def perf_timepoint_start_def Let_def with_slot_Ret)
  have "tracked ctx1 i" using assms(2) by (simp add: c1 upd_conn_def tracked_def)
  then show ?thesis using assms(4) i time_diff_exact [OF assms(5,6)]
    by (auto simp: perf_metrics_connection_latency_end_def perf_timepoint_end_def Let_def with_slot_Ret c1 upd_conn_def)
qed

theorem latency_is_elapsed_time_witness:
  "\<exists>ctx1 h1 ctx2 h2. perf_metrics_connection_latency_start (const_os IoErr) 0 full_ctx [] = Ret (ctx1, h1) \<and>
     perf_metrics_connection_latency_end (const_os IoErr) 0 ctx1 (h1 @ []) = Ret (ctx2, h2) \<and>
     int (unat (duration_ns (connection_latency (conn_metrics ctx2 ! nat 0)))) = 0"
proof -
  have t: "tracked full_ctx 0" using perf_invD(1) [OF full_ctx_inv(1)] by (simp add: tracked_def full_ctx_def)
  obtain ctx1 h1 where 1: "perf_metrics_connection_latency_start (const_os IoErr) 0 full_ctx [] = Ret (ctx1, h1)"
    using recording_total(1) [OF full_ctx_inv(1)] by blast
  then have t1: "perf_inv ctx1" using full_ctx_inv(1) by (auto simp: recording_defs with_slot_Ret split: if_splits)
  obtain ctx2 h2 where 2: "perf_metrics_connection_latency_end (const_os IoErr) 0 ctx1 (h1 @ []) = Ret (ctx2, h2)"
    using recording_total(2) [OF t1] by blast
  have clk: "os_clock (const_os IoErr) h c = \<lparr>tv_sec = 10, tv_nsec = 5\<rparr>" for h c by (simp add: const_os_def)
  show ?thesis using latency_is_elapsed_time [OF full_ctx_inv(1) t 1 2] 1 2 by (auto simp: clk)
qed

section \<open>CPU usage\<close>

definition busy_ticks :: "cpu_stat \<Rightarrow> nat" where
  "busy_ticks c = unat (cs_user c) + unat (cs_nice c) + unat (cs_system c) + unat (cs_irq c) + unat (cs_softirq c)"

definition idle_ticks :: "cpu_stat \<Rightarrow> nat" where
  "idle_ticks c = unat (cs_idle c) + unat (cs_iowait c)"

lemma cpu_words:
  "cpu_total c = of_nat (busy_ticks c + idle_ticks c)" "cpu_idle c = of_nat (idle_ticks c)"
  by (simp_all add: cpu_total_def cpu_idle_def busy_ticks_def idle_ticks_def)

lemma unat_of_nat_u64: "n < 18446744073709551616 \<Longrightarrow> unat (of_nat n :: u64) = n"
  by (simp add: unat_of_nat take_bit_nat_def)

text \<open>
  Remark (cpu_usage_is_busy_share). When the busy and the idle counters have not gone down between
  two readings and their sum fits 64 bits, the CPU usage is the share of busy ticks among all ticks
  passed, in per cent; it lies between 0 and 100, and is 0 when no tick has passed.
\<close>

theorem cpu_usage_is_busy_share:
  assumes "busy_ticks prev \<le> busy_ticks now" and "idle_ticks prev \<le> idle_ticks now"
    and "busy_ticks now + idle_ticks now < 18446744073709551616"
  defines "busy \<equiv> busy_ticks now - busy_ticks prev" and "idle \<equiv> idle_ticks now - idle_ticks prev"
  shows "calculate_cpu_usage prev now = 100 * real busy / real (busy + idle) \<and>
         0 \<le> calculate_cpu_usage prev now \<and> calculate_cpu_usage prev now \<le> 100"
proof -
  have "cpu_total now - cpu_total prev = of_nat ((busy_ticks now + idle_ticks now) - (busy_ticks prev + idle_ticks prev))"
    unfolding cpu_words using assms(1,2) by (simp only: of_nat_diff add_mono)
  also have "(busy_ticks now + idle_ticks now) - (busy_ticks prev + idle_ticks prev) = busy + idle"
    using assms(1,2) by (simp add: busy_def idle_def)
  finally have total: "cpu_total now - cpu_total prev = of_nat (busy + idle)" .
  have id: "cpu_idle now - cpu_idle prev = of_nat idle"
    unfolding cpu_words idle_def using assms(2) by (simp only: of_nat_diff)
  have lt: "busy + idle < 18446744073709551616" "busy < 18446744073709551616" using assms by auto
  have ut: "unat (cpu_total now - cpu_total prev) = busy + idle" unfolding total using lt(1) by (rule unat_of_nat_u64)
  have "cpu_total now - cpu_total prev - (cpu_idle now - cpu_idle prev) = of_nat busy" unfolding total id by simp
  then have ub: "unat (cpu_total now - cpu_total prev - (cpu_idle now - cpu_idle prev)) = busy"
    using unat_of_nat_u64 [OF lt(2)] by simp
  have z: "cpu_total now - cpu_total prev = 0 \<longleftrightarrow> busy + idle = 0" using ut by (metis unat_eq_zero)
  have eq: "calculate_cpu_usage prev now = 100 * real busy / real (busy + idle)"
    unfolding calculate_cpu_usage_def Let_def z ut ub by simp
  moreover have "100 * real busy / real (busy + idle) \<le> 100" by (cases "busy + idle = 0") (simp_all add: divide_le_eq)
  ultimately show ?thesis by simp
qed

definition cpu_reading :: "u64 \<Rightarrow> u64 \<Rightarrow> cpu_stat" where
  "cpu_reading b i = zero_cpu\<lparr>cs_user := b, cs_idle := i\<rparr>"

theorem cpu_usage_is_busy_share_witness:
  "calculate_cpu_usage (cpu_reading 10 10) (cpu_reading 40 20) = 75"
  using cpu_usage_is_busy_share [of "cpu_reading 10 10" "cpu_reading 40 20"]
  by (simp add: busy_ticks_def idle_ticks_def cpu_reading_def zero_cpu_def)

text \<open>The line the kernel prints for the counters.\<close>

definition cpu_fields :: "cpu_stat \<Rightarrow> u64 list" where
  "cpu_fields c = [cs_user c, cs_nice c, cs_system c, cs_idle c, cs_iowait c, cs_irq c, cs_softirq c]"

definition spaced :: "u64 list \<Rightarrow> string" where
  "spaced vs = concat (map (\<lambda>v. '' '' @ show_nat (unat v)) vs)"

lemma spaced_first: "r = [] \<or> \<not> is_digit (hd r) \<Longrightarrow> spaced vs @ r = [] \<or> \<not> is_digit (hd (spaced vs @ r))"
  by (cases vs) (auto simp: spaced_def is_digit_def)

lemma scan_ulls_spaced:
  assumes "r = [] \<or> \<not> is_digit (hd r)"
  shows "scan_ulls (length vs) (spaced vs @ r) = vs"
proof (induction vs)
  case (Cons v vs)
  have "scan_ull (spaced (v # vs) @ r) = Some (v, spaced vs @ r)"
    using scan_ull_show [of "'' ''" "spaced vs @ r" v] spaced_first [OF assms, of vs] by (simp add: spaced_def isspace_def)
  then show ?case using Cons by simp
qed simp

text \<open>
  Remark (cpu_line_roundtrip). The line that prints seven counters after \<^verbatim>\<open>cpu\<close>, separated by blanks and
  followed by anything that is not a digit (more fields, the newline), is read back as exactly
  those counters.
\<close>

theorem cpu_line_roundtrip:
  assumes "r = [] \<or> \<not> is_digit (hd r)"
  shows "parse_cpu_line (''cpu'' @ spaced (cpu_fields c) @ r) = Some c"
proof -
  have "length (cpu_fields c) = 7" by (simp add: cpu_fields_def)
  then have "scan_ulls 7 (spaced (cpu_fields c) @ r) = cpu_fields c" using scan_ulls_spaced [OF assms] by metis
  then show ?thesis by (simp add: parse_cpu_line_def match_lit_def) (simp add: cpu_fields_def)
qed

theorem cpu_line_roundtrip_witness:
  "parse_cpu_line (''cpu'' @ spaced (cpu_fields (cpu_reading 40 20)) @ '' 0 0'') = Some (cpu_reading 40 20)"
  by (rule cpu_line_roundtrip) (simp add: is_digit_def)

section \<open>Transfers\<close>

fun transfers :: "os \<Rightarrow> int \<Rightarrow> (u64 \<times> u64) list \<Rightarrow> perf_metrics_ctx \<Rightarrow> hist \<Rightarrow> (perf_metrics_ctx \<times> hist) outcome" where
  "transfers os i [] ctx h = Ret (ctx, h)"
| "transfers os i ((s, r) # ts) ctx h =
     and_then (perf_metrics_record_data_transfer os i s r ctx h) (\<lambda>(ctx', h'). transfers os i ts ctx' h')"

lemma record_transfer_bytes:
  "record_transfer os s r cm h = (cm', h') \<Longrightarrow>
     bytes_sent cm' = bytes_sent cm + s \<and> bytes_received cm' = bytes_received cm + r \<and> connection_id cm' = connection_id cm"
  by (auto simp: record_transfer_def Let_def split: if_splits)

text \<open>
  Remark (transfers_accumulate). Any sequence of transfers recorded on a tracked connection adds up: the
  slot holds the sums of the bytes sent and received, modulo 2 to the 64, keeps its identity, and every other slot
  and all counters are unchanged.
\<close>

theorem transfers_accumulate:
  assumes "perf_inv ctx" and "tracked ctx i" and "transfers os i ts ctx h = Ret (ctx', h')"
  shows "bytes_sent (conn_metrics ctx' ! nat i) = bytes_sent (conn_metrics ctx ! nat i) + sum_list (map fst ts) \<and>
         bytes_received (conn_metrics ctx' ! nat i) = bytes_received (conn_metrics ctx ! nat i) + sum_list (map snd ts) \<and>
         connection_id (conn_metrics ctx' ! nat i) = connection_id (conn_metrics ctx ! nat i) \<and>
         ctx' = ctx\<lparr>conn_metrics := (conn_metrics ctx)[nat i := conn_metrics ctx' ! nat i]\<rparr>"
  using assms
proof (induction ts arbitrary: ctx h)
  case Nil
  then show ?case by simp
next
  case (Cons sr ts)
  obtain s r where sr: "sr = (s, r)" by fastforce
  obtain cm h1 where cm: "record_transfer os s r (conn_metrics ctx ! nat i) h = (cm, h1)" by fastforce
  let ?c = "upd_conn i cm ctx"
  have i: "nat i < length (conn_metrics ctx)" using tracked_index [OF Cons.prems(1,2)] by blast
  have t: "tracked ?c i" "perf_inv ?c" using Cons.prems(1,2) by (simp_all add: upd_conn_def tracked_def perf_inv_def)
  have "transfers os i ts ?c h1 = Ret (ctx', h')"
    using Cons.prems(2,3) cm by (auto simp: sr perf_metrics_record_data_transfer_def and_then_Ret with_slot_Ret)
  from Cons.IH [OF t(2,1) this] record_transfer_bytes [OF cm] i show ?case
    by (simp add: upd_conn_def sr add.assoc)
qed

theorem transfers_accumulate_witness:
  "\<exists>ctx' h'. transfers (const_os IoErr) 0 [(1, 2), (3, 4)] full_ctx [] = Ret (ctx', h') \<and> bytes_sent (conn_metrics ctx' ! nat 0) = 4"
proof -
  have f: "tracked full_ctx 0" using perf_invD(1) [OF full_ctx_inv(1)] by (simp add: tracked_def full_ctx_def)
  have "\<exists>ctx' h'. transfers (const_os IoErr) 0 ts c h = Ret (ctx', h')" if "perf_inv c" for ts c h
    using that
  proof (induction ts arbitrary: c h)
    case (Cons sr ts)
    obtain s r where sr: "sr = (s, r)" by fastforce
    obtain c1 h1 where 1: "perf_metrics_record_data_transfer (const_os IoErr) 0 s r c h = Ret (c1, h1)"
      using recording_total(5) [OF Cons.prems] by blast
    then have "perf_inv c1" using Cons.prems by (auto simp: recording_defs with_slot_Ret split: if_splits)
    from Cons.IH [OF this, of h1] show ?case using 1 by (simp add: sr)
  qed simp
  from this [OF full_ctx_inv(1)] obtain ctx' h' where t: "transfers (const_os IoErr) 0 [(1, 2), (3, 4)] full_ctx [] = Ret (ctx', h')" by blast
  from transfers_accumulate [OF full_ctx_inv(1) f t] t show ?thesis by (simp add: full_ctx_def zero_conn_def)
qed

end
