(* ===== verification/Perf_Report.thy ===== *)
theory Perf_Report
  imports Perf_Recording
begin

text \<open>
  The summary and the exports of \<^verbatim>\<open>capture/src/performance_metrics.c\<close>.
\<close>

section \<open>The summary\<close>

text \<open>
  The locals of \<^verbatim>\<open>perf_metrics_calculate_stats\<close> beside the statistics it updates in place. The three counters count
  slots, of which there are fewer than 2 to the 32.
\<close>

record stat_acc =
  sa_stats :: performance_stats
  latency_count :: nat
  negotiation_count :: nat
  total_connection_latency :: real
  total_key_negotiation :: real
  total_throughput :: real
  throughput_samples :: nat

definition acc_latency :: "connection_metrics \<Rightarrow> stat_acc \<Rightarrow> stat_acc" where
  "acc_latency cm a =
     (if duration_ns (connection_latency cm) > 0 then
        let ms = perf_ns_to_ms (duration_ns (connection_latency cm));
            a1 = a\<lparr>total_connection_latency := total_connection_latency a + ms, latency_count := latency_count a + 1\<rparr>;
            a2 = (if ms < min_connection_latency_ms (sa_stats a1)
                  then a1\<lparr>sa_stats := (sa_stats a1)\<lparr>min_connection_latency_ms := ms\<rparr>\<rparr> else a1)
        in if ms > max_connection_latency_ms (sa_stats a2)
           then a2\<lparr>sa_stats := (sa_stats a2)\<lparr>max_connection_latency_ms := ms\<rparr>\<rparr> else a2
      else a)"

definition acc_negotiation :: "connection_metrics \<Rightarrow> stat_acc \<Rightarrow> stat_acc" where
  "acc_negotiation cm a =
     (if duration_ns (key_negotiation cm) > 0 then
        let ms = perf_ns_to_ms (duration_ns (key_negotiation cm));
            a1 = a\<lparr>total_key_negotiation := total_key_negotiation a + ms, negotiation_count := negotiation_count a + 1\<rparr>;
            a2 = (if ms < min_key_negotiation_ms (sa_stats a1)
                  then a1\<lparr>sa_stats := (sa_stats a1)\<lparr>min_key_negotiation_ms := ms\<rparr>\<rparr> else a1)
        in if ms > max_key_negotiation_ms (sa_stats a2)
           then a2\<lparr>sa_stats := (sa_stats a2)\<lparr>max_key_negotiation_ms := ms\<rparr>\<rparr> else a2
      else a)"

definition acc_throughput :: "connection_metrics \<Rightarrow> stat_acc \<Rightarrow> stat_acc" where
  "acc_throughput cm a =
     (if throughput_mbps cm > 0 then
        let a1 = a\<lparr>total_throughput := total_throughput a + throughput_mbps cm, throughput_samples := throughput_samples a + 1\<rparr>
        in if throughput_mbps cm > max_throughput_mbps (sa_stats a1)
           then a1\<lparr>sa_stats := (sa_stats a1)\<lparr>max_throughput_mbps := throughput_mbps cm\<rparr>\<rparr> else a1
      else a)"

definition acc_bytes :: "connection_metrics \<Rightarrow> stat_acc \<Rightarrow> stat_acc" where
  "acc_bytes cm a =
     a\<lparr>sa_stats := (sa_stats a)\<lparr>total_bytes_transferred := total_bytes_transferred (sa_stats a) + (bytes_sent cm + bytes_received cm)\<rparr>\<rparr>"

definition acc_conn :: "connection_metrics \<Rightarrow> stat_acc \<Rightarrow> stat_acc" where
  "acc_conn cm a = acc_bytes cm (acc_throughput cm (acc_negotiation cm (acc_latency cm a)))"

definition reset_stats :: "performance_stats \<Rightarrow> performance_stats" where
  "reset_stats st = st\<lparr>min_connection_latency_ms := 999999, max_connection_latency_ms := 0, min_key_negotiation_ms := 999999,
     max_key_negotiation_ms := 0, max_throughput_mbps := 0, total_bytes_transferred := 0\<rparr>"

definition acc_start :: "performance_stats \<Rightarrow> stat_acc" where
  "acc_start st = \<lparr>sa_stats = reset_stats st, latency_count = 0, negotiation_count = 0, total_connection_latency = 0,
     total_key_negotiation = 0, total_throughput = 0, throughput_samples = 0\<rparr>"

definition finish_stats :: "system_metrics \<Rightarrow> stat_acc \<Rightarrow> performance_stats" where
  "finish_stats sm a =
     (let st = sa_stats a;
          st1 = (if latency_count a > 0 then st\<lparr>avg_connection_latency_ms := total_connection_latency a / real (latency_count a)\<rparr>
                 else st\<lparr>min_connection_latency_ms := 0\<rparr>);
          st2 = (if negotiation_count a > 0 then st1\<lparr>avg_key_negotiation_ms := total_key_negotiation a / real (negotiation_count a)\<rparr>
                 else st1\<lparr>min_key_negotiation_ms := 0\<rparr>);
          st3 = (if throughput_samples a > 0 then st2\<lparr>avg_throughput_mbps := total_throughput a / real (throughput_samples a)\<rparr> else st2)
      in st3\<lparr>avg_cpu_usage := cpu_usage_percent sm, avg_memory_usage_kb := memory_usage_kb sm\<rparr>)"

text \<open>
  The slots the loop visits. On every context the recording functions build, the counter is within the array
  (\<open>perf_invD\<close>), so the loop stays inside it.
\<close>

definition live_conns :: "perf_metrics_ctx \<Rightarrow> connection_metrics list" where
  "live_conns ctx = take (unat (current_connections ctx)) (conn_metrics ctx)"

definition perf_metrics_calculate_stats :: "perf_metrics_ctx \<Rightarrow> perf_metrics_ctx" where
  "perf_metrics_calculate_stats ctx =
     ctx\<lparr>pm_stats := finish_stats (sys_metrics ctx) (fold acc_conn (live_conns ctx) (acc_start (pm_stats ctx)))\<rparr>"

text \<open>\<^verbatim>\<open>perf_metrics_print_report\<close> recomputes the summary and prints it; the text is in \<open>Perf_Console\<close>.\<close>

definition perf_metrics_print_report :: "perf_metrics_ctx \<Rightarrow> perf_metrics_ctx" where
  "perf_metrics_print_report ctx = perf_metrics_calculate_stats ctx"

section \<open>Summaries as folds over the samples\<close>

definition latency_samples :: "connection_metrics list \<Rightarrow> real list" where
  "latency_samples cms = map perf_ns_to_ms (filter (\<lambda>d. d > 0) (map (\<lambda>cm. duration_ns (connection_latency cm)) cms))"

definition negotiation_samples :: "connection_metrics list \<Rightarrow> real list" where
  "negotiation_samples cms = map perf_ns_to_ms (filter (\<lambda>d. d > 0) (map (\<lambda>cm. duration_ns (key_negotiation cm)) cms))"

definition throughputs :: "connection_metrics list \<Rightarrow> real list" where
  "throughputs cms = filter (\<lambda>x. x > 0) (map throughput_mbps cms)"

definition acc_of :: "performance_stats \<Rightarrow> connection_metrics list \<Rightarrow> stat_acc" where
  "acc_of st cms =
     \<lparr>sa_stats = st\<lparr>min_connection_latency_ms := fold min (latency_samples cms) 999999,
                   max_connection_latency_ms := fold max (latency_samples cms) 0,
                   min_key_negotiation_ms := fold min (negotiation_samples cms) 999999,
                   max_key_negotiation_ms := fold max (negotiation_samples cms) 0,
                   max_throughput_mbps := fold max (throughputs cms) 0,
                   total_bytes_transferred := sum_list (map (\<lambda>cm. bytes_sent cm + bytes_received cm) cms)\<rparr>,
      latency_count = length (latency_samples cms), negotiation_count = length (negotiation_samples cms),
      total_connection_latency = sum_list (latency_samples cms), total_key_negotiation = sum_list (negotiation_samples cms),
      total_throughput = sum_list (throughputs cms), throughput_samples = length (throughputs cms)\<rparr>"

lemma samples_snoc:
  "latency_samples (cms @ [cm]) = latency_samples cms @
     (if duration_ns (connection_latency cm) > 0 then [perf_ns_to_ms (duration_ns (connection_latency cm))] else [])"
  "negotiation_samples (cms @ [cm]) = negotiation_samples cms @
     (if duration_ns (key_negotiation cm) > 0 then [perf_ns_to_ms (duration_ns (key_negotiation cm))] else [])"
  "throughputs (cms @ [cm]) = throughputs cms @ (if throughput_mbps cm > 0 then [throughput_mbps cm] else [])"
  by (simp_all add: latency_samples_def negotiation_samples_def throughputs_def)

lemma acc_latency_eq:
  "acc_latency cm a =
     (if duration_ns (connection_latency cm) > 0 then
        let ms = perf_ns_to_ms (duration_ns (connection_latency cm)); st = sa_stats a
        in a\<lparr>total_connection_latency := total_connection_latency a + ms, latency_count := latency_count a + 1,
             sa_stats := st\<lparr>min_connection_latency_ms := min ms (min_connection_latency_ms st),
                           max_connection_latency_ms := max ms (max_connection_latency_ms st)\<rparr>\<rparr>
      else a)"
  by (cases a; cases "sa_stats a") (simp add: acc_latency_def Let_def min_def max_def)

lemma acc_negotiation_eq:
  "acc_negotiation cm a =
     (if duration_ns (key_negotiation cm) > 0 then
        let ms = perf_ns_to_ms (duration_ns (key_negotiation cm)); st = sa_stats a
        in a\<lparr>total_key_negotiation := total_key_negotiation a + ms, negotiation_count := negotiation_count a + 1,
             sa_stats := st\<lparr>min_key_negotiation_ms := min ms (min_key_negotiation_ms st),
                           max_key_negotiation_ms := max ms (max_key_negotiation_ms st)\<rparr>\<rparr>
      else a)"
  by (cases a; cases "sa_stats a") (simp add: acc_negotiation_def Let_def min_def max_def)

lemma acc_throughput_eq:
  "acc_throughput cm a =
     (if throughput_mbps cm > 0 then
        let st = sa_stats a
        in a\<lparr>total_throughput := total_throughput a + throughput_mbps cm, throughput_samples := throughput_samples a + 1,
             sa_stats := st\<lparr>max_throughput_mbps := max (throughput_mbps cm) (max_throughput_mbps st)\<rparr>\<rparr>
      else a)"
  by (cases a; cases "sa_stats a") (simp add: acc_throughput_def Let_def max_def)

lemma acc_conn_acc_of: "acc_conn cm (acc_of st cms) = acc_of st (cms @ [cm])"
  by (cases "duration_ns (connection_latency cm) > 0"; cases "duration_ns (key_negotiation cm) > 0"; cases "throughput_mbps cm > 0")
    (simp_all add: acc_conn_def acc_bytes_def acc_throughput_eq acc_negotiation_eq acc_latency_eq acc_of_def samples_snoc Let_def)

lemma fold_acc_conn: "fold acc_conn cms (acc_start st) = acc_of st cms"
proof (induction cms rule: rev_induct)
  case Nil
  show ?case by (simp add: acc_start_def acc_of_def reset_stats_def latency_samples_def negotiation_samples_def throughputs_def)
next
  case (snoc cm cms)
  then show ?case by (simp add: acc_conn_acc_of)
qed

lemma calculate_stats_eq:
  "perf_metrics_calculate_stats ctx = ctx\<lparr>pm_stats := finish_stats (sys_metrics ctx) (acc_of (pm_stats ctx) (live_conns ctx))\<rparr>"
  by (simp add: perf_metrics_calculate_stats_def fold_acc_conn)

lemma fold_min_Min: "fold min xs (a :: real) = Min (insert a (set xs))"
  using Min.set_eq_fold [of a xs] by simp

lemma fold_max_Max: "fold max xs (a :: real) = Max (insert a (set xs))"
  using Max.set_eq_fold [of a xs] by simp

lemma mean_bounds:
  fixes xs :: "real list"
  assumes "xs \<noteq> []" and "\<forall>x \<in> set xs. a \<le> x" and "\<forall>x \<in> set xs. x \<le> b"
  shows "a \<le> sum_list xs / real (length xs)" "sum_list xs / real (length xs) \<le> b"
proof -
  have "real (length xs) * a \<le> sum_list xs" "sum_list xs \<le> real (length xs) * b"
    using assms(2,3) by (induction xs) (auto simp: algebra_simps)
  moreover have "0 < real (length xs)" using assms(1) by simp
  ultimately show "a \<le> sum_list xs / real (length xs)" "sum_list xs / real (length xs) \<le> b"
    by (simp_all add: le_divide_eq divide_le_eq mult.commute)
qed

text \<open>
  What a summary of samples should be: minimum (at most the initial value 999999), mean and maximum; without
  samples the extremes are 0 and the mean keeps its earlier value.
\<close>

definition summarises :: "real list \<Rightarrow> real \<Rightarrow> real \<Rightarrow> real \<Rightarrow> real \<Rightarrow> bool" where
  "summarises xs old mn av mx \<longleftrightarrow>
     (if xs = [] then mn = 0 \<and> mx = 0 \<and> av = old
      else mn = Min (insert 999999 (set xs)) \<and> av = sum_list xs / real (length xs) \<and> mx = Max (set xs) \<and> mn \<le> av \<and> av \<le> mx)"

lemma summarises_fold:
  assumes "\<forall>x \<in> set xs. 0 < x"
  shows "summarises xs old (if xs \<noteq> [] then fold min xs 999999 else 0)
           (if xs \<noteq> [] then sum_list xs / real (length xs) else old) (fold max xs 0)"
proof (cases "xs = []")
  case False
  have "Max (insert 0 (set xs)) = Max (set xs)"
    using False assms by (simp add: Max_insert max_def) (metis Max_in List.finite_set less_eq_real_def set_empty)
  moreover have "\<forall>x \<in> set xs. Min (insert 999999 (set xs)) \<le> x" "\<forall>x \<in> set xs. x \<le> Max (set xs)" by simp_all
  note mean_bounds [OF False this]
  ultimately show ?thesis using False by (simp add: summarises_def fold_min_Min fold_max_Max)
qed (simp add: summarises_def)

lemma perf_ns_to_ms_pos: "0 < d \<Longrightarrow> 0 < perf_ns_to_ms d"
proof -
  assume "0 < d"
  then have "0 < unat d" by (simp add: word_less_nat_alt)
  then have "0 < real (unat d)" by (simp only: of_nat_0_less_iff)
  then show ?thesis unfolding perf_ns_to_ms_def by simp
qed

lemma samples_pos: "\<forall>x \<in> set (latency_samples cms). 0 < x" "\<forall>x \<in> set (negotiation_samples cms). 0 < x"
  by (auto simp: latency_samples_def negotiation_samples_def intro: perf_ns_to_ms_pos)

text \<open>The throughput has a mean and a maximum only.\<close>

definition summarises_rate :: "real list \<Rightarrow> real \<Rightarrow> real \<Rightarrow> real \<Rightarrow> bool" where
  "summarises_rate xs old av mx \<longleftrightarrow>
     (if xs = [] then av = old \<and> mx = 0 else av = sum_list xs / real (length xs) \<and> mx = Max (set xs))"

lemma summarises_rate_fold:
  "summarises_rate (throughputs cms) old
     (if throughputs cms \<noteq> [] then sum_list (throughputs cms) / real (length (throughputs cms)) else old) (fold max (throughputs cms) 0)"
proof (cases "throughputs cms = []")
  case False
  have "\<forall>x \<in> set (throughputs cms). 0 < x" by (auto simp: throughputs_def)
  then have "Max (insert 0 (set (throughputs cms))) = Max (set (throughputs cms))"
    using False by (simp add: Max_insert max_def) (metis Max_in List.finite_set less_eq_real_def set_empty)
  then show ?thesis using False by (simp add: summarises_rate_def fold_max_Max)
qed (simp add: summarises_rate_def)

text \<open>
  Property C30 (summary_describes_samples). The summary is computed from exactly the slots in use. For latencies and for key
  negotiations: with at least one non-zero measurement, the minimum is the least of the measurements and 999999, the mean
  and the maximum are theirs, in this order of size; without one, the extremes are 0 and the mean keeps its earlier value. The
  throughput summary is mean and maximum of the positive throughputs; without one the maximum is 0 and the mean keeps
  its earlier value. The byte total is the 64-bit sum over the slots; connection counters and peaks are left alone.
\<close>

theorem summary_describes_samples:
  "let cms = live_conns ctx; old = pm_stats ctx; st = pm_stats (perf_metrics_calculate_stats ctx)
   in summarises (latency_samples cms) (avg_connection_latency_ms old)
        (min_connection_latency_ms st) (avg_connection_latency_ms st) (max_connection_latency_ms st) \<and>
      summarises (negotiation_samples cms) (avg_key_negotiation_ms old)
        (min_key_negotiation_ms st) (avg_key_negotiation_ms st) (max_key_negotiation_ms st) \<and>
      summarises_rate (throughputs cms) (avg_throughput_mbps old) (avg_throughput_mbps st) (max_throughput_mbps st) \<and>
      total_bytes_transferred st = sum_list (map (\<lambda>cm. bytes_sent cm + bytes_received cm) cms) \<and>
      total_connections st = total_connections old \<and> successful_connections st = successful_connections old \<and>
      failed_connections st = failed_connections old \<and> peak_cpu_usage st = peak_cpu_usage old \<and>
      peak_memory_usage_kb st = peak_memory_usage_kb old"
proof -
  let ?l = "latency_samples (live_conns ctx)" and ?k = "negotiation_samples (live_conns ctx)"
  note s = summarises_fold [OF samples_pos(1), of "live_conns ctx" "avg_connection_latency_ms (pm_stats ctx)"]
    summarises_fold [OF samples_pos(2), of "live_conns ctx" "avg_key_negotiation_ms (pm_stats ctx)"]
  let ?t = "throughputs (live_conns ctx)"
  note r = summarises_rate_fold [of "live_conns ctx" "avg_throughput_mbps (pm_stats ctx)"]
  show ?thesis using s r
    by (cases "?l = []"; cases "?k = []"; cases "?t = []") (simp_all add: calculate_stats_eq finish_stats_def acc_of_def Let_def)
qed

lemma print_report_stable: "perf_metrics_calculate_stats (perf_metrics_print_report ctx) = perf_metrics_print_report ctx"
proof -
  have live: "live_conns (ctx\<lparr>pm_stats := x\<rparr>) = live_conns ctx" for x by (simp add: live_conns_def)
  have "finish_stats sm (acc_of (finish_stats sm (acc_of st cms)) cms) = finish_stats sm (acc_of st cms)" for sm st cms
    by (cases "latency_samples cms = []"; cases "negotiation_samples cms = []"; cases "throughputs cms = []")
      (simp_all add: finish_stats_def acc_of_def Let_def)
  then show ?thesis by (simp add: calculate_stats_eq live perf_metrics_print_report_def)
qed

text \<open>
  Remark (summary_is_stable). Computing the summary twice gives the same context as computing it once, so
  the report and the JSON export, which each recompute it, agree.
\<close>

theorem summary_is_stable:
  "perf_metrics_calculate_stats (perf_metrics_calculate_stats ctx) = perf_metrics_calculate_stats ctx \<and>
   perf_metrics_calculate_stats (perf_metrics_print_report ctx) = perf_metrics_print_report ctx"
  using print_report_stable [of ctx] by (simp add: perf_metrics_print_report_def)

end
