(* ===== verification/Perf_Export.thy ===== *)
theory Perf_Export
  imports Perf_Report Text_Export
begin

text \<open>
  The JSON and CSV files of \<^verbatim>\<open>capture/src/performance_metrics.c\<close>, character by character.
\<close>

section \<open>Texts\<close>

definition json_summary :: "performance_stats \<Rightarrow> system_metrics \<Rightarrow> string" where
  "json_summary st sm =
     '' '' @ '' '' @ quoted ''summary'' @ '': {'' @ nl @
     member 4 ''total_connections'' (show_u64 (total_connections st)) '','' @
     member 4 ''successful_connections'' (show_u64 (successful_connections st)) '','' @
     member 4 ''failed_connections'' (show_u64 (failed_connections st)) '','' @
     member 4 ''active_connections'' (show_nat (unat (active_connections sm))) '','' @
     member 4 ''avg_connection_latency_ms'' (show_fixed 3 (avg_connection_latency_ms st)) '','' @
     member 4 ''min_connection_latency_ms'' (show_fixed 3 (min_connection_latency_ms st)) '','' @
     member 4 ''max_connection_latency_ms'' (show_fixed 3 (max_connection_latency_ms st)) '','' @
     member 4 ''avg_key_negotiation_ms'' (show_fixed 3 (avg_key_negotiation_ms st)) '','' @
     member 4 ''min_key_negotiation_ms'' (show_fixed 3 (min_key_negotiation_ms st)) '','' @
     member 4 ''max_key_negotiation_ms'' (show_fixed 3 (max_key_negotiation_ms st)) '','' @
     member 4 ''avg_throughput_mbps'' (show_fixed 2 (avg_throughput_mbps st)) '','' @
     member 4 ''max_throughput_mbps'' (show_fixed 2 (max_throughput_mbps st)) '','' @
     member 4 ''total_bytes_transferred'' (show_u64 (total_bytes_transferred st)) '','' @
     member 4 ''cpu_usage_percent'' (show_fixed 2 (avg_cpu_usage st)) '','' @
     member 4 ''memory_usage_kb'' (show_u64 (avg_memory_usage_kb st)) [] @
     '' '' @ '' },'' @ nl"

definition json_conn :: "connection_metrics \<Rightarrow> string" where
  "json_conn cm =
     replicate 4 (CHR '' '') @ ''{'' @ nl @
     member 6 ''connection_id'' (show_u64 (connection_id cm)) '','' @
     member 6 ''connection_latency_ms'' (show_fixed 3 (perf_ns_to_ms (duration_ns (connection_latency cm)))) '','' @
     member 6 ''key_negotiation_ms'' (show_fixed 3 (perf_ns_to_ms (duration_ns (key_negotiation cm)))) '','' @
     member 6 ''bytes_sent'' (show_u64 (bytes_sent cm)) '','' @
     member 6 ''bytes_received'' (show_u64 (bytes_received cm)) '','' @
     member 6 ''throughput_mbps'' (show_fixed 2 (throughput_mbps cm)) [] @
     replicate 4 (CHR '' '') @ ''}''"

text \<open>The loop over the slots; the comma depends on \<^verbatim>\<open>i < ctx->current_connections - 1\<close>, an unsigned comparison.\<close>

definition json_conns :: "perf_metrics_ctx \<Rightarrow> string" where
  "json_conns ctx =
     concat (map (\<lambda>i. json_conn (conn_metrics ctx ! i) @
                      (if (of_nat i :: u32) < current_connections ctx - 1 then '','' else []) @ nl)
               [0..<unat (current_connections ctx)])"

definition json_text :: "int \<Rightarrow> perf_metrics_ctx \<Rightarrow> string" where
  "json_text now ctx =
     ''{'' @ nl @ member 2 ''timestamp'' (show_int now) '','' @
     json_summary (pm_stats ctx) (sys_metrics ctx) @
     '' '' @ '' '' @ quoted ''connections'' @ '': ['' @ nl @ json_conns ctx @ '' '' @ '' ]'' @ nl @ ''}'' @ nl"

definition perf_metrics_export_json ::
  "os \<Rightarrow> string option \<Rightarrow> perf_metrics_ctx option \<Rightarrow> hist \<Rightarrow> int \<times> perf_metrics_ctx option \<times> hist"
where
  "perf_metrics_export_json os filename ctx h =
     (case (ctx, filename) of
        (Some c, Some f) \<Rightarrow>
          if \<not> os_fcreate os h f then (-1, ctx, h @ [FOpen f False])
          else
            let h1 = h @ [FOpen f True];
                c1 = perf_metrics_calculate_stats c;
                t = os_clock os h1 CLOCK_REALTIME;
                h2 = h1 @ [Clock CLOCK_REALTIME t]
            in (0, Some c1, h2 @ [FWrite (json_text (tv_sec t) c1), FClose])
      | _ \<Rightarrow> (-1, ctx, h))"

definition csv_header :: string where
  "csv_header = ''connection_id,connection_latency_ms,key_negotiation_ms,bytes_sent,bytes_received,throughput_mbps''"

definition csv_row :: "connection_metrics \<Rightarrow> string" where
  "csv_row cm =
     show_u64 (connection_id cm) @ '','' @ show_fixed 3 (perf_ns_to_ms (duration_ns (connection_latency cm))) @ '','' @
     show_fixed 3 (perf_ns_to_ms (duration_ns (key_negotiation cm))) @ '','' @ show_u64 (bytes_sent cm) @ '','' @
     show_u64 (bytes_received cm) @ '','' @ show_fixed 2 (throughput_mbps cm)"

definition csv_text :: "perf_metrics_ctx \<Rightarrow> string" where
  "csv_text ctx = csv_header @ nl @ concat (map (\<lambda>i. csv_row (conn_metrics ctx ! i) @ nl) [0..<unat (current_connections ctx)])"

definition perf_metrics_export_csv ::
  "os \<Rightarrow> string option \<Rightarrow> perf_metrics_ctx option \<Rightarrow> hist \<Rightarrow> int \<times> hist"
where
  "perf_metrics_export_csv os filename ctx h =
     (case (ctx, filename) of
        (Some c, Some f) \<Rightarrow>
          if \<not> os_fcreate os h f then (-1, h @ [FOpen f False])
          else (0, h @ [FOpen f True, FWrite (csv_text c), FClose])
      | _ \<Rightarrow> (-1, h))"

section \<open>The JSON array\<close>

lemma live_conns_nth:
  "perf_inv ctx \<Longrightarrow> live_conns ctx = map ((!) (conn_metrics ctx)) [0..<unat (current_connections ctx)]"
  using perf_invD(2) [of ctx] by (intro nth_equalityI) (simp_all add: live_conns_def)

text \<open>
  Remark (json_array_is_well_separated). The connection array of the JSON file is the list of the tracked
  connections' objects with a comma after every one but the last, and empty when none is tracked, in spite
  of the unsigned subtraction in the loop.
\<close>

theorem json_array_is_well_separated:
  assumes "perf_inv ctx"
  shows "json_conns ctx =
           (if live_conns ctx = [] then [] else join ('','' @ nl) (map json_conn (live_conns ctx)) @ nl)"
proof (cases "unat (current_connections ctx)")
  case 0
  then show ?thesis using assms by (simp add: json_conns_def live_conns_nth)
next
  case (Suc n)
  have "0 < current_connections ctx" using Suc by (simp add: word_less_nat_alt)
  then have pred: "unat (current_connections ctx - 1) = n" using unat_pred_u32 Suc by simp
  have "(of_nat i :: u32) < current_connections ctx - 1 \<longleftrightarrow> i < n" if "i < Suc n" for i
  proof -
    have "i < 4294967296" using that Suc unat_u32_less [of "current_connections ctx"] by linarith
    then have "unat (of_nat i :: u32) = i" by (simp add: unat_of_nat take_bit_nat_def)
    then show ?thesis using pred by (simp add: word_less_nat_alt)
  qed
  then have "json_conns ctx = concat (map (\<lambda>i. json_conn (conn_metrics ctx ! i) @ (if i < n then '','' else []) @ nl) [0..<Suc n])"
    unfolding json_conns_def Suc by (intro arg_cong [of _ _ concat] map_cong) auto
  also have "\<dots> = join ('','' @ nl) (map (\<lambda>i. json_conn (conn_metrics ctx ! i)) [0..<Suc n]) @ nl"
    by (rule concat_join)
  also have "map (\<lambda>i. json_conn (conn_metrics ctx ! i)) [0..<Suc n] = map json_conn (live_conns ctx)"
    using assms Suc by (simp add: live_conns_nth del: upt_Suc)
  finally show ?thesis using assms Suc by (simp add: live_conns_nth)
qed

theorem json_array_is_well_separated_witness:
  "json_conns full_ctx = json_conn zero_conn @ nl"
  using json_array_is_well_separated [OF full_ctx_inv(1)] by (simp add: live_conns_def full_ctx_def)

section \<open>Reading the CSV file back\<close>

lemma csv_row_no_newline: "CHR 0x0A \<notin> set (csv_row cm)"
  using show_nat_no_newline show_fixed_no_newline by (auto simp: csv_row_def show_u64_def)

lemma split_lines_rows: "split_lines (concat (map (\<lambda>cm. csv_row cm @ nl) cms)) = map csv_row cms"
  by (induction cms) (simp_all add: nl_def split_lines_line csv_row_no_newline)

text \<open>
  Remark (csv_roundtrip). The CSV file has the header and one line per tracked connection, in slot order,
  and the number at the start of each line is the identifier of its connection.
\<close>

theorem csv_roundtrip:
  assumes "perf_inv ctx"
  shows "split_lines (csv_text ctx) = csv_header # map csv_row (live_conns ctx) \<and>
         map (map_option fst \<circ> scan_ull) (tl (split_lines (csv_text ctx))) = map (Some \<circ> connection_id) (live_conns ctx)"
proof -
  have "CHR 0x0A \<notin> set csv_header" by (simp add: csv_header_def)
  moreover have "csv_text ctx = csv_header @ CHR 0x0A # concat (map (\<lambda>cm. csv_row cm @ nl) (live_conns ctx))"
    by (simp add: csv_text_def live_conns_nth [OF assms] nl_def comp_def)
  ultimately have l: "split_lines (csv_text ctx) = csv_header # map csv_row (live_conns ctx)"
    by (simp add: split_lines_line split_lines_rows)
  have "scan_ull (csv_row cm) = Some (connection_id cm, drop (length (show_u64 (connection_id cm))) (csv_row cm))" for cm
    using scan_ull_show [of "[]" "drop (length (show_u64 (connection_id cm))) (csv_row cm)" "connection_id cm"]
    by (simp add: csv_row_def show_u64_def is_digit_def)
  then show ?thesis using l by simp
qed

theorem csv_roundtrip_witness: "length (split_lines (csv_text full_ctx)) = 2"
  using csv_roundtrip [OF full_ctx_inv(1)] by (simp add: live_conns_def full_ctx_def)

end
