(* ===== verification/Capture_Handler.thy ===== *)
theory Capture_Handler
  imports Key_Provider Capture_Bpf Perf_Export
begin

text \<open>
  The event handler of the capture program, \<^verbatim>\<open>handle_tcp_event\<close> in \<^verbatim>\<open>capture/src/main.c\<close>: it receives the record
  a probe sent, asks the key provider for the session key and accounts for the connection.
\<close>

section \<open>The event record on its way to user space\<close>

text \<open>
  The probe sends the 24 bytes of \<^verbatim>\<open>struct tcp_connect_event\<close>; the handler reads them through its own declaration of
  the same structure.
\<close>

definition event_bytes :: "tcp_connect_event \<Rightarrow> byte list" where
  "event_bytes ev =
     le32 (ev_saddr ev) @ le32 (ev_daddr ev) @ le16 (ev_sport ev) @ le16 (ev_dport ev) @ le32 (ev_pid ev) @
     le_bytes 8 (unat (ev_timestamp ev))"

definition read_event :: "byte list \<Rightarrow> tcp_connect_event" where
  "read_event d =
     \<lparr>ev_saddr = of_nat (le_val (bytes_at 0 4 d)), ev_daddr = of_nat (le_val (bytes_at 4 4 d)),
      ev_sport = of_nat (le_val (bytes_at 8 2 d)), ev_dport = of_nat (le_val (bytes_at 10 2 d)),
      ev_pid = of_nat (le_val (bytes_at 12 4 d)), ev_timestamp = of_nat (le_val (bytes_at 16 8 d))\<rparr>"

lemma read_event_bytes [simp]: "read_event (event_bytes ev) = ev"
proof -
  have "le_val (le_bytes 8 (unat (ev_timestamp ev))) = unat (ev_timestamp ev)"
    using unat_u64_less [of "ev_timestamp ev"] by (simp add: le_val_le_bytes)
  then show ?thesis by (simp add: read_event_def event_bytes_def bytes_at_def)
qed

definition event_tuple :: "tcp_connect_event \<Rightarrow> flow_tuple" where
  "event_tuple ev = \<lparr>saddr = ev_saddr ev, daddr = ev_daddr ev, sport = ev_sport ev, dport = ev_dport ev\<rparr>"

section \<open>The handler\<close>

record capture_state =
  perf_ctx :: "perf_metrics_ctx option"
  provider :: provider_state

text \<open>The key record is an uninitialised local.\<close>

definition stack_key_info :: "os \<Rightarrow> hist \<Rightarrow> tls_key_info" where
  "stack_key_info os h =
     \<lparr>tki_key = uninit os h 32, tki_iv = bytes_at 32 16 (uninit os h 48),
      key_len = of_nat (le_val (bytes_at 48 4 (uninit os h 56))), iv_len = of_nat (le_val (bytes_at 52 4 (uninit os h 56)))\<rparr>"

text \<open>The calls guarded by \<^verbatim>\<open>if (perf_ctx && conn_index >= 0)\<close>.\<close>

definition measured ::
  "int \<Rightarrow> (perf_metrics_ctx \<Rightarrow> hist \<Rightarrow> (perf_metrics_ctx \<times> hist) outcome) \<Rightarrow> perf_metrics_ctx option \<Rightarrow> hist \<Rightarrow>
     (perf_metrics_ctx option \<times> hist) outcome"
where
  "measured i f pc h =
     (case pc of
        Some c \<Rightarrow> if i \<ge> 0 then and_then (f c h) (\<lambda>(c', h'). Ret (Some c', h')) else Ret (pc, h)
      | None \<Rightarrow> Ret (pc, h))"

definition start_connection :: "os \<Rightarrow> u64 \<Rightarrow> perf_metrics_ctx option \<Rightarrow> hist \<Rightarrow> (int \<times> perf_metrics_ctx option \<times> hist) outcome" where
  "start_connection os cid pc h =
     (case pc of
        None \<Rightarrow> Ret (-1, pc, h)
      | Some c \<Rightarrow>
          and_then (perf_metrics_connection_start cid c) (\<lambda>(i, c1).
            if i \<ge> 0 then and_then (perf_metrics_connection_latency_start os i c1 h) (\<lambda>(c2, h'). Ret (i, Some c2, h'))
            else Ret (i, Some c1, h)))"

text \<open>The handler up to the request for the key, and from its answer on.\<close>

definition begin_event :: "os \<Rightarrow> u64 \<Rightarrow> perf_metrics_ctx option \<Rightarrow> hist \<Rightarrow> (int \<times> perf_metrics_ctx option \<times> hist) outcome" where
  "begin_event os cid pc h =
     and_then (start_connection os cid pc h) (\<lambda>(i, pc1, h1).
       and_then (measured i (perf_metrics_key_negotiation_start os i) pc1 h1) (\<lambda>(pc2, h2). Ret (i, pc2, h2)))"

definition end_event :: "os \<Rightarrow> int \<Rightarrow> int \<Rightarrow> perf_metrics_ctx option \<Rightarrow> hist \<Rightarrow> (perf_metrics_ctx option \<times> hist) outcome" where
  "end_event os i ret pc h =
     and_then (measured i (perf_metrics_key_negotiation_end os i) pc h) (\<lambda>(pc1, h1).
       if ret < 0 then measured i (\<lambda>c h. Ret (perf_metrics_connection_end i False c, h)) pc1 h1
       else and_then (measured i (perf_metrics_connection_latency_end os i) pc1 h1) (\<lambda>(pc2, h2).
              measured i (\<lambda>c h. Ret (perf_metrics_connection_end i True c, h)) pc2 h2))"

definition handle_tcp_event :: "os \<Rightarrow> ssl_lib \<Rightarrow> byte list \<Rightarrow> capture_state \<Rightarrow> hist \<Rightarrow> (capture_state \<times> hist) outcome option" where
  "handle_tcp_event os lib data s h =
     (let ev = read_event data; tuple = event_tuple ev in
      case begin_event os (ev_timestamp ev) (perf_ctx s) h of
        Ret (i, pc, h1) \<Rightarrow>
          (case key_provider_get_key os lib (Some tuple) (Some (stack_key_info os h1)) (provider s) h1 of
             None \<Rightarrow> None
           | Some (ret, ki, pr, h2) \<Rightarrow>
               Some (and_then (end_event os i ret pc h2) (\<lambda>(pc', h3). Ret (\<lparr>perf_ctx = pc', provider = pr\<rparr>, h3))))
      | Exit e \<Rightarrow> Some (Exit e)
      | Fault \<Rightarrow> Some Fault)"

section \<open>From the captured socket to the key request\<close>

text \<open>
  Property C2 (captured_socket_reaches_key_request). Take any event the probes send for a socket. Read by the
  handler from its bytes, it yields a key request whose message names exactly that socket: the
  addresses as the kernel stores them, the local port in network order, and the remote port in the
  network order the kernel stores it in.
\<close>

theorem captured_socket_reaches_key_request:
  assumes "(sk, ev) \<in> set (snd (hits ps s))"
  shows "\<exists>e f. Sendmsg e sk f \<in> set ps \<and>
           read_my_msg (client_msg oc (event_tuple (read_event (event_bytes ev)))) =
             \<lparr>client_pod_ip = read_kernel (skc_rcv_saddr f), server_pod_ip = read_kernel (skc_daddr f),
              client_pod_port = htons (read_kernel (skc_num f)), server_pod_port = read_kernel (skc_dport f),
              opcode = opcode_byte oc, server = 0\<rparr>"
proof -
  obtain e f where "Sendmsg e sk f \<in> set ps" and
    "ev = \<lparr>ev_saddr = read_kernel (skc_rcv_saddr f), ev_daddr = read_kernel (skc_daddr f), ev_sport = read_kernel (skc_num f),
           ev_dport = htons (read_kernel (skc_dport f)), ev_pid = tgid e, ev_timestamp = ktime_ns e\<rparr>"
    using event_content [OF assms] by blast
  then show ?thesis by (auto simp: client_msg_read event_tuple_def)
qed

theorem captured_socket_reaches_key_request_witness:
  "\<exists>ev. (9, ev) \<in> set (snd (hits [Connect 9, Sendmsg demo_env 9 demo_fields] no_maps)) \<and>
     (\<exists>e f. Sendmsg e 9 f \<in> set [Connect 9, Sendmsg demo_env 9 demo_fields] \<and>
        server_pod_port (read_my_msg (client_msg TLS_SERVICE_FETCH (event_tuple (read_event (event_bytes ev))))) = read_kernel (skc_dport f))"
proof -
  let ?ev = "make_event demo_env (read_sock_info demo_env demo_fields)"
  have ev: "(9, ?ev) \<in> set (snd (hits [Connect 9, Sendmsg demo_env 9 demo_fields] no_maps))" by (rule demo_event)
  from captured_socket_reaches_key_request [OF ev, of TLS_SERVICE_FETCH] show ?thesis
    using ev by (metis my_msg.select_convs(4))
qed

section \<open>Accounting\<close>

text \<open>The books are balanced: nothing is active, and every tracked connection was counted as good or bad.\<close>

definition balanced :: "perf_metrics_ctx \<Rightarrow> bool" where
  "balanced c \<longleftrightarrow> perf_inv c \<and> active_connections (sys_metrics c) = 0 \<and>
     unat (successful_connections (pm_stats c)) + unat (failed_connections (pm_stats c)) = unat (total_connections (pm_stats c))"

text \<open>Between start and end the handler only writes into the slot.\<close>

definition same_books :: "perf_metrics_ctx \<Rightarrow> perf_metrics_ctx \<Rightarrow> bool" where
  "same_books c c' \<longleftrightarrow> (\<exists>x. c' = c\<lparr>conn_metrics := x\<rparr> \<and> length x = length (conn_metrics c))"

lemma same_books_refl: "same_books c c"
  unfolding same_books_def by (rule exI [of _ "conn_metrics c"]) simp

lemma same_books_trans: "same_books a b \<Longrightarrow> same_books b c \<Longrightarrow> same_books a c"
  by (auto simp: same_books_def)

lemma same_books_upd: "same_books c (upd_conn i cm c)"
  by (auto simp: same_books_def upd_conn_def)

lemma same_booksD:
  assumes "same_books c c'"
  shows "perf_inv c' = perf_inv c" "tracked c' i = tracked c i" "pm_stats c' = pm_stats c" "sys_metrics c' = sys_metrics c"
    "max_connections c' = max_connections c" "current_connections c' = current_connections c"
    "monitoring_enabled c' = monitoring_enabled c"
  using assms by (auto simp: same_books_def perf_inv_def tracked_def)

lemma recording_same_books:
  "perf_metrics_connection_latency_start os i c h = Ret (c', h') \<Longrightarrow> same_books c c'"
  "perf_metrics_connection_latency_end os i c h = Ret (c', h') \<Longrightarrow> same_books c c'"
  "perf_metrics_key_negotiation_start os i c h = Ret (c', h') \<Longrightarrow> same_books c c'"
  "perf_metrics_key_negotiation_end os i c h = Ret (c', h') \<Longrightarrow> same_books c c'"
  by (auto simp: recording_defs with_slot_Ret same_books_refl same_books_upd split: if_splits)

lemma recording_keeps_books:
  assumes "perf_inv c"
  shows "\<exists>c' h'. perf_metrics_connection_latency_start os i c h = Ret (c', h') \<and> same_books c c'"
    "\<exists>c' h'. perf_metrics_connection_latency_end os i c h = Ret (c', h') \<and> same_books c c'"
    "\<exists>c' h'. perf_metrics_key_negotiation_start os i c h = Ret (c', h') \<and> same_books c c'"
    "\<exists>c' h'. perf_metrics_key_negotiation_end os i c h = Ret (c', h') \<and> same_books c c'"
  by (meson assms recording_total recording_same_books)+

lemma measured_books:
  assumes "\<exists>c' h'. f c h = Ret (c', h') \<and> same_books c c'"
  shows "\<exists>c' h'. measured i f (Some c) h = Ret (Some c', h') \<and> same_books c c'"
  using assms by (auto simp: measured_def same_books_refl)

text \<open>The books after a start and an end that both took effect.\<close>

definition booked :: "bool \<Rightarrow> perf_metrics_ctx \<Rightarrow> perf_metrics_ctx \<Rightarrow> bool" where
  "booked ok c c' \<longleftrightarrow>
     max_connections c' = max_connections c \<and> monitoring_enabled c' = monitoring_enabled c \<and>
     current_connections c' = current_connections c + 1 \<and>
     total_connections (pm_stats c') = total_connections (pm_stats c) + 1 \<and>
     successful_connections (pm_stats c') = successful_connections (pm_stats c) + (if ok then 1 else 0) \<and>
     failed_connections (pm_stats c') = failed_connections (pm_stats c) + (if ok then 0 else 1)"

lemma booked_end:
  fixes ok :: bool
  assumes "balanced c" and "monitoring_enabled c" and "current_connections c < max_connections c"
    and "perf_metrics_connection_start cid c = Ret (i, c1)" and "same_books c1 c2"
  defines "c3 \<equiv> perf_metrics_connection_end i ok c2"
  shows "balanced c3 \<and> booked ok c c3"
proof -
  let ?st = "pm_stats c"
  have inv: "perf_inv c" and a0: "active_connections (sys_metrics c) = 0"
    and sum: "unat (successful_connections ?st) + unat (failed_connections ?st) = unat (total_connections ?st)"
    using assms(1) by (auto simp: balanced_def)
  have i: "i = uint (current_connections c)" and c1: "current_connections c1 = current_connections c + 1"
      "monitoring_enabled c1" "max_connections c1 = max_connections c"
      "pm_stats c1 = ?st\<lparr>total_connections := total_connections ?st + 1\<rparr>" "active_connections (sys_metrics c1) = 1"
    using assms(2,3,4) a0 by (auto simp: perf_inv_connection_start [OF inv])
  have inv1: "perf_inv c1" using perf_inv_started [OF inv assms(4)] .
  have "int (unat (current_connections c)) < int (unat (current_connections c1))"
    using unat_Suc_u32 [OF assms(3)] c1(1) by simp
  then have "tracked c1 i" using c1(2) perf_invD(1) [OF inv1] i by (simp add: tracked_def)
  then have t: "tracked c2 i" using same_booksD(2) [OF assms(5)] by simp
  note b = same_booksD [OF assms(5)]
  have e: "pm_stats c3 = (if ok then (pm_stats c1)\<lparr>successful_connections := successful_connections ?st + 1\<rparr>
             else (pm_stats c1)\<lparr>failed_connections := failed_connections ?st + 1\<rparr>)"
    "active_connections (sys_metrics c3) = 0" "max_connections c3 = max_connections c"
    "current_connections c3 = current_connections c + 1" "monitoring_enabled c3 = monitoring_enabled c"
    using t b c1 assms(2) by (auto simp: c3_def perf_metrics_connection_end_def Let_def)
  have inv3: "perf_inv c3" unfolding c3_def using perf_inv_end b(1) inv1 by blast
  have "unat (total_connections ?st) < 4294967295"
    using inv assms(3) by (auto simp: perf_inv_def word_less_nat_alt)
  then have "unat (total_connections ?st + 1) = Suc (unat (total_connections ?st))"
    "unat (successful_connections ?st + 1) = Suc (unat (successful_connections ?st))"
    "unat (failed_connections ?st + 1) = Suc (unat (failed_connections ?st))"
    using sum by (auto intro!: unat_Suc_u64)
  then show ?thesis using inv3 e sum c1(4) by (auto simp: balanced_def booked_def)
qed

lemma begin_event_books:
  assumes "perf_inv c"
  shows "\<exists>i c1 c2 h'. perf_metrics_connection_start cid c = Ret (i, c1) \<and>
           begin_event os cid (Some c) h = Ret (i, Some c2, h') \<and> same_books c1 c2"
proof -
  have "\<exists>i c1. perf_metrics_connection_start cid c = Ret (i, c1)" by (auto simp: perf_inv_connection_start [OF assms])
  then obtain i c1 where st: "perf_metrics_connection_start cid c = Ret (i, c1)" by blast
  have inv1: "perf_inv c1" using perf_inv_started [OF assms st] .
  obtain c1' h1 where s1: "start_connection os cid (Some c) h = Ret (i, Some c1', h1)" "same_books c1 c1'"
    using st recording_keeps_books(1) [OF inv1, of os i h] same_books_refl [of c1] by (cases "0 \<le> i") (auto simp: start_connection_def)
  then have "perf_inv c1'" using inv1 same_booksD(1) by blast
  then obtain c2 h2 where "measured i (perf_metrics_key_negotiation_start os i) (Some c1') h1 = Ret (Some c2, h2)" "same_books c1' c2"
    using measured_books recording_keeps_books(3) by metis
  then show ?thesis using st s1 by (auto simp: begin_event_def dest: same_books_trans)
qed

lemma end_event_books:
  assumes "perf_inv c"
  shows "\<exists>c' h'. same_books c c' \<and>
           end_event os i ret (Some c) h = Ret (Some (if 0 \<le> i then perf_metrics_connection_end i (\<not> ret < 0) c' else c'), h')"
proof -
  obtain c1 h1 where 1: "measured i (perf_metrics_key_negotiation_end os i) (Some c) h = Ret (Some c1, h1)" "same_books c c1"
    using measured_books recording_keeps_books(4) [OF assms] by metis
  then have "perf_inv c1" using assms same_booksD(1) by blast
  then obtain c2 h2 where 2: "measured i (perf_metrics_connection_latency_end os i) (Some c1) h1 = Ret (Some c2, h2)" "same_books c1 c2"
    using measured_books recording_keeps_books(2) by metis
  then have "same_books c c2" using 1 same_books_trans by blast
  with 1 2 show ?thesis by (cases "ret < 0"; cases "0 \<le> i") (auto simp: end_event_def measured_def)
qed

lemma handler_cases:
  assumes "perf_ctx s = Some c" and "balanced c" and "handle_tcp_event os lib d s h = Some x"
  shows "\<exists>s' h' c' h2 k ret ki h3. x = Ret (s', h') \<and> perf_ctx s' = Some c' \<and> balanced c' \<and>
           key_provider_get_key os lib (Some (event_tuple (read_event d))) (Some k) (provider s) h2 = Some (ret, ki, provider s', h3) \<and>
           (if monitoring_enabled c \<and> current_connections c < max_connections c then booked (\<not> ret < 0) c c' else same_books c c')"
proof -
  let ?ev = "read_event d"
  have inv: "perf_inv c" using assms(2) by (simp add: balanced_def)
  define ok where "ok \<longleftrightarrow> monitoring_enabled c \<and> current_connections c < max_connections c"
  obtain i c1 c2 h2 where st: "perf_metrics_connection_start (ev_timestamp ?ev) c = Ret (i, c1)"
    and b: "begin_event os (ev_timestamp ?ev) (Some c) h = Ret (i, Some c2, h2)" "same_books c1 c2"
    using begin_event_books [OF inv] by blast
  have i: "0 \<le> i \<longleftrightarrow> ok" "\<not> ok \<Longrightarrow> c1 = c" using st by (auto simp: perf_inv_connection_start [OF inv] ok_def split: if_splits)
  have "perf_inv c2" using perf_inv_started [OF inv st] same_booksD(1) [OF b(2)] by simp
  obtain ret ki pr h3 where gk: "key_provider_get_key os lib (Some (event_tuple ?ev)) (Some (stack_key_info os h2)) (provider s) h2 = Some (ret, ki, pr, h3)"
    using assms(1,3) b by (auto simp: handle_tcp_event_def Let_def split: option.splits)
  obtain c3 h4 where e: "same_books c2 c3"
      "end_event os i ret (Some c2) h3 = Ret (Some (if 0 \<le> i then perf_metrics_connection_end i (\<not> ret < 0) c3 else c3), h4)"
    using end_event_books [OF \<open>perf_inv c2\<close>] by blast
  define c' where "c' = (if ok then perf_metrics_connection_end i (\<not> ret < 0) c3 else c3)"
  have x: "x = Ret (\<lparr>perf_ctx = Some c', provider = pr\<rparr>, h4)"
    using assms(1,3) b gk e(2) i(1) by (simp add: handle_tcp_event_def Let_def c'_def)
  have bend: "same_books c1 c3" using b(2) e(1) same_books_trans by blast
  have "balanced c' \<and> (if ok then booked (\<not> ret < 0) c c' else same_books c c')"
  proof (cases ok)
    case True
    then show ?thesis using booked_end [OF assms(2) _ _ st bend, of "\<not> ret < 0"] by (simp add: ok_def c'_def)
  next
    case False
    then have "same_books c c'" using bend i(2) by (simp add: c'_def)
    then show ?thesis using False assms(2) same_booksD [of c c'] by (simp add: balanced_def)
  qed
  with x gk show ?thesis unfolding ok_def by fastforce
qed

text \<open>
  Property C26 (handler_books_key_outcome). With balanced books and a free slot, a handler call that returns
  tracks the connection under the time stamp of its event, asks for the key of exactly the event's
  four-tuple, and counts the connection once: as successful if a key was obtained and as failed
  otherwise. The books are balanced again.
\<close>

theorem handler_books_key_outcome:
  assumes "perf_ctx s = Some c" and "balanced c" and "monitoring_enabled c" and "current_connections c < max_connections c"
    and "handle_tcp_event os lib d s h = Some x"
  shows "\<exists>s' h' c' h2 k ret ki h3. x = Ret (s', h') \<and> perf_ctx s' = Some c' \<and> balanced c' \<and>
           key_provider_get_key os lib (Some (event_tuple (read_event d))) (Some k) (provider s) h2 = Some (ret, ki, provider s', h3) \<and>
           booked (\<not> ret < 0) c c'"
  using handler_cases [OF assms(1,2,5)] assms(3,4) by auto

definition demo_ctx :: perf_metrics_ctx where
  "demo_ctx = full_ctx\<lparr>current_connections := 0, sys_metrics := zero_system, pm_stats := zero_stats\<rparr>"

lemma demo_ctx_ok: "balanced demo_ctx" "monitoring_enabled demo_ctx" "current_connections demo_ctx < max_connections demo_ctx"
  by (simp_all add: demo_ctx_def full_ctx_def balanced_def perf_inv_def zero_system_def zero_stats_def)

text \<open>In the OpenSSL mode without a library context every request for a key fails at once, so the handler returns.\<close>

definition ssl_less :: provider_state where
  "ssl_less = provider_start\<lparr>current_mode := MODE_OPENSSL\<rparr>"

definition demo_state :: capture_state where
  "demo_state = \<lparr>perf_ctx = Some demo_ctx, provider = ssl_less\<rparr>"

lemma demo_handled:
  assumes "perf_ctx s = Some c" and "balanced c" and "provider s = ssl_less"
  shows "\<exists>s' h' c'. handle_tcp_event os lib d s h = Some (Ret (s', h')) \<and> provider s' = ssl_less \<and> perf_ctx s' = Some c' \<and> balanced c' \<and>
           (if monitoring_enabled c \<and> current_connections c < max_connections c then booked False c c' else same_books c c')"
proof -
  have gk: "key_provider_get_key os lib (Some t) (Some k) ssl_less h = Some (-1, Some k, ssl_less, h)" for t k h
    by (simp add: ssl_less_def provider_start_def key_provider_get_key_def openssl_get_key_def)
  obtain i c2 h2 where b: "begin_event os (ev_timestamp (read_event d)) (Some c) h = Ret (i, Some c2, h2)"
    using assms(2) begin_event_books [of c "ev_timestamp (read_event d)" os h] by (auto simp: balanced_def)
  then have "\<exists>x. handle_tcp_event os lib d s h = Some x" using assms(1,3) gk by (simp add: handle_tcp_event_def)
  then obtain x where x: "handle_tcp_event os lib d s h = Some x" by blast
  from handler_cases [OF assms(1,2) this] x show ?thesis unfolding assms(3) gk by fastforce
qed

theorem handler_books_key_outcome_witness:
  "\<exists>s' h' c'. handle_tcp_event (const_os IoErr) no_ssl (replicate 24 1) demo_state [] = Some (Ret (s', h')) \<and>
     perf_ctx s' = Some c' \<and> (booked True demo_ctx c' \<or> booked False demo_ctx c')"
proof -
  have d: "perf_ctx demo_state = Some demo_ctx" "provider demo_state = ssl_less" by (simp_all add: demo_state_def)
  obtain x where x: "handle_tcp_event (const_os IoErr) no_ssl (replicate 24 1) demo_state [] = Some x"
    using demo_handled [OF d(1) demo_ctx_ok(1) d(2)] by blast
  from handler_books_key_outcome [OF d(1) demo_ctx_ok x] x show ?thesis by (metis (full_types))
qed

fun handle_step :: "os \<Rightarrow> ssl_lib \<Rightarrow> byte list \<Rightarrow> capture_state \<times> hist \<Rightarrow> (capture_state \<times> hist) option" where
  "handle_step os lib d (s, h) = (case handle_tcp_event os lib d s h of Some (Ret (s', h')) \<Rightarrow> Some (s', h') | _ \<Rightarrow> None)"

definition books_ok :: "u32 \<Rightarrow> capture_state \<times> hist \<Rightarrow> bool" where
  "books_ok mx = (\<lambda>(s, h). \<exists>c. perf_ctx s = Some c \<and> balanced c \<and> max_connections c = mx)"

interpretation handler: invariant_steps "handle_step os lib" "books_ok mx" for os lib mx
proof
  fix st d st' assume b: "books_ok mx st" and r: "handle_step os lib d st = Some st'"
  obtain s h where st: "st = (s, h)" by fastforce
  obtain s' h' where st': "st' = (s', h')" by fastforce
  from b obtain c where c: "perf_ctx s = Some c" "balanced c" "max_connections c = mx" by (auto simp: books_ok_def st)
  have "handle_tcp_event os lib d s h = Some (Ret (s', h'))"
    using r by (auto simp: st st' split: option.splits outcome.splits)
  from handler_cases [OF c(1,2) this] c(3) show "books_ok mx st'"
    by (auto simp: books_ok_def st' booked_def dest: same_booksD(5) split: if_splits)
qed

text \<open>
  Property C27 (event_accounting_is_conserved). After any sequence of handled events, nothing is counted as active,
  the successful and failed connections add up to the total, and the total is at most the capacity of the metrics
  context.
\<close>

theorem event_accounting_is_conserved:
  assumes "perf_metrics_init os mx h = (Some (p, q, ctx), h0)" and "unat mx < 2147483648"
    and "run_steps (handle_step os lib) ds (\<lparr>perf_ctx = Some ctx, provider = pr\<rparr>, h0) = Some (s', h')"
  shows "\<exists>c. perf_ctx s' = Some c \<and> active_connections (sys_metrics c) = 0 \<and>
           unat (successful_connections (pm_stats c)) + unat (failed_connections (pm_stats c)) = unat (total_connections (pm_stats c)) \<and>
           unat (total_connections (pm_stats c)) \<le> unat mx"
proof -
  have "balanced ctx"
    using perf_inv_init(1) [OF assms(1,2)] perf_init_counters [OF assms(1)] by (simp add: balanced_def)
  then have "books_ok mx (\<lparr>perf_ctx = Some ctx, provider = pr\<rparr>, h0)"
    using perf_inv_init(2) [OF assms(1,2)] by (simp add: books_ok_def)
  from handler.run_inv [OF this assms(3)] show ?thesis
    by (auto simp: books_ok_def balanced_def perf_inv_def word_le_nat_alt)
qed

text \<open>Two handled events, both counted as failed.\<close>

theorem event_accounting_is_conserved_witness:
  "\<exists>ctx h0 s' h' c. perf_metrics_init (const_os IoErr) 2 [] = (Some (4096, 4096, ctx), h0) \<and>
     run_steps (handle_step (const_os IoErr) no_ssl) [replicate 24 1, replicate 24 2] (\<lparr>perf_ctx = Some ctx, provider = ssl_less\<rparr>, h0) = Some (s', h') \<and>
     perf_ctx s' = Some c \<and> active_connections (sys_metrics c) = 0 \<and> unat (total_connections (pm_stats c)) \<le> 2 \<and>
     unat (successful_connections (pm_stats c)) + unat (failed_connections (pm_stats c)) = 2"
proof -
  let ?os = "const_os IoErr"
  obtain ctx h0 where i: "perf_metrics_init ?os 2 [] = (Some (4096, 4096, ctx), h0)" using init_const_os by blast
  have lt: "unat (2 :: u32) < 2147483648" by simp
  note z = perf_inv_init [OF i lt] perf_init_counters [OF i]
  have en: "monitoring_enabled ctx" using i by (auto simp: perf_metrics_init_def Let_def split: if_splits)
  have bal: "balanced ctx" using z by (simp add: balanced_def)
  let ?s = "\<lparr>perf_ctx = Some ctx, provider = ssl_less\<rparr>"
  from demo_handled [of ?s ctx ?os no_ssl "replicate 24 1" h0] bal en z obtain s1 h1 c1 where
    1: "handle_tcp_event ?os no_ssl (replicate 24 1) ?s h0 = Some (Ret (s1, h1))" and p1: "provider s1 = ssl_less"
    and c1: "perf_ctx s1 = Some c1" "balanced c1" "booked False ctx c1"
    by auto
  from demo_handled [OF c1(1,2) p1, of ?os no_ssl "replicate 24 2" h1] c1(3) en z obtain s2 h2 c2 where
    2: "handle_tcp_event ?os no_ssl (replicate 24 2) s1 h1 = Some (Ret (s2, h2))" and c2: "perf_ctx s2 = Some c2" "booked False c1 c2"
    by (auto simp: booked_def)
  have run: "run_steps (handle_step ?os no_ssl) [replicate 24 1, replicate 24 2] (?s, h0) = Some (s2, h2)" using 1 2 by simp
  have "total_connections (pm_stats c2) = 2" using c1(3) c2(2) z by (simp add: booked_def)
  then have "unat (total_connections (pm_stats c2)) = 2" by simp
  with event_accounting_is_conserved [OF i lt run] i run c2(1) show ?thesis by fastforce
qed

end
