(* ===== verification/Capture_Config.thy ===== *)
theory Capture_Config
  imports Capture_Types CLib
begin

text \<open>
  The configuration file of the capture program: \<^verbatim>\<open>load_config\<close> in \<^verbatim>\<open>capture/src/main.c\<close>.
\<close>

section \<open>Loading\<close>

text \<open>The path is the 256-byte array of the structure.\<close>

record capture_config =
  cfg_mode :: key_provider_mode
  pod_node_config_path :: string

definition DEFAULT_POD_NODE_CONFIG :: string where
  "DEFAULT_POD_NODE_CONFIG = ''/etc/tlshub/pod_node_mapping.conf''"

definition DEFAULT_CONFIG_FILE :: string where
  "DEFAULT_CONFIG_FILE = ''/etc/tlshub/capture.conf''"

definition default_config :: "capture_config \<Rightarrow> capture_config" where
  "default_config c =
     c\<lparr>cfg_mode := MODE_TLSHUB, pod_node_config_path := strncpy (pod_node_config_path c) DEFAULT_POD_NODE_CONFIG 255\<rparr>"

definition cfg_set :: "string \<Rightarrow> string \<Rightarrow> capture_config \<Rightarrow> capture_config" where
  "cfg_set key val c =
     (if key = ''mode'' then
        (if val = ''tlshub'' then c\<lparr>cfg_mode := MODE_TLSHUB\<rparr>
         else if val = ''openssl'' then c\<lparr>cfg_mode := MODE_OPENSSL\<rparr>
         else if val = ''boringssl'' then c\<lparr>cfg_mode := MODE_BORINGSSL\<rparr>
         else c)
      else if key = ''pod_node_config'' then c\<lparr>pod_node_config_path := strncpy (pod_node_config_path c) val 255\<rparr>
      else c)"

fun config_lines :: "capture_config \<Rightarrow> string \<Rightarrow> capture_config outcome" where
  "config_lines c s =
     (case fgets 512 s of
        None \<Rightarrow> Ret c
      | Some (buf, rest) \<Rightarrow>
          let line = c_str buf in
          if first_char line = CHR ''#'' \<or> first_char line = CHR 0x0A then config_lines c rest
          else
            (case sscanf_s_eq_s 128 256 line of
               ScanFault \<Rightarrow> Fault
             | Scanned ws r \<Rightarrow>
                 (case ws of [k, v] \<Rightarrow> config_lines (cfg_set k v c) rest | _ \<Rightarrow> config_lines c rest)))"

declare config_lines.simps [simp del]

definition load_config :: "os \<Rightarrow> string \<Rightarrow> capture_config \<Rightarrow> hist \<Rightarrow> (int \<times> capture_config) outcome \<times> hist" where
  "load_config os config_file config h =
     (let c = default_config config in
      case os_fopen os h config_file of
        None \<Rightarrow> (Ret (0, c), h @ [FOpen config_file False])
      | Some s \<Rightarrow>
          (let h1 = h @ [FOpen config_file True] in
           case config_lines c s of
             Ret c' \<Rightarrow> (Ret (0, c'), h1 @ [FClose])
           | Exit e \<Rightarrow> (Exit e, h1)
           | Fault \<Rightarrow> (Fault, h1)))"

section \<open>Reference semantics\<close>

text \<open>The option a line sets, if any, and whether the two words fit the arrays of 128 and 256 bytes.\<close>

definition line_scan :: "string \<Rightarrow> scan_result" where
  "line_scan line =
     (if first_char line = CHR ''#'' \<or> first_char line = CHR 0x0A then Scanned [] [] else sscanf_s_eq_s 128 256 line)"

definition line_option :: "string \<Rightarrow> (string \<times> string) option" where
  "line_option line = (case line_scan line of Scanned [k, v] r \<Rightarrow> Some (k, v) | _ \<Rightarrow> None)"

definition apply_options :: "(string \<times> string) list \<Rightarrow> capture_config \<Rightarrow> capture_config" where
  "apply_options os c = fold (\<lambda>(k, v). cfg_set k v) os c"

lemma config_lines_step:
  "config_lines c s =
     (case fgets 512 s of
        None \<Rightarrow> Ret c
      | Some (buf, rest) \<Rightarrow>
          (case line_scan (c_str buf) of
             ScanFault \<Rightarrow> Fault
           | Scanned ws r \<Rightarrow>
               config_lines (case line_option (c_str buf) of Some (k, v) \<Rightarrow> cfg_set k v c | None \<Rightarrow> c) rest))"
  by (subst config_lines.simps)
    (auto simp: Let_def line_option_def line_scan_def split: option.splits scan_result.splits list.splits if_splits)

lemma config_chunks:
  "chunks 512 s = (case fgets 512 s of None \<Rightarrow> [] | Some (l, r) \<Rightarrow> c_str l # chunks 512 r)"
  by (subst chunks.simps) simp

lemma config_lines_options:
  assumes "\<forall>l \<in> set (chunks 512 s). line_scan l \<noteq> ScanFault"
  shows "config_lines c s = Ret (apply_options (List.map_filter line_option (chunks 512 s)) c)"
  using assms
proof (induction "length s" arbitrary: c s rule: less_induct)
  case less
  show ?case
  proof (cases "fgets 512 s")
    case None
    then show ?thesis by (simp add: config_lines_step [of c s] config_chunks [of s] map_filter_simps apply_options_def)
  next
    case (Some lr)
    then obtain l r where lr: "fgets 512 s = Some (l, r)" by (cases lr) auto
    then have r: "length r < length s" by (rule fgets_shorter) simp
    have ok: "line_scan (c_str l) \<noteq> ScanFault" "\<forall>l \<in> set (chunks 512 r). line_scan l \<noteq> ScanFault"
      using less.prems by (simp_all add: config_chunks [of s] lr)
    from ok(1) less.hyps [OF r ok(2)] show ?thesis
      by (simp add: config_lines_step [of c s] config_chunks [of s] lr map_filter_simps apply_options_def
          split: option.splits scan_result.splits)
  qed
qed

lemma cfg_set_other: "k \<noteq> ''mode'' \<Longrightarrow> k \<noteq> ''pod_node_config'' \<Longrightarrow> cfg_set k v c = c"
  by (simp add: cfg_set_def)

lemma apply_known_options:
  "apply_options xs d = apply_options (filter (\<lambda>(k, v). k = ''mode'' \<or> k = ''pod_node_config'') xs) d"
proof (induction xs arbitrary: d)
  case (Cons kv xs)
  obtain k v where kv: "kv = (k, v)" by fastforce
  show ?case
  proof (cases "k = ''mode'' \<or> k = ''pod_node_config''")
    case True
    then show ?thesis using Cons by (simp add: kv apply_options_def)
  next
    case False
    then show ?thesis using Cons cfg_set_other [of k v d] by (simp add: kv apply_options_def)
  qed
qed (simp add: apply_options_def)

text \<open>
  Remark (config_is_fold_of_options). When every line of the file fits its buffers, loading the
  configuration returns 0 with the defaults changed by the options of the lines of the form \<^verbatim>\<open>key = value\<close>, in
  file order; all other lines and all keys but \<^verbatim>\<open>mode\<close> and \<^verbatim>\<open>pod_node_config\<close> have no effect. A file that
  cannot be opened gives the defaults.
\<close>

theorem config_is_fold_of_options:
  assumes "\<forall>s. os_fopen os h f = Some s \<longrightarrow> (\<forall>l \<in> set (chunks 512 s). line_scan l \<noteq> ScanFault)"
  shows "fst (load_config os f c h) = Ret (0,
     case os_fopen os h f of
       None \<Rightarrow> default_config c
     | Some s \<Rightarrow> apply_options (filter (\<lambda>(k, v). k = ''mode'' \<or> k = ''pod_node_config'')
                   (List.map_filter line_option (chunks 512 s))) (default_config c))"
proof (cases "os_fopen os h f")
  case None
  then show ?thesis by (simp add: load_config_def Let_def)
next
  case (Some s)
  then have "config_lines (default_config c) s = Ret (apply_options (List.map_filter line_option (chunks 512 s)) (default_config c))"
    using assms config_lines_options by blast
  then show ?thesis using Some by (simp add: load_config_def Let_def flip: apply_known_options)
qed

definition demo_config :: string where
  "demo_config = ''mode = openssl'' @ [CHR 0x0A] @ ''verbose = false'' @ [CHR 0x0A]"

lemma demo_config_chunks: "chunks 512 demo_config = [''mode = openssl'' @ [CHR 0x0A], ''verbose = false'' @ [CHR 0x0A]]"
proof -
  let ?l1 = "''mode = openssl''" and ?l2 = "''verbose = false''"
  have 1: "fgets 512 demo_config = Some (?l1 @ [CHR 0x0A], ?l2 @ [CHR 0x0A])"
    using fgets_line [of ?l1 512 "?l2 @ [CHR 0x0A]"] by (simp add: demo_config_def)
  have 2: "fgets 512 (?l2 @ [CHR 0x0A]) = Some (?l2 @ [CHR 0x0A], [])"
    using fgets_line [of ?l2 512 "[]"] by simp
  have c: "c_str (?l1 @ [CHR 0x0A]) = ?l1 @ [CHR 0x0A]" "c_str (?l2 @ [CHR 0x0A]) = ?l2 @ [CHR 0x0A]"
    by (intro c_str_id; simp add: NUL_def)+
  show ?thesis
    unfolding config_chunks [of demo_config] 1 option.case prod.case config_chunks [of "?l2 @ [CHR 0x0A]"] 2 c
    by (simp add: config_chunks [of "[]"] fgets_def)
qed

lemma demo_config_scan:
  "line_scan (''mode = openssl'' @ [CHR 0x0A]) = Scanned [''mode'', ''openssl''] [CHR 0x0A]"
  "line_scan (''verbose = false'' @ [CHR 0x0A]) = Scanned [''verbose'', ''false''] [CHR 0x0A]"
  by (simp_all add: line_scan_def first_char_def sscanf_s_eq_s_def scan_word_def skip_ws_def isspace_def Let_def)

theorem config_is_fold_of_options_witness:
  "\<exists>c. fst (load_config ((const_os IoErr)\<lparr>os_fopen := (\<lambda>h p. Some demo_config)\<rparr>) ''f''
          \<lparr>cfg_mode = MODE_TLSHUB, pod_node_config_path = replicate 256 NUL\<rparr> []) = Ret (0, c) \<and> cfg_mode c = MODE_OPENSSL"
proof -
  let ?os = "(const_os IoErr)\<lparr>os_fopen := (\<lambda>h p. Some demo_config)\<rparr>"
  have o: "List.map_filter line_option (chunks 512 demo_config) = [(''mode'', ''openssl''), (''verbose'', ''false'')]"
    by (simp only: demo_config_chunks map_filter_simps) (simp add: line_option_def demo_config_scan [simplified] map_filter_simps)
  have "\<forall>s. os_fopen ?os [] ''f'' = Some s \<longrightarrow> (\<forall>l \<in> set (chunks 512 s). line_scan l \<noteq> ScanFault)"
    by (simp add: demo_config_chunks demo_config_scan [simplified])
  from config_is_fold_of_options [OF this, of "\<lparr>cfg_mode = MODE_TLSHUB, pod_node_config_path = replicate 256 NUL\<rparr>"]
  show ?thesis by (simp add: o apply_options_def cfg_set_def default_config_def)
qed

section \<open>The path array\<close>

text \<open>
  Remark (config_path_termination). Setting the mapping path to a word of at most 254 characters, after the
  defaults were set, leaves an array that reads back as that word whatever the uninitialised
  structure contained. A word of 255 characters, which the scan buffer admits, fills the array up to the
  last byte, which the code never writes: unless that byte happens to be 0, the path is not terminated.
\<close>

theorem config_path_termination:
  assumes "length (pod_node_config_path c) = 256" and "is_word v" and "length v \<le> 255"
  defines "p \<equiv> pod_node_config_path (cfg_set ''pod_node_config'' v (default_config c))"
  shows "length p = 256 \<and> p ! 255 = pod_node_config_path c ! 255 \<and>
         (if length v \<le> 254 then c_str p = v
          else take 255 p = v \<and> (pod_node_config_path c ! 255 \<noteq> NUL \<longleftrightarrow> NUL \<notin> set p))"
proof -
  let ?a = "strncpy (pod_node_config_path c) DEFAULT_POD_NODE_CONFIG 255" and ?b = "pod_node_config_path c ! 255"
  have nul: "NUL \<notin> set v" using assms(2) by (auto simp: is_word_def)
  have dr: "drop 255 (pod_node_config_path c) = [?b]"
    using assms(1) by (simp add: Cons_nth_drop_Suc [symmetric])
  have "drop 255 ?a = [?b]" by (simp add: strncpy_def dr DEFAULT_POD_NODE_CONFIG_def)
  then have p: "p = v @ replicate (255 - length v) NUL @ [?b]"
    using assms(3) by (simp add: p_def cfg_set_def default_config_def strncpy_def)
  show ?thesis
  proof (cases "length v \<le> 254")
    case True
    then have "replicate (255 - length v) NUL = NUL # replicate (254 - length v) NUL"
      by (simp flip: replicate_Suc add: Suc_diff_le)
    then show ?thesis using True nul p by (simp add: nth_append)
  next
    case False
    then have "length v = 255" using assms(3) by simp
    then show ?thesis using p nul by (auto simp: nth_append)
  qed
qed

theorem config_path_termination_witness:
  "NUL \<notin> set (pod_node_config_path (cfg_set ''pod_node_config'' (replicate 255 (CHR ''a''))
       (default_config \<lparr>cfg_mode = MODE_TLSHUB, pod_node_config_path = replicate 256 (CHR ''x'')\<rparr>)))"
  using config_path_termination [of "\<lparr>cfg_mode = MODE_TLSHUB, pod_node_config_path = replicate 256 (CHR ''x'')\<rparr>" "replicate 255 (CHR ''a'')"]
  by (simp add: is_word_def isspace_def NUL_def)

end
