(* ===== verification/Pod_Mapping.thy ===== *)
theory Pod_Mapping
  imports Netlink_Wait CLib
begin

text \<open>
  The Pod-to-Node table, \<^verbatim>\<open>capture/src/pod_mapping.c\<close>: a fixed array of 1024 name pairs, filled from a
  text file with one pair per line and searched linearly.
\<close>

section \<open>The table and its operations\<close>

text \<open>The members are the 256-byte arrays of the structure, as character lists of that length.\<close>

record pod_node_mapping =
  pod_name :: string
  node_name :: string

record pod_node_table =
  mappings :: "pod_node_mapping list"
  count :: nat

definition MAX_POD_NAME :: nat where "MAX_POD_NAME = 256"
definition MAX_NODE_NAME :: nat where "MAX_NODE_NAME = 256"
definition MAX_MAPPINGS :: nat where "MAX_MAPPINGS = 1024"

lemmas pod_sizes = MAX_POD_NAME_def MAX_NODE_NAME_def MAX_MAPPINGS_def

definition pod_table_size :: nat where
  "pod_table_size = MAX_MAPPINGS * (MAX_POD_NAME + MAX_NODE_NAME) + 4"

definition zero_mapping :: pod_node_mapping where
  "zero_mapping = \<lparr>pod_name = replicate MAX_POD_NAME NUL, node_name = replicate MAX_NODE_NAME NUL\<rparr>"

definition zero_table :: pod_node_table where
  "zero_table = \<lparr>mappings = replicate MAX_MAPPINGS zero_mapping, count = 0\<rparr>"

definition add_mapping :: "pod_node_table \<Rightarrow> string \<Rightarrow> string \<Rightarrow> pod_node_table" where
  "add_mapping t p n =
     (let m = mappings t ! count t;
          m' = m\<lparr>pod_name := strncpy (pod_name m) p (MAX_POD_NAME - 1), node_name := strncpy (node_name m) n (MAX_NODE_NAME - 1)\<rparr>
      in t\<lparr>mappings := (mappings t)[count t := m'], count := count t + 1\<rparr>)"

text \<open>The reading loop, lines 34 to 46.\<close>

definition skip_line :: "string \<Rightarrow> bool" where
  "skip_line line \<longleftrightarrow> first_char line = CHR 0x0A \<or> first_char line = CHR ''#''"

fun load_lines :: "pod_node_table \<Rightarrow> string \<Rightarrow> pod_node_table outcome" where
  "load_lines t s =
     (case fgets 512 s of
        None \<Rightarrow> Ret t
      | Some (buf, rest) \<Rightarrow>
          if count t < MAX_MAPPINGS then
            let line = c_str buf in
            if skip_line line then load_lines t rest
            else
              (case sscanf_s_s MAX_POD_NAME MAX_NODE_NAME line of
                 ScanFault \<Rightarrow> Fault
               | Scanned ws r \<Rightarrow>
                   (case ws of [p, n] \<Rightarrow> load_lines (add_mapping t p n) rest | _ \<Rightarrow> load_lines t rest))
          else Ret t)"

declare load_lines.simps [simp del]

definition init_pod_node_mapping ::
  "os \<Rightarrow> string \<Rightarrow> hist \<Rightarrow> (ptr \<times> pod_node_table) option outcome \<times> hist"
where
  "init_pod_node_mapping os config_file h =
     (let p = os_malloc os h pod_table_size; h1 = h @ [Malloc pod_table_size p] in
      if p = NULL then (Ret None, h1)
      else
        case os_fopen os h1 config_file of
          None \<Rightarrow> (Ret None, h1 @ [FOpen config_file False, Free p])
        | Some s \<Rightarrow>
            (case load_lines zero_table s of
               Ret t \<Rightarrow> (Ret (Some (p, t)), h1 @ [FOpen config_file True, FClose])
             | Exit c \<Rightarrow> (Exit c, h1 @ [FOpen config_file True])
             | Fault \<Rightarrow> (Fault, h1 @ [FOpen config_file True])))"

function find_node :: "pod_node_table \<Rightarrow> string \<Rightarrow> nat \<Rightarrow> string option" where
  "find_node t p i =
     (if i < count t then
        if c_str (pod_name (mappings t ! i)) = c_str p then Some (c_str (node_name (mappings t ! i)))
        else find_node t p (i + 1)
      else None)"
  by pat_completeness auto
termination by (relation "measure (\<lambda>(t, p, i). count t - i)") auto

declare find_node.simps [simp del]

definition get_node_by_pod :: "pod_node_table option \<Rightarrow> string option \<Rightarrow> string option" where
  "get_node_by_pod table name =
     (case (table, name) of (Some t, Some p) \<Rightarrow> find_node t p 0 | _ \<Rightarrow> None)"

definition free_pod_node_mapping :: "ptr \<Rightarrow> hist \<Rightarrow> hist" where
  "free_pod_node_mapping p h = (if p \<noteq> NULL then h @ [Free p] else h)"

definition print_pod_node_mapping :: "pod_node_table option \<Rightarrow> string" where
  "print_pod_node_mapping table =
     (case table of
        None \<Rightarrow> ''Pod-Node mapping table is NULL'' @ [CHR 0x0A]
      | Some t \<Rightarrow>
          ''Pod-Node Mapping Table ('' @ show_nat (count t) @ '' entries):'' @ [CHR 0x0A] @
          pad_right 30 ''Pod Name'' @ '' '' @ pad_right 30 ''Node Name'' @ [CHR 0x0A] @
          replicate 60 (CHR ''-'') @ [CHR 0x0A] @
          concat (map (\<lambda>i. pad_right 30 (c_str (pod_name (mappings t ! i))) @ '' '' @
                           pad_right 30 (c_str (node_name (mappings t ! i))) @ [CHR 0x0A]) [0..<count t]))"

section \<open>The table as a list of pairs\<close>

definition table_wf :: "pod_node_table \<Rightarrow> bool" where
  "table_wf t \<longleftrightarrow> length (mappings t) = MAX_MAPPINGS \<and> count t \<le> MAX_MAPPINGS \<and>
     (\<forall>m \<in> set (mappings t). terminated MAX_POD_NAME (pod_name m) \<and> terminated MAX_NODE_NAME (node_name m))"

definition mapping_pair :: "pod_node_mapping \<Rightarrow> string \<times> string" where
  "mapping_pair m = (c_str (pod_name m), c_str (node_name m))"

definition table_entries :: "pod_node_table \<Rightarrow> (string \<times> string) list" where
  "table_entries t = map mapping_pair (take (count t) (mappings t))"

lemma zero_table_wf: "table_wf zero_table"
  by (simp add: table_wf_def zero_table_def zero_mapping_def terminated_def pod_sizes)

lemma zero_table_entries [simp]: "table_entries zero_table = []"
  by (simp add: table_entries_def zero_table_def)

lemma length_table_entries: "table_wf t \<Longrightarrow> length (table_entries t) = count t"
  by (simp add: table_entries_def table_wf_def)

lemma add_mapping_wf:
  assumes "table_wf t" and "count t < MAX_MAPPINGS"
  shows "table_wf (add_mapping t p n)"
proof -
  let ?m = "mappings t ! count t"
  have "?m \<in> set (mappings t)" using assms by (auto simp: table_wf_def)
  then have "terminated 256 (pod_name ?m)" "terminated 256 (node_name ?m)"
    using assms(1) by (auto simp: table_wf_def pod_sizes)
  then have "terminated 256 (strncpy (pod_name ?m) p 255)" "terminated 256 (strncpy (node_name ?m) n 255)"
    using terminated_strncpy [of 255] by simp_all
  then show ?thesis using assms
    by (auto simp: table_wf_def add_mapping_def Let_def pod_sizes dest!: set_update_subset_insert [THEN subsetD])
qed

lemma add_mapping_entries:
  assumes "table_wf t" and "count t < MAX_MAPPINGS" and "is_word p" "length p < 256" and "is_word n" "length n < 256"
  shows "table_entries (add_mapping t p n) = table_entries t @ [(p, n)]"
proof -
  let ?m = "mappings t ! count t"
  have len: "length (mappings t) = 1024" using assms(1) by (simp add: table_wf_def pod_sizes)
  then have "?m \<in> set (mappings t)" using assms(2) by (simp add: pod_sizes)
  then have "length (pod_name ?m) = 256" "pod_name ?m ! 255 = NUL" "length (node_name ?m) = 256" "node_name ?m ! 255 = NUL"
    using assms(1) by (auto simp: table_wf_def pod_sizes terminated_def)
  moreover have "NUL \<notin> set p" "NUL \<notin> set n" using assms(3,5) by (auto simp: is_word_def)
  ultimately have "c_str (strncpy (pod_name ?m) p 255) = p" "c_str (strncpy (node_name ?m) n 255) = n"
    using assms(4,6) by (auto intro!: c_str_strncpy)
  then show ?thesis using assms(2) len
    by (simp add: table_entries_def add_mapping_def Let_def pod_sizes take_Suc_conv_app_nth mapping_pair_def)
qed

section \<open>Reference semantics of the configuration file\<close>

text \<open>
  The file is read as the sequence of buffers \<^verbatim>\<open>fgets\<close> returns; the pair a buffer stands for is: none for comments,
  blank lines and lines of fewer than two words, otherwise the first two words.
\<close>

definition line_words :: "string \<Rightarrow> (string \<times> string) option" where
  "line_words line =
     (if skip_line line then None
      else case scan_word line of
        None \<Rightarrow> None
      | Some (p, r) \<Rightarrow> (case scan_word r of None \<Rightarrow> None | Some (n, _) \<Rightarrow> Some (p, n)))"

text \<open>A line is too long for the arrays if its first or second word has 256 characters or more.\<close>

definition line_fits :: "string \<Rightarrow> bool" where
  "line_fits line \<longleftrightarrow> skip_line line \<or>
     (case scan_word line of
        None \<Rightarrow> True
      | Some (p, r) \<Rightarrow> length p < 256 \<and> (case scan_word r of None \<Rightarrow> True | Some (n, _) \<Rightarrow> length n < 256))"

definition file_entries :: "string \<Rightarrow> (string \<times> string) list" where
  "file_entries s = List.map_filter line_words (chunks 512 s)"

lemma scan_word_skip_ws [simp]: "scan_word (skip_ws s) = scan_word s"
  by (simp add: scan_word_def skip_ws_def)

lemma load_lines_step:
  "load_lines t s =
     (case fgets 512 s of
        None \<Rightarrow> Ret t
      | Some (buf, rest) \<Rightarrow>
          if count t < MAX_MAPPINGS then
            if line_fits (c_str buf) then
              (case line_words (c_str buf) of None \<Rightarrow> load_lines t rest | Some (p, n) \<Rightarrow> load_lines (add_mapping t p n) rest)
            else Fault
          else Ret t)"
  by (subst load_lines.simps)
    (auto simp: Let_def line_fits_def line_words_def sscanf_s_s_def pod_sizes split: option.splits)

lemma scan_word_rest_no_NUL: "scan_word s = Some (w, r) \<Longrightarrow> NUL \<notin> set s \<Longrightarrow> NUL \<notin> set r"
  by (auto simp: scan_word_def Let_def skip_ws_def split: if_splits dest!: set_dropWhileD)

lemma line_words_ok:
  assumes "line_words (c_str l) = Some (p, n)" and "line_fits (c_str l)"
  shows "is_word p" "is_word n" "length p < 256" "length n < 256"
  using assms scan_word_is_word scan_word_rest_no_NUL c_str_no_NUL
  by (auto simp: line_words_def line_fits_def split: if_splits option.splits)

lemma chunks_step:
  "chunks 512 s = (case fgets 512 s of None \<Rightarrow> [] | Some (l, r) \<Rightarrow> c_str l # chunks 512 r)"
  by (subst chunks.simps) simp

text \<open>The loop computes the reference entries, cut at the capacity of the table.\<close>

lemma load_lines_entries:
  assumes "table_wf t" and "load_lines t s = Ret t'"
  shows "table_wf t' \<and> table_entries t' = take MAX_MAPPINGS (table_entries t @ file_entries s)"
  using assms
proof (induction "length s" arbitrary: t s rule: less_induct)
  case less
  have len: "length (table_entries t) = count t" "count t \<le> MAX_MAPPINGS"
    using less.prems(1) length_table_entries by (auto simp: table_wf_def)
  show ?case
  proof (cases "fgets 512 s")
    case None
    with less.prems len show ?thesis
      by (simp add: load_lines_step [of t s] file_entries_def chunks_step [of s] map_filter_simps)
  next
    case (Some lr)
    then obtain l r where lr: "fgets 512 s = Some (l, r)" by (cases lr) auto
    then have r: "length r < length s" by (rule fgets_shorter) simp
    show ?thesis
    proof (cases "count t < MAX_MAPPINGS")
      case False
      with less.prems lr len show ?thesis by (simp add: load_lines_step [of t s])
    next
      case True
      with less.prems lr have fits: "line_fits (c_str l)" by (auto simp: load_lines_step [of t s] split: if_splits)
      show ?thesis
      proof (cases "line_words (c_str l)")
        case None
        with True fits lr less.prems less.hyps [OF r] show ?thesis
          by (simp add: load_lines_step [of t s] file_entries_def chunks_step [of s] map_filter_simps)
      next
        case (Some pn)
        then obtain p n where pn: "line_words (c_str l) = Some (p, n)" by (cases pn) auto
        note w = line_words_ok [OF pn fits]
        have "load_lines (add_mapping t p n) r = Ret t'"
          using True fits lr less.prems(2) pn by (simp add: load_lines_step [of t s])
        from less.hyps [OF r add_mapping_wf [OF less.prems(1) True] this] lr pn show ?thesis
          by (simp add: add_mapping_entries [OF less.prems(1) True w(1,3,2,4)] file_entries_def chunks_step [of s] map_filter_simps)
      qed
    qed
  qed
qed

lemma load_lines_returns:
  assumes "\<forall>l \<in> set (chunks 512 s). line_fits l"
  shows "\<exists>t'. load_lines t s = Ret t'"
  using assms
proof (induction "length s" arbitrary: t s rule: less_induct)
  case less
  show ?case
  proof (cases "fgets 512 s")
    case None
    then show ?thesis by (simp add: load_lines_step [of t s])
  next
    case (Some lr)
    then obtain l r where lr: "fgets 512 s = Some (l, r)" by (cases lr) auto
    then have r: "length r < length s" by (rule fgets_shorter) simp
    from less.prems lr have "line_fits (c_str l)" "\<forall>l \<in> set (chunks 512 r). line_fits l"
      by (simp_all add: chunks_step [of s])
    with less.hyps [OF r] lr show ?thesis
      by (auto simp: load_lines_step [of t s] split: option.splits)
  qed
qed

lemma find_node_map_of:
  assumes "table_wf t" and "i \<le> count t"
  shows "find_node t p i = map_of (drop i (table_entries t)) (c_str p)"
  using assms
proof (induction "count t - i" arbitrary: i)
  case 0
  then show ?case by (simp add: find_node.simps length_table_entries)
next
  case (Suc k)
  then have i: "i < count t" "i < length (mappings t)" by (auto simp: table_wf_def)
  then have "drop i (table_entries t) = mapping_pair (mappings t ! i) # drop (i + 1) (table_entries t)"
    using Suc.prems(1) by (simp add: Cons_nth_drop_Suc [symmetric] length_table_entries) (simp add: table_entries_def)
  then show ?case using Suc i by (subst find_node.simps) (simp add: mapping_pair_def)
qed

lemma init_pod_node_mapping_table:
  assumes "init_pod_node_mapping os path h = (Ret (Some (p, t)), h')"
    and "os_fopen os (h @ [Malloc pod_table_size (os_malloc os h pod_table_size)]) path = Some s"
  shows "table_wf t \<and> table_entries t = take MAX_MAPPINGS (file_entries s)"
  using assms load_lines_entries [OF zero_table_wf]
  by (auto simp: init_pod_node_mapping_def Let_def split: if_splits option.splits outcome.splits)

section \<open>Properties\<close>

text \<open>
  Remark (pod_lookup_is_first_match). After a table was loaded from a file, looking up a Pod gives the
  Node of the first line that names it, among the first 1024 lines with a pair, and nothing when
  no such line names it; the count never exceeds 1024 and every name array stays zero-terminated.
\<close>

theorem pod_lookup_is_first_match:
  assumes "init_pod_node_mapping os path h = (Ret (Some (p, t)), h')"
    and "os_fopen os (h @ [Malloc pod_table_size (os_malloc os h pod_table_size)]) path = Some s"
  shows "table_wf t \<and> (\<forall>name. get_node_by_pod (Some t) (Some name) = map_of (take 1024 (file_entries s)) (c_str name))"
  using init_pod_node_mapping_table [OF assms] find_node_map_of [of t 0]
  by (simp add: get_node_by_pod_def pod_sizes)

text \<open>Writing a table as a file, in the format the configuration uses.\<close>

definition pod_config :: "(string \<times> string) list \<Rightarrow> string" where
  "pod_config ps = concat (map (\<lambda>(p, n). p @ '' '' @ n @ [CHR 0x0A]) ps)"

definition config_pair :: "string \<times> string \<Rightarrow> bool" where
  "config_pair = (\<lambda>(p, n). is_word p \<and> is_word n \<and> hd p \<noteq> CHR ''#'' \<and> length p < 256 \<and> length n < 256 \<and>
     length p + length n < 510)"

lemma config_line:
  assumes "config_pair (p, n)"
  defines "l \<equiv> p @ '' '' @ n @ [CHR 0x0A]"
  shows "fgets 512 (l @ s) = Some (l, s)" "c_str l = l" "line_words l = Some (p, n)" "line_fits l"
proof -
  have w: "is_word p" "is_word n" "length p < 256" "length n < 256" and h: "hd p \<noteq> CHR ''#''" "length p + length n < 510"
    using assms(1) by (auto simp: config_pair_def)
  have nl: "CHR 0x0A \<notin> set (p @ '' '' @ n)" using w(1,2) by (auto simp: is_word_def isspace_def)
  show "fgets 512 (l @ s) = Some (l, s)"
    using fgets_line [OF nl, of 512 s] h(2) by (simp add: l_def)
  show "c_str l = l" using w(1,2) by (intro c_str_id) (auto simp: l_def is_word_def NUL_def)
  have s1: "scan_word l = Some (p, '' '' @ n @ [CHR 0x0A])"
    using scan_word_words [OF w(1), of "CHR '' ''" "[]" "n @ [CHR 0x0A]"] by (simp add: l_def isspace_def)
  have s2: "scan_word ('' '' @ n @ [CHR 0x0A]) = Some (n, [CHR 0x0A])"
    using scan_word_words [OF w(2), of "CHR 0x0A" "'' ''" "[]"] by (simp add: isspace_def)
  obtain c q where "p = c # q" "c \<noteq> CHR 0x0A" using w(1) by (cases p) (auto simp: is_word_def isspace_def)
  then have "\<not> skip_line l" using h(1) by (simp add: skip_line_def first_char_def l_def)
  then show "line_words l = Some (p, n)" "line_fits l"
    using s1 s2 w(3,4) by (simp_all add: line_words_def line_fits_def)
qed

lemma pod_config_chunks:
  assumes "list_all config_pair ps"
  shows "file_entries (pod_config ps) = ps \<and> (\<forall>l \<in> set (chunks 512 (pod_config ps)). line_fits l)"
  using assms
proof (induction ps)
  case Nil
  show ?case by (simp add: pod_config_def file_entries_def chunks_step fgets_def map_filter_simps)
next
  case (Cons pn ps)
  obtain p n where pn: "pn = (p, n)" by fastforce
  then have c: "config_pair (p, n)" using Cons.prems by simp
  let ?l = "p @ '' '' @ n @ [CHR 0x0A]"
  have eq: "pod_config (pn # ps) = ?l @ pod_config ps" by (simp add: pod_config_def pn)
  have ch: "chunks 512 (pod_config (pn # ps)) = ?l # chunks 512 (pod_config ps)"
    unfolding eq by (subst chunks_step) (simp only: config_line [OF c] option.case prod.case)
  show ?case using Cons config_line(3,4) [OF c]
    by (simp add: file_entries_def ch [unfolded pn] map_filter_simps pn)
qed

text \<open>
  Property C36 (pod_config_roundtrip). A file written from at most 1024 pairs of names (words that do not
  start a comment and fit the line buffer and the arrays) loads, and the table answers exactly like
  the list of pairs it was written from.
\<close>

theorem pod_config_roundtrip:
  assumes "list_all config_pair ps" and "length ps \<le> 1024"
    and "os_malloc os h pod_table_size = p" and "p \<noteq> NULL"
    and "os_fopen os (h @ [Malloc pod_table_size p]) path = Some (pod_config ps)"
  shows "\<exists>t. init_pod_node_mapping os path h =
           (Ret (Some (p, t)), h @ [Malloc pod_table_size p, FOpen path True, FClose]) \<and>
         (\<forall>name. get_node_by_pod (Some t) (Some name) = map_of ps (c_str name))"
proof -
  obtain t where t: "load_lines zero_table (pod_config ps) = Ret t"
    using load_lines_returns pod_config_chunks [OF assms(1)] by blast
  then have i: "init_pod_node_mapping os path h = (Ret (Some (p, t)), h @ [Malloc pod_table_size p, FOpen path True, FClose])"
    using assms(3-5) by (simp add: init_pod_node_mapping_def Let_def)
  moreover have "table_wf t" "table_entries t = ps"
    using load_lines_entries [OF zero_table_wf t] pod_config_chunks [OF assms(1)] assms(2) by (simp_all add: pod_sizes)
  ultimately show ?thesis using find_node_map_of [of t 0] by (simp add: get_node_by_pod_def)
qed

text \<open>
  Property C37 (pod_config_long_word_overflows). The conversions have no width: a line that starts with a word
  of 256 to 510 characters makes \<^verbatim>\<open>sscanf\<close> write past the 256-byte array on the stack.
\<close>

theorem pod_config_long_word_overflows:
  assumes "is_word w" and "hd w \<noteq> CHR ''#''" and "256 \<le> length w" and "length w < 511"
    and "os_malloc os h pod_table_size \<noteq> NULL"
    and "os_fopen os (h @ [Malloc pod_table_size (os_malloc os h pod_table_size)]) path = Some (w @ CHR 0x0A # s)"
  shows "fst (init_pod_node_mapping os path h) = Fault"
proof -
  have nl: "CHR 0x0A \<notin> set w" and nul: "NUL \<notin> set w" using assms(1) by (auto simp: is_word_def isspace_def)
  have f: "fgets 512 (w @ CHR 0x0A # s) = Some (w @ [CHR 0x0A], s)" using assms(4) by (intro fgets_line nl) simp
  have c: "c_str (w @ [CHR 0x0A]) = w @ [CHR 0x0A]" using nul by (intro c_str_id) (simp add: NUL_def)
  have sc: "scan_word (w @ [CHR 0x0A]) = Some (w, [CHR 0x0A])"
    using scan_word_words [OF assms(1), of "CHR 0x0A" "[]" "[]"] by (simp add: isspace_def)
  obtain d v where "w = d # v" "d \<noteq> CHR 0x0A" using assms(1) by (cases w) (auto simp: is_word_def isspace_def)
  then have "\<not> line_fits (c_str (w @ [CHR 0x0A]))"
    using sc assms(2,3) unfolding c by (simp add: line_fits_def skip_line_def first_char_def)
  then have "load_lines zero_table (w @ CHR 0x0A # s) = Fault"
    by (subst load_lines_step) (simp only: f option.case prod.case, simp add: zero_table_def pod_sizes)
  then show ?thesis using assms(5,6) by (simp add: init_pod_node_mapping_def Let_def)
qed

text \<open>
  Remark (pod_init_resources). Loading the table closes every file it opens; when it returns a table it
  holds exactly that block, which \<^verbatim>\<open>free_pod_node_mapping\<close> releases, and otherwise it holds nothing.
\<close>

theorem pod_init_resources:
  assumes "init_pod_node_mapping os path h = (Ret r, h')"
  shows "file_balance h' = file_balance h \<and> fd_balance h' = fd_balance h \<and>
         mem_balance (case r of None \<Rightarrow> h' | Some (p, t) \<Rightarrow> free_pod_node_mapping p h') = mem_balance h"
  using assms
  by (auto simp: init_pod_node_mapping_def Let_def free_pod_node_mapping_def balance fun_eq_iff
      split: if_splits option.splits outcome.splits)

section \<open>Witnesses\<close>

definition file_os :: "string \<Rightarrow> os" where
  "file_os s = (const_os IoErr)\<lparr>os_fopen := (\<lambda>h p. Some s)\<rparr>"

lemma file_os_simps [simp]: "os_malloc (file_os s) h n = 4096" "os_fopen (file_os s) h p = Some s"
  by (simp_all add: file_os_def const_os_def)

definition demo_pairs :: "(string \<times> string) list" where
  "demo_pairs = [(''web'', ''node1''), (''db'', ''node2''), (''web'', ''node3'')]"

lemma demo_pairs_ok: "list_all config_pair demo_pairs" "length demo_pairs \<le> 1024"
  by (simp_all add: demo_pairs_def config_pair_def is_word_def isspace_def NUL_def)

theorem pod_config_roundtrip_witness:
  "\<exists>t h'. init_pod_node_mapping (file_os (pod_config demo_pairs)) ''m'' [] = (Ret (Some (4096, t)), h') \<and>
     get_node_by_pod (Some t) (Some ''web'') = Some ''node1''"
  using pod_config_roundtrip [OF demo_pairs_ok, of "file_os (pod_config demo_pairs)" "[]" 4096 "''m''"]
  by (auto simp: demo_pairs_def c_str_def NUL_def)

lemma demo_init:
  "\<exists>t h'. init_pod_node_mapping (file_os (pod_config demo_pairs)) ''m'' [] = (Ret (Some (4096, t)), h')"
proof -
  obtain t where "load_lines zero_table (pod_config demo_pairs) = Ret t"
    using load_lines_returns pod_config_chunks [OF demo_pairs_ok(1)] by blast
  then show ?thesis by (simp add: init_pod_node_mapping_def Let_def)
qed

theorem pod_lookup_is_first_match_witness:
  "\<exists>t h'. init_pod_node_mapping (file_os (pod_config demo_pairs)) ''m'' [] = (Ret (Some (4096, t)), h') \<and>
     get_node_by_pod (Some t) (Some ''db'') = Some ''node2''"
proof -
  obtain t h' where i: "init_pod_node_mapping (file_os (pod_config demo_pairs)) ''m'' [] = (Ret (Some (4096, t)), h')"
    using demo_init by blast
  have "file_entries (pod_config demo_pairs) = demo_pairs" using pod_config_chunks [OF demo_pairs_ok(1)] by blast
  then show ?thesis using pod_lookup_is_first_match [OF i file_os_simps(2)] i
    by (auto simp: demo_pairs_def c_str_def NUL_def)
qed

theorem pod_init_resources_witness:
  "\<exists>t h'. init_pod_node_mapping (file_os (pod_config demo_pairs)) ''m'' [] = (Ret (Some (4096, t)), h') \<and>
     mem_balance (free_pod_node_mapping 4096 h') = mem_balance []"
proof -
  obtain t h' where i: "init_pod_node_mapping (file_os (pod_config demo_pairs)) ''m'' [] = (Ret (Some (4096, t)), h')"
    using demo_init by blast
  then show ?thesis using pod_init_resources [OF i] by auto
qed

theorem pod_config_long_word_overflows_witness:
  "fst (init_pod_node_mapping (file_os (replicate 300 (CHR ''a'') @ [CHR 0x0A])) ''m'' []) = Fault"
  using pod_config_long_word_overflows [of "replicate 300 (CHR ''a'')" "file_os (replicate 300 (CHR ''a'') @ [CHR 0x0A])" "[]" "''m''" "[]"]
  by (simp add: is_word_def isspace_def NUL_def)

end
