(* ===== verification/Capture_Main.thy ===== *)
theory Capture_Main
  imports Capture_Handler Capture_Config Pod_Mapping
begin

text \<open>
  The capture program, \<^verbatim>\<open>main\<close> in \<^verbatim>\<open>capture/src/main.c\<close>: set-up in stages that all fall through to one clean-up,
  a polling loop that runs the event handler, and the report at the end. libbpf is a parameter.
\<close>

section \<open>Environment\<close>

text \<open>
  What libbpf answers: whether the object file opens at a path, the result of loading it, for each program
  whether it attaches, the descriptor of the event map and whether the event buffer can be made. \<open>early_signal\<close> says that a signal
  arrives between the installation of the handlers and the first test of \<^verbatim>\<open>keep_running\<close>.
\<close>

record bpf_lib =
  bpf_object_open_file :: "string \<Rightarrow> bool"
  bpf_object_load :: int
  bpf_program_attach :: "bool list"
  find_map_fd :: int
  perf_buffer_new :: bool
  early_signal :: bool

text \<open>
  One call of \<^verbatim>\<open>perf_buffer__poll\<close>: its result, the records it hands to the handler, whether a signal has arrived by
  the end of the iteration, and the wall clock after it.
\<close>

record poll_result =
  poll_err :: int
  poll_events :: "byte list list"
  poll_signal :: bool
  poll_time :: int

definition EINTR :: int where "EINTR = 4"
definition PERF_UPDATE_INTERVAL_SEC :: int where "PERF_UPDATE_INTERVAL_SEC = 5"
definition DEFAULT_MAX_CONNECTIONS :: u32 where "DEFAULT_MAX_CONNECTIONS = 1000"

section \<open>Stages\<close>

fun handle_all :: "os \<Rightarrow> ssl_lib \<Rightarrow> byte list list \<Rightarrow> capture_state \<Rightarrow> hist \<Rightarrow> (capture_state \<times> hist) outcome option" where
  "handle_all os lib [] s h = Some (Ret (s, h))"
| "handle_all os lib (d # ds) s h =
     (case handle_tcp_event os lib d s h of
        Some (Ret (s', h')) \<Rightarrow> handle_all os lib ds s' h'
      | x \<Rightarrow> x)"

definition periodic_update :: "os \<Rightarrow> int \<Rightarrow> int \<Rightarrow> capture_state \<Rightarrow> hist \<Rightarrow> int \<times> capture_state \<times> hist" where
  "periodic_update os now prev s h =
     (case perf_ctx s of
        Some c \<Rightarrow>
          if now - prev \<ge> PERF_UPDATE_INTERVAL_SEC then
            let (r, c', h') = perf_metrics_update_system os c h in (now, s\<lparr>perf_ctx := Some c'\<rparr>, h')
          else (prev, s, h)
      | None \<Rightarrow> (prev, s, h))"

text \<open>The loop, over the poll results it sees; \<open>None\<close> when it is still running after them (or a handler blocks).\<close>

fun main_loop ::
  "os \<Rightarrow> ssl_lib \<Rightarrow> poll_result list \<Rightarrow> int \<Rightarrow> capture_state \<Rightarrow> hist \<Rightarrow> (int \<times> capture_state \<times> hist) outcome option"
where
  "main_loop os lib [] prev s h = None"
| "main_loop os lib (p # ps) prev s h =
     (case handle_all os lib (poll_events p) s h of
        None \<Rightarrow> None
      | Some (Exit e) \<Rightarrow> Some (Exit e)
      | Some Fault \<Rightarrow> Some Fault
      | Some (Ret (s1, h1)) \<Rightarrow>
          if poll_err p < 0 \<and> poll_err p \<noteq> - EINTR then Some (Ret (poll_err p, s1, h1))
          else
            let (prev', s2, h2) = periodic_update os (poll_time p) prev s1 h1 in
            if poll_signal p then Some (Ret (poll_err p, s2, h2)) else main_loop os lib ps prev' s2 h2)"

text \<open>The \<^verbatim>\<open>while (keep_running)\<close>: a signal before its first test leaves \<open>err\<close> as the set-up has left it.\<close>

definition polling ::
  "os \<Rightarrow> ssl_lib \<Rightarrow> bool \<Rightarrow> poll_result list \<Rightarrow> int \<Rightarrow> int \<Rightarrow> capture_state \<Rightarrow> hist \<Rightarrow> (int \<times> capture_state \<times> hist) outcome option"
where
  "polling os lib early polls err prev s h =
     (if early then Some (Ret (err, s, h)) else main_loop os lib polls prev s h)"

text \<open>Attaching: the array of links has 10 elements, and an eleventh would be written past its end.\<close>

fun attach_all :: "bool list \<Rightarrow> nat \<Rightarrow> hist \<Rightarrow> (nat \<times> hist) outcome" where
  "attach_all [] n h = Ret (n, h)"
| "attach_all (ok # oks) n h =
     (if n \<ge> 10 then Fault
      else if ok then attach_all oks (n + 1) (h @ [BpfAcquire BpfLink]) else attach_all oks n h)"

definition bpf_paths :: "string list" where
  "bpf_paths = [''capture.bpf.o'', ''/usr/local/lib/capture.bpf.o'']"

text \<open>Result code, whether there is an object, the number of links, whether there is an event buffer.\<close>

definition bpf_setup :: "bpf_lib \<Rightarrow> hist \<Rightarrow> (int \<times> bool \<times> nat \<times> bool \<times> hist) outcome" where
  "bpf_setup bl h =
     (if \<not> list_ex (bpf_object_open_file bl) bpf_paths then Ret (-1, False, 0, False, h)
      else
        let h1 = h @ [BpfAcquire BpfObject] in
        if bpf_object_load bl \<noteq> 0 then Ret (bpf_object_load bl, True, 0, False, h1)
        else
          case attach_all (bpf_program_attach bl) 0 h1 of
            Ret (n, h2) \<Rightarrow>
              if find_map_fd bl < 0 then Ret (-1, True, n, False, h2)
              else if \<not> perf_buffer_new bl then Ret (-1, True, n, False, h2)
              else Ret (0, True, n, True, h2 @ [BpfAcquire PerfBuffer])
          | Exit e \<Rightarrow> Exit e
          | Fault \<Rightarrow> Fault)"

definition report :: "os \<Rightarrow> perf_metrics_ctx option \<Rightarrow> hist \<Rightarrow> perf_metrics_ctx option \<times> hist" where
  "report os pc h =
     (case pc of
        None \<Rightarrow> (pc, h)
      | Some c \<Rightarrow>
          let c1 = perf_metrics_print_report c;
              t = os_clock os h CLOCK_REALTIME; h1 = h @ [Clock CLOCK_REALTIME t];
              base = ''perf_metrics_'' @ show_int (tv_sec t);
              (r, pc2, h2) = perf_metrics_export_json os (Some (base @ ''.json'')) (Some c1) h1;
              (r', h3) = perf_metrics_export_csv os (Some (base @ ''.csv'')) pc2 h2
          in (pc2, h3))"

text \<open>
  The label \<^verbatim>\<open>cleanup\<close>. \<open>pp\<close> are the two blocks of the metrics context, \<open>pod\<close> the mapping table. Freeing a failed event
  buffer is a no-op of libbpf.
\<close>

definition cleanup ::
  "os \<Rightarrow> int \<Rightarrow> bool \<Rightarrow> nat \<Rightarrow> bool \<Rightarrow> (ptr \<times> ptr) option \<Rightarrow> ptr option \<Rightarrow> capture_state \<Rightarrow> hist \<Rightarrow> int \<times> hist"
where
  "cleanup os err obj links pb pp pod s h =
     (let (pc, h1) = report os (perf_ctx s) h;
          h2 = (if pb then h1 @ [BpfRelease PerfBuffer] else h1);
          h3 = h2 @ replicate links (BpfRelease BpfLink);
          h4 = (if obj then h3 @ [BpfRelease BpfObject] else h3);
          (pr, h5) = key_provider_cleanup (provider s) h4;
          h6 = (case (pc, pp) of (Some c, Some (p, q)) \<Rightarrow> perf_metrics_cleanup p q h5 | _ \<Rightarrow> h5);
          h7 = (case pod of Some p \<Rightarrow> free_pod_node_mapping p h6 | None \<Rightarrow> h6)
      in (if err < 0 then 1 else 0, h7))"

text \<open>Everything after the configuration is known.\<close>

definition run_capture ::
  "os \<Rightarrow> ssl_lib \<Rightarrow> bpf_lib \<Rightarrow> poll_result list \<Rightarrow> capture_config \<Rightarrow> hist \<Rightarrow> (int \<times> hist) outcome option"
where
  "run_capture os lib bl polls cfg h =
     (case init_pod_node_mapping os (c_str (pod_node_config_path cfg)) h of
        (Ret pt, h1) \<Rightarrow>
          (let pod = map_option fst pt in
           case key_provider_init os lib (cfg_mode cfg) provider_start h1 of
             None \<Rightarrow> None
           | Some (err, pr, h2) \<Rightarrow>
               if err < 0 then Some (Ret (cleanup os err False 0 False None pod \<lparr>perf_ctx = None, provider = pr\<rparr> h2))
               else
                 let (pm, h3) = perf_metrics_init os DEFAULT_MAX_CONNECTIONS h2;
                     pp = map_option (\<lambda>(p, q, c). (p, q)) pm;
                     s = \<lparr>perf_ctx = map_option (\<lambda>(p, q, c). c) pm, provider = pr\<rparr>
                 in case bpf_setup bl h3 of
                      Ret (err, obj, links, pb, h4) \<Rightarrow>
                        if \<not> pb then Some (Ret (cleanup os err obj links pb pp pod s h4))
                        else
                          let t = os_clock os h4 CLOCK_REALTIME; h5 = h4 @ [Clock CLOCK_REALTIME t] in
                          (case polling os lib (early_signal bl) polls err (tv_sec t) s h5 of
                             None \<Rightarrow> None
                           | Some (Ret (err', s', h6)) \<Rightarrow> Some (Ret (cleanup os err' obj links pb pp pod s' h6))
                           | Some (Exit e) \<Rightarrow> Some (Exit e)
                           | Some Fault \<Rightarrow> Some Fault)
                    | Exit e \<Rightarrow> Some (Exit e)
                    | Fault \<Rightarrow> Some Fault)
      | (Exit e, h1) \<Rightarrow> Some (Exit e)
      | (Fault, h1) \<Rightarrow> Some Fault)"

definition capture_main ::
  "os \<Rightarrow> ssl_lib \<Rightarrow> bpf_lib \<Rightarrow> poll_result list \<Rightarrow> string list \<Rightarrow> capture_config \<Rightarrow> hist \<Rightarrow> (int \<times> hist) outcome option"
where
  "capture_main os lib bl polls argv stack_config h =
     (let config_file = (if length argv > 1 then argv ! 1 else DEFAULT_CONFIG_FILE) in
      case load_config os config_file stack_config h of
        (Ret (err, cfg), h1) \<Rightarrow>
          if err < 0 then Some (Ret (1, h1))
          else if NUL \<notin> set (pod_node_config_path cfg) then Some Fault
          else run_capture os lib bl polls cfg h1
      | (Exit e, h1) \<Rightarrow> Some (Exit e)
      | (Fault, h1) \<Rightarrow> Some Fault)"

section \<open>Resources\<close>

text \<open>\<open>quiet h h'\<close>: between \<open>h\<close> and \<open>h'\<close> no stream and no libbpf object was gained or lost.\<close>

definition quiet :: "hist \<Rightarrow> hist \<Rightarrow> bool" where
  "quiet h h' \<longleftrightarrow> file_balance h' = file_balance h \<and> bpf_balance h' = bpf_balance h"

lemma quiet_refl [simp, intro]: "quiet h h"
  by (simp add: quiet_def)

lemma quiet_trans [trans]: "quiet a b \<Longrightarrow> quiet b c \<Longrightarrow> quiet a c"
  by (simp add: quiet_def)

lemma quiet_append: "file_balance es = 0 \<Longrightarrow> (\<And>x. bpf_balance es x = 0) \<Longrightarrow> quiet h (h @ es)"
  by (simp add: quiet_def balance fun_eq_iff)

lemma quiet_recv: "recv_loop os fd sw a h = Some (e, a', h') \<Longrightarrow> quiet h h'"
proof -
  assume "recv_loop os fd sw a h = Some (e, a', h')"
  then obtain rs where "h' = h @ map (RecvFrom fd) rs" using recv_loop_events by blast
  moreover have "file_balance (map (RecvFrom fd) rs) = 0" "bpf_balance (map (RecvFrom fd) rs) x = 0" for x
    by (induction rs) (simp_all add: balance)
  ultimately show ?thesis using quiet_append by blast
qed

lemma client_fetch_quiet: "client_fetch_key os tuple ki s h = Some (r, ki', s', h') \<Longrightarrow> quiet h h'"
  by (auto simp: client_fetch_key_def Let_def quiet_def fun_eq_iff balance split: option.splits if_splits)

lemma client_handshake_quiet:
  assumes "client_handshake os (Some t) s h = Some (r, s', h')"
  shows "quiet h h'"
proof (cases "netlink_sock s < 0")
  case True
  with assms show ?thesis by (simp add: client_handshake_def)
next
  case False
  define p where "p = (if hs_nlh s = NULL then os_malloc os h nlmsg_space else hs_nlh s)"
  define h1 where "h1 = (if hs_nlh s = NULL then h @ [Malloc nlmsg_space (os_malloc os h nlmsg_space)] else h)"
  have "quiet h h1" by (auto simp: h1_def balance intro: quiet_append)
  have pair: "(if hs_nlh s = NULL then (os_malloc os h nlmsg_space, h @ [Malloc nlmsg_space (os_malloc os h nlmsg_space)])
      else (hs_nlh s, h)) = (p, h1)"
    by (simp add: p_def h1_def)
  have "quiet h1 h'"
    using assms False
    by (auto simp: client_handshake_def Let_def pair quiet_def fun_eq_iff balance
        split: if_splits option.splits prod.splits wait_end.splits dest!: quiet_recv)
  then show ?thesis using \<open>quiet h h1\<close> quiet_trans by blast
qed

text \<open>What the whole run keeps of the provider: its mode, the ownership of the client, and no socket outside TLShub mode.\<close>

definition prov_ok :: "key_provider_mode \<Rightarrow> hist \<Rightarrow> hist \<Rightarrow> provider_state \<Rightarrow> hist \<Rightarrow> bool" where
  "prov_ok md b q pr h \<longleftrightarrow> current_mode pr = md \<and> client_owns b (kp_client pr, h) \<and> quiet q h \<and>
     (md \<noteq> MODE_TLSHUB \<longrightarrow> netlink_sock (kp_client pr) < 0)"

lemma fetch_or_handshake_inv:
  assumes "fetch_or_handshake fetch handshake t k s = Some (r, k', s')" and "I s"
    and "\<And>t k s r k' s'. fetch t k s = Some (r, k', s') \<Longrightarrow> I s \<Longrightarrow> I s'"
    and "\<And>t s r s'. handshake t s = Some (r, s') \<Longrightarrow> I s \<Longrightarrow> I s'"
  shows "I s'"
  using assms(1,2) assms(3,4) by (auto simp: fetch_or_handshake_def split: option.splits if_splits)

lemma openssl_quiet: "openssl_get_key lib k s h = (r, k', h') \<Longrightarrow> neutral h h' \<and> quiet h h'"
  by (auto simp: openssl_get_key_def Let_def neutral_def quiet_def fun_eq_iff balance split: if_splits prod.splits)

lemma get_key_prov_ok:
  assumes "key_provider_get_key os lib (Some t) (Some k) pr h = Some (r, ki, pr', h')" and "prov_ok md b q pr h"
  shows "prov_ok md b q pr' h'"
proof (cases "md = MODE_TLSHUB")
  case True
  let ?I = "\<lambda>(c, h). client_owns b (c, h) \<and> quiet q h"
  from assms True obtain k' c where f: "fetch_or_handshake (tlshub_source_fetch os) (tlshub_source_handshake os) t k (kp_client pr, h) = Some (r, k', c, h')"
    and pr': "pr' = pr\<lparr>kp_client := c\<rparr>"
    by (auto simp: key_provider_get_key_def prov_ok_def)
  have "?I (c, h')"
  proof (rule fetch_or_handshake_inv [OF f])
    show "?I (kp_client pr, h)" using assms(2) by (simp add: prov_ok_def)
    show "?I s'" if f: "tlshub_source_fetch os t k s = Some (r, k', s')" and i: "?I s" for t k s r k' s'
    proof -
      obtain c h c' h' where s: "s = (c, h)" "s' = (c', h')" by fastforce
      then obtain ki where fk: "client_fetch_key os (Some t) (Some k) c h = Some (r, ki, c', h')"
        using f by (auto simp: tlshub_source_fetch_def)
      have "client_owns b (c', h')"
        by (rule client_owns_neutral [of b c h]) (use i s fk client_fetch_key_neutral client_fetch_key_ret in auto)
      then show ?thesis using i s client_fetch_quiet [OF fk] quiet_trans [of q h h'] by simp
    qed
    show "?I s'" if f: "tlshub_source_handshake os t s = Some (r, s')" and i: "?I s" for t s r s'
    proof -
      obtain c h c' h' where s: "s = (c, h)" "s' = (c', h')" by fastforce
      then have hs: "client_handshake os (Some t) c h = Some (r, c', h')" using f by (simp add: tlshub_source_handshake_def)
      show ?thesis using i s client_handshake_quiet [OF hs] quiet_trans [of q h h'] client_handshake_owns [OF hs] by simp
    qed
  qed
  then show ?thesis using assms(2) True pr' by (simp add: prov_ok_def)
next
  case False
  have ssl: "client_owns b (kp_client pr, h') \<and> quiet q h'" if "openssl_get_key lib k pr h = (r, k', h')" for r k'
    using openssl_quiet [OF that] assms(2) client_owns_neutral [of b "kp_client pr" h h' "kp_client pr"] quiet_trans [of q h h']
    by (simp add: prov_ok_def)
  then show ?thesis using assms False
    by (cases md) (auto simp: key_provider_get_key_def boringssl_get_key_def prov_ok_def split: prod.splits)
qed

lemma prov_ok_append:
  assumes "prov_ok md b q pr h" and "neutral h h'" and "quiet h h'"
  shows "prov_ok md b q pr h'"
  using assms client_owns_neutral [OF _ assms(2)] quiet_trans [OF _ assms(3)] by (auto simp: prov_ok_def)

text \<open>The recording functions only read the clock, and the system update closes what it opens.\<close>

definition still :: "hist \<Rightarrow> hist \<Rightarrow> bool" where
  "still h h' \<longleftrightarrow> neutral h h' \<and> quiet h h'"

lemma still_refl [simp, intro]: "still h h"
  by (simp add: still_def)

lemma still_trans: "still a b \<Longrightarrow> still b c \<Longrightarrow> still a c"
  by (auto simp: still_def intro: neutral_trans quiet_trans)

lemmas still_defs = still_def neutral_def quiet_def fun_eq_iff balance

lemma still_clock [simp]: "still h (h @ [Clock c t])"
  by (simp add: still_defs)

lemma recording_still:
  "perf_metrics_connection_latency_start os i c h = Ret (c', h') \<Longrightarrow> still h h'"
  "perf_metrics_connection_latency_end os i c h = Ret (c', h') \<Longrightarrow> still h h'"
  "perf_metrics_key_negotiation_start os i c h = Ret (c', h') \<Longrightarrow> still h h'"
  "perf_metrics_key_negotiation_end os i c h = Ret (c', h') \<Longrightarrow> still h h'"
  by (auto simp: recording_defs with_slot_Ret perf_timepoint_start_def perf_timepoint_end_def Let_def split: if_splits)

lemma update_still: "perf_metrics_update_system os c h = (r, c', h') \<Longrightarrow> still h h'"
  by (auto simp: perf_metrics_update_system_def read_cpu_stat_def read_memory_usage_def Let_def still_defs
      split: if_splits option.splits prod.splits)

lemma measured_still:
  assumes "measured i f pc h = Ret (pc', h')" and "\<And>c h c' h'. f c h = Ret (c', h') \<Longrightarrow> still h h'"
  shows "still h h' \<and> (pc = None \<longleftrightarrow> pc' = None)"
  using assms by (auto simp: measured_def and_then_Ret split: if_splits option.splits)

lemma measured_stills:
  "measured i (perf_metrics_key_negotiation_start os i) pc h = Ret (pc', h') \<Longrightarrow> still h h' \<and> (pc = None \<longleftrightarrow> pc' = None)"
  "measured i (perf_metrics_key_negotiation_end os i) pc h = Ret (pc', h') \<Longrightarrow> still h h' \<and> (pc = None \<longleftrightarrow> pc' = None)"
  "measured i (perf_metrics_connection_latency_end os i) pc h = Ret (pc', h') \<Longrightarrow> still h h' \<and> (pc = None \<longleftrightarrow> pc' = None)"
  "measured i (\<lambda>c h. Ret (perf_metrics_connection_end i ok c, h)) pc h = Ret (pc', h') \<Longrightarrow> still h h' \<and> (pc = None \<longleftrightarrow> pc' = None)"
  by (erule measured_still, erule recording_still)+ (erule measured_still, simp)

lemma start_connection_still:
  "start_connection os cid pc h = Ret (i, pc', h') \<Longrightarrow> still h h' \<and> (pc = None \<longleftrightarrow> pc' = None)"
  by (auto simp: start_connection_def and_then_Ret recording_still(1) split: option.splits if_splits)

lemma begin_event_still:
  assumes "begin_event os cid pc h = Ret (i, pc', h')"
  shows "still h h' \<and> (pc = None \<longleftrightarrow> pc' = None)"
proof -
  from assms obtain pc1 h1 where "start_connection os cid pc h = Ret (i, pc1, h1)"
    and "measured i (perf_metrics_key_negotiation_start os i) pc1 h1 = Ret (pc', h')"
    by (auto simp: begin_event_def and_then_Ret)
  then show ?thesis using start_connection_still [of os cid pc h i pc1 h1] measured_stills(1) [of i os pc1 h1 pc' h'] still_trans [of h h1 h']
    by simp
qed

lemma end_event_still:
  assumes "end_event os i ret pc h = Ret (pc', h')"
  shows "still h h' \<and> (pc = None \<longleftrightarrow> pc' = None)"
proof -
  from assms obtain pc1 h1 where 1: "measured i (perf_metrics_key_negotiation_end os i) pc h = Ret (pc1, h1)"
    and rest: "(if ret < 0 then measured i (\<lambda>c h. Ret (perf_metrics_connection_end i False c, h)) pc1 h1
      else and_then (measured i (perf_metrics_connection_latency_end os i) pc1 h1) (\<lambda>(pc2, h2).
             measured i (\<lambda>c h. Ret (perf_metrics_connection_end i True c, h)) pc2 h2)) = Ret (pc', h')"
    by (auto simp: end_event_def and_then_Ret)
  have "still h1 h' \<and> (pc1 = None \<longleftrightarrow> pc' = None)"
  proof (cases "ret < 0")
    case True
    with rest show ?thesis using measured_stills(4) by simp
  next
    case False
    then obtain pc2 h2 where 2: "measured i (perf_metrics_connection_latency_end os i) pc1 h1 = Ret (pc2, h2)"
      and 3: "measured i (\<lambda>c h. Ret (perf_metrics_connection_end i True c, h)) pc2 h2 = Ret (pc', h')"
      using rest by (auto simp: and_then_Ret)
    show ?thesis using measured_stills(3) [OF 2] measured_stills(4) [OF 3] still_trans [of h1 h2 h'] by simp
  qed
  then show ?thesis using measured_stills(2) [OF 1] still_trans [of h h1 h'] by simp
qed

lemma prov_ok_still: "prov_ok md b q pr h \<Longrightarrow> still h h' \<Longrightarrow> prov_ok md b q pr h'"
  unfolding still_def using prov_ok_append by blast

lemma handler_prov_ok:
  assumes "handle_tcp_event os lib d s h = Some (Ret (s', h'))" and "prov_ok md b q (provider s) h"
  shows "prov_ok md b q (provider s') h' \<and> (perf_ctx s = None \<longleftrightarrow> perf_ctx s' = None)"
proof -
  let ?ev = "read_event d"
  obtain i pc1 h1 where st: "begin_event os (ev_timestamp ?ev) (perf_ctx s) h = Ret (i, pc1, h1)"
    using assms(1) by (auto simp: handle_tcp_event_def Let_def split: outcome.splits)
  obtain ret ki pr h2 where gk: "key_provider_get_key os lib (Some (event_tuple ?ev)) (Some (stack_key_info os h1)) (provider s) h1 = Some (ret, ki, pr, h2)"
    using assms(1) st by (auto simp: handle_tcp_event_def Let_def split: option.splits)
  obtain pc2 where e: "end_event os i ret pc1 h2 = Ret (pc2, h')" and s': "s' = \<lparr>perf_ctx = pc2, provider = pr\<rparr>"
    using assms(1) st gk by (auto simp: handle_tcp_event_def Let_def and_then_Ret)
  have "prov_ok md b q (provider s) h1" using assms(2) begin_event_still [OF st] prov_ok_still by blast
  then have "prov_ok md b q pr h2" by (rule get_key_prov_ok [OF gk])
  then show ?thesis using end_event_still [OF e] begin_event_still [OF st] prov_ok_still s' by auto
qed

lemma handle_all_prov_ok:
  "handle_all os lib ds s h = Some (Ret (s', h')) \<Longrightarrow> prov_ok md b q (provider s) h \<Longrightarrow>
     prov_ok md b q (provider s') h' \<and> (perf_ctx s = None \<longleftrightarrow> perf_ctx s' = None)"
proof (induction ds arbitrary: s h)
  case (Cons d ds)
  then obtain s1 h1 where 1: "handle_tcp_event os lib d s h = Some (Ret (s1, h1))"
    by (auto split: option.splits outcome.splits)
  from handler_prov_ok [OF 1 Cons.prems(2)] Cons.IH [of s1 h1] Cons.prems(1) 1 show ?case by simp
qed simp

lemma periodic_update_prov_ok:
  assumes "periodic_update os now prev s h = (prev', s', h')"
  shows "still h h' \<and> provider s' = provider s \<and> (perf_ctx s = None \<longleftrightarrow> perf_ctx s' = None)"
  using assms by (auto simp: periodic_update_def split: option.splits if_splits prod.splits dest: update_still)

lemma main_loop_prov_ok:
  "main_loop os lib ps prev s h = Some (Ret (err, s', h')) \<Longrightarrow> prov_ok md b q (provider s) h \<Longrightarrow>
     prov_ok md b q (provider s') h' \<and> (perf_ctx s = None \<longleftrightarrow> perf_ctx s' = None)"
proof (induction ps arbitrary: prev s h)
  case (Cons p ps)
  then obtain s1 h1 where 1: "handle_all os lib (poll_events p) s h = Some (Ret (s1, h1))"
    by (auto split: option.splits outcome.splits)
  obtain prev' s2 h2 where u: "periodic_update os (poll_time p) prev s1 h1 = (prev', s2, h2)" by (metis prod_cases3)
  note p1 = handle_all_prov_ok [OF 1 Cons.prems(2)]
  have p2: "prov_ok md b q (provider s2) h2" "perf_ctx s1 = None \<longleftrightarrow> perf_ctx s2 = None"
    using p1 periodic_update_prov_ok [OF u] prov_ok_still by auto
  show ?case using Cons.prems(1) 1 u p1 p2 Cons.IH [of prev' s2 h2] by (auto split: if_splits)
qed simp

lemma polling_prov_ok:
  "polling os lib early ps e prev s h = Some (Ret (err, s', h')) \<Longrightarrow> prov_ok md b q (provider s) h \<Longrightarrow>
     prov_ok md b q (provider s') h' \<and> (perf_ctx s = None \<longleftrightarrow> perf_ctx s' = None)"
  by (auto simp: polling_def dest: main_loop_prov_ok split: if_splits)

section \<open>Set-up and clean-up\<close>

definition ptr_count :: "ptr \<Rightarrow> ptr \<Rightarrow> int" where
  "ptr_count p x = (if p = x \<and> x \<noteq> NULL then 1 else 0)"

definition pod_count :: "ptr option \<Rightarrow> ptr \<Rightarrow> int" where
  "pod_count pod x = (case pod of None \<Rightarrow> 0 | Some p \<Rightarrow> ptr_count p x)"

definition perf_count :: "(ptr \<times> ptr) option \<Rightarrow> ptr \<Rightarrow> int" where
  "perf_count pp x = (case pp of None \<Rightarrow> 0 | Some (p, q) \<Rightarrow> ptr_count p x + ptr_count q x)"

definition bpf_count :: "bool \<Rightarrow> nat \<Rightarrow> bool \<Rightarrow> bpf_resource \<Rightarrow> int" where
  "bpf_count obj links pb r =
     (case r of BpfObject \<Rightarrow> of_bool obj | BpfLink \<Rightarrow> int links | PerfBuffer \<Rightarrow> of_bool pb)"

lemma pod_init_effect:
  assumes "init_pod_node_mapping os path h = (Ret r, h')"
  shows "fd_balance h' = fd_balance h" "quiet h h'" "mem_balance h' x = mem_balance h x + pod_count (map_option fst r) x"
  using assms
  by (auto simp: init_pod_node_mapping_def Let_def quiet_def balance fun_eq_iff pod_count_def ptr_count_def
      split: if_splits option.splits outcome.splits)

lemma client_init_quiet:
  assumes "tlshub_client_init os s h = Some (r, s', h')"
  shows "quiet h h'"
  using assms
  by (auto simp: tlshub_client_init_def Let_def quiet_def fun_eq_iff balance
      split: if_splits option.splits wait_end.splits dest!: quiet_recv)

lemma client_start_owns: "client_owns h (client_start, h)"
  by (auto simp: client_owns_def client_start_def)

lemma key_provider_init_ok:
  assumes "key_provider_init os lib md provider_start h = Some (err, pr, h')" and "-1 \<le> os_socket os h"
  shows "prov_ok md h h pr h'"
proof (cases "md = MODE_TLSHUB")
  case True
  then obtain c where i: "tlshub_client_init os client_start h = Some (err, c, h')" and "pr = provider_start\<lparr>current_mode := md, kp_client := c\<rparr>"
    using assms(1) by (auto simp: key_provider_init_def provider_start_def)
  then show ?thesis using True tlshub_client_init_owns [OF i assms(2)] client_init_quiet [OF i] by (simp add: prov_ok_def)
next
  case False
  then have pr: "current_mode pr = md" "kp_client pr = client_start" and "h' = h \<or> (\<exists>ok. h' = h @ [SslCtxNew ok])"
    using assms(1) by (auto simp: key_provider_init_def provider_start_def ssl_provider_init_def Let_def
        split: key_provider_mode.splits if_splits)
  then have "still h h'" by (auto simp: still_defs)
  then show ?thesis
    using pr False client_start_owns [of h] client_owns_neutral [of h client_start h h' client_start]
    by (simp add: prov_ok_def still_def client_start_def)
qed

lemma perf_init_effect:
  assumes "perf_metrics_init os mx h = (pm, h')"
  defines "pp \<equiv> map_option (\<lambda>(p, q, c). (p, q)) pm"
  shows "\<exists>es. h' = h @ es \<and> (\<forall>x. fd_balance es x = 0) \<and> file_balance es = 0 \<and> (\<forall>x. bpf_balance es x = 0) \<and>
           (\<forall>x. mem_balance es x = perf_count pp x) \<and> (\<forall>p q. pp = Some (p, q) \<longrightarrow> p \<noteq> NULL)"
  using assms(1)
  by (auto simp: perf_metrics_init_def Let_def pp_def perf_count_def ptr_count_def balance split: if_splits)

lemma attach_all_effect:
  "attach_all oks n h = Ret (n', h') \<Longrightarrow>
     \<exists>k. n' = n + k \<and> h' = h @ replicate k (BpfAcquire BpfLink)"
proof (induction oks arbitrary: n h)
  case (Cons ok oks)
  show ?case
  proof (cases ok)
    case True
    with Cons.prems obtain k where "n' = n + 1 + k" "h' = (h @ [BpfAcquire BpfLink]) @ replicate k (BpfAcquire BpfLink)"
      using Cons.IH [of "n + 1" "h @ [BpfAcquire BpfLink]"] by (auto split: if_splits)
    then show ?thesis by (intro exI [of _ "Suc k"]) simp
  next
    case False
    with Cons show ?thesis by (auto split: if_splits)
  qed
qed simp

lemma balance_replicate:
  "fd_balance (replicate k (BpfAcquire r)) x = 0" "mem_balance (replicate k (BpfAcquire r)) y = 0" "file_balance (replicate k (BpfAcquire r)) = 0"
  "fd_balance (replicate k (BpfRelease r)) x = 0" "mem_balance (replicate k (BpfRelease r)) y = 0" "file_balance (replicate k (BpfRelease r)) = 0"
  "bpf_balance (replicate k (BpfAcquire r)) z = (if r = z then int k else 0)"
  "bpf_balance (replicate k (BpfRelease r)) z = (if r = z then - int k else 0)"
  by (induction k) (simp_all add: balance)

lemma bpf_setup_effect:
  assumes "bpf_setup bl h = Ret (err, obj, links, pb, h')"
  shows "\<exists>es. h' = h @ es \<and> (\<forall>x. fd_balance es x = 0) \<and> (\<forall>x. mem_balance es x = 0) \<and> file_balance es = 0 \<and>
           (\<forall>r. bpf_balance es r = bpf_count obj links pb r)"
  using assms
  by (auto simp: bpf_setup_def Let_def bpf_count_def balance balance_replicate
      split: if_splits outcome.splits bpf_resource.splits dest!: attach_all_effect)

lemma report_still: "report os pc h = (pc', h') \<Longrightarrow> still h h' \<and> (pc = None \<longleftrightarrow> pc' = None)"
  by (auto simp: report_def perf_metrics_export_json_def perf_metrics_export_csv_def Let_def still_defs
      split: option.splits if_splits)

lemma provider_cleanup_effect:
  assumes "prov_ok md b q pr h" and "key_provider_cleanup pr h = (pr', h')"
  shows "fd_balance h' = fd_balance b" "mem_balance h' x = mem_balance b x + ptr_count (hs_nlh (kp_client pr)) x" "quiet h h'"
proof -
  have fd: "fd_balance h y = fd_balance b y + (if netlink_sock (kp_client pr) = y \<and> 0 \<le> y then 1 else 0)"
    and mem: "mem_balance h m = mem_balance b m + ptr_count (hs_nlh (kp_client pr)) m" for y m
    using assms(1) by (auto simp: prov_ok_def client_owns_def ptr_count_def)
  have md: "current_mode pr = md" "md \<noteq> MODE_TLSHUB \<Longrightarrow> netlink_sock (kp_client pr) < 0" using assms(1) by (auto simp: prov_ok_def)
  let ?fd = "netlink_sock (kp_client pr)"
  consider (sock) "0 \<le> ?fd" "h' = h @ [Close ?fd]" | (none) "?fd < 0" "h' = h \<or> h' = h @ [SslCtxFree]"
    using assms(2) md by (cases md) (auto simp: key_provider_cleanup_def tlshub_client_cleanup_def split: if_splits)
  then have "(\<forall>y. fd_balance h' y = fd_balance b y) \<and> (\<forall>y. mem_balance h' y = mem_balance h y) \<and> quiet h h'"
  proof cases
    case sock
    have "fd_balance h y = fd_balance b y + (if ?fd = y then 1 else 0)" for y using fd [of y] sock(1) by auto
    then show ?thesis using sock(2) by (simp add: balance quiet_def fun_eq_iff)
  next
    case none
    have "fd_balance h y = fd_balance b y" for y using fd [of y] none(1) by auto
    then show ?thesis using none(2) by (auto simp: balance quiet_def fun_eq_iff)
  qed
  then show "fd_balance h' = fd_balance b" "mem_balance h' x = mem_balance b x + ptr_count (hs_nlh (kp_client pr)) x" "quiet h h'"
    using mem by auto
qed

lemma cleanup_effect:
  assumes "cleanup os err obj links pb pp pod s h = (code, h')" and "prov_ok md b q (provider s) h"
    and "perf_ctx s = None \<longleftrightarrow> pp = None" and "\<forall>p q. pp = Some (p, q) \<longrightarrow> p \<noteq> NULL"
  shows "fd_balance h' = fd_balance b" and "file_balance h' = file_balance q"
    and "bpf_balance h' r = bpf_balance q r - bpf_count obj links pb r"
    and "\<exists>m. \<forall>x. mem_balance h' x = mem_balance b x + ptr_count m x - perf_count pp x - pod_count pod x"
    and "code = (if err < 0 then 1 else 0)"
proof -
  obtain pc h1 where r: "report os (perf_ctx s) h = (pc, h1)" by fastforce
  have r': "still h h1" "pc = None \<longleftrightarrow> pp = None" using report_still [OF r] assms(3) by auto
  define es where "es = (if pb then [BpfRelease PerfBuffer] else []) @ replicate links (BpfRelease BpfLink) @ (if obj then [BpfRelease BpfObject] else [])"
  obtain pr h5 where kc: "key_provider_cleanup (provider s) (h1 @ es) = (pr, h5)" by fastforce
  define fs where "fs = (case pp of None \<Rightarrow> [] | Some (p, q) \<Rightarrow> if q \<noteq> NULL then [Free q, Free p] else [Free p]) @
    (case pod of Some p \<Rightarrow> if p \<noteq> NULL then [Free p] else [] | None \<Rightarrow> [])"
  have e4: "(if obj then ((if pb then h1 @ [BpfRelease PerfBuffer] else h1) @ replicate links (BpfRelease BpfLink)) @ [BpfRelease BpfObject]
      else (if pb then h1 @ [BpfRelease PerfBuffer] else h1) @ replicate links (BpfRelease BpfLink)) = h1 @ es"
    by (simp add: es_def)
  have h6: "(case pc of None \<Rightarrow> h5 | Some c \<Rightarrow> (case pp of None \<Rightarrow> h5 | Some (p, q) \<Rightarrow> perf_metrics_cleanup p q h5)) =
      h5 @ (case pp of None \<Rightarrow> [] | Some (p, q) \<Rightarrow> if q \<noteq> NULL then [Free q, Free p] else [Free p])"
  proof (cases pp)
    case None
    then show ?thesis using r'(2) by simp
  next
    case (Some a)
    then obtain p q c where "pp = Some (p, q)" "pc = Some c" "p \<noteq> NULL" using r'(2) assms(4) by (cases a) auto
    then show ?thesis by (simp add: perf_metrics_cleanup_def)
  qed
  have h7: "(case pod of Some p \<Rightarrow> free_pod_node_mapping p h6 | None \<Rightarrow> h6) =
      h6 @ (case pod of Some p \<Rightarrow> if p \<noteq> NULL then [Free p] else [] | None \<Rightarrow> [])" for h6
    by (cases pod) (auto simp: free_pod_node_mapping_def)
  have "(code, h') = (if err < 0 then 1 else 0, h5 @ fs)"
    unfolding assms(1) [symmetric] cleanup_def Let_def r prod.case e4 kc h6 h7 fs_def by simp
  then have h': "h' = h5 @ fs" and "code = (if err < 0 then 1 else 0)" by simp_all
  then show "code = (if err < 0 then 1 else 0)" by blast
  have es: "fd_balance es x = 0" "mem_balance es y = 0" "file_balance es = 0" "bpf_balance es r = - bpf_count obj links pb r" for x y r
    by (auto simp: es_def balance balance_replicate bpf_count_def split: bpf_resource.splits)
  have fs: "fd_balance fs x = 0" "file_balance fs = 0" "bpf_balance fs r = 0" "mem_balance fs y = - perf_count pp y - pod_count pod y" for x y r
    using assms(4) by (auto simp: fs_def balance perf_count_def pod_count_def ptr_count_def split: option.splits)
  have pq: "prov_ok md b q (provider s) h1" using prov_ok_still [OF assms(2) r'(1)] .
  then have own: "prov_ok md b (q @ es) (provider s) (h1 @ es)"
    by (simp add: prov_ok_def client_owns_def quiet_def balance es fun_eq_iff)
  note kp = provider_cleanup_effect [OF own kc]
  have qe: "quiet (q @ es) h5" using own kp(3) quiet_trans by (auto simp: prov_ok_def)
  show "fd_balance h' = fd_balance b" using kp(1) by (simp add: h' balance fs fun_eq_iff)
  show "file_balance h' = file_balance q" using qe by (simp add: h' quiet_def balance fs es)
  show "bpf_balance h' r = bpf_balance q r - bpf_count obj links pb r" using qe by (simp add: h' quiet_def balance fs es fun_eq_iff)
  show "\<exists>m. \<forall>x. mem_balance h' x = mem_balance b x + ptr_count m x - perf_count pp x - pod_count pod x"
    by (intro exI [of _ "hs_nlh (kp_client (provider s))"]) (simp add: h' balance fs kp(2))
qed

lemma client_owns_shift:
  assumes "client_owns b (c, h)"
  shows "client_owns (b @ es) (c, h @ es)"
  using assms by (simp add: client_owns_def balance)

lemma loop_prov_ok:
  assumes "prov_ok md b q pr h" and "h' = h @ es"
  shows "prov_ok md (b @ es) h' pr h'"
  using assms client_owns_shift [of b "kp_client pr" h es] by (simp add: prov_ok_def)

definition released :: "hist \<Rightarrow> hist \<Rightarrow> bool" where
  "released h h' \<longleftrightarrow> fd_balance h' = fd_balance h \<and> file_balance h' = file_balance h \<and> bpf_balance h' = bpf_balance h \<and>
     (\<exists>m. \<forall>x. mem_balance h' x = mem_balance h x + ptr_count m x)"

lemma run_capture_releases:
  assumes run: "run_capture os lib bl polls cfg h = Some (Ret (code, h'))" and sock: "\<And>h. -1 \<le> os_socket os h"
  shows "released h h'"
proof -
  obtain pt h1 where p: "init_pod_node_mapping os (c_str (pod_node_config_path cfg)) h = (Ret pt, h1)"
    using run by (auto simp: run_capture_def split: prod.splits outcome.splits)
  define pod where "pod = map_option fst pt"
  note pe = pod_init_effect [OF p, folded pod_def]
  obtain err pr h2 where k: "key_provider_init os lib (cfg_mode cfg) provider_start h1 = Some (err, pr, h2)"
    using run p by (auto simp: run_capture_def Let_def split: option.splits)
  note k_ok = key_provider_init_ok [OF k sock]
  have q1: "file_balance h1 = file_balance h" "bpf_balance h1 = bpf_balance h" using pe(2) by (simp_all add: quiet_def)
  show ?thesis
  proof (cases "err < 0")
    case True
    then have c: "cleanup os err False 0 False None pod \<lparr>perf_ctx = None, provider = pr\<rparr> h2 = (code, h')"
      using run p k by (auto simp: run_capture_def Let_def pod_def)
    have "prov_ok (cfg_mode cfg) h1 h1 (provider \<lparr>perf_ctx = None, provider = pr\<rparr>) h2" using k_ok by simp
    from cleanup_effect [OF c this] pe(1) pe(3) q1 show ?thesis
      by (simp add: released_def fun_eq_iff bpf_count_def perf_count_def split: bpf_resource.splits)
  next
    case False
    obtain pm h3 where m: "perf_metrics_init os DEFAULT_MAX_CONNECTIONS h2 = (pm, h3)" by fastforce
    define pp where "pp = map_option (\<lambda>(p, q, c). (p, q)) pm"
    define s where "s = \<lparr>perf_ctx = map_option (\<lambda>(p, q, c). c) pm, provider = pr\<rparr>"
    obtain es1 where e1: "h3 = h2 @ es1" "\<forall>x. fd_balance es1 x = 0" "file_balance es1 = 0" "\<forall>x. bpf_balance es1 x = 0"
      "\<forall>x. mem_balance es1 x = perf_count pp x" "\<forall>p q. pp = Some (p, q) \<longrightarrow> p \<noteq> NULL"
      using perf_init_effect [OF m] unfolding pp_def by blast
    obtain err2 obj links pb h4 where b: "bpf_setup bl h3 = Ret (err2, obj, links, pb, h4)"
      using run p k False m by (auto simp: run_capture_def Let_def split: outcome.splits)
    obtain es2 where e2: "h4 = h3 @ es2" "\<forall>x. fd_balance es2 x = 0" "\<forall>x. mem_balance es2 x = 0" "file_balance es2 = 0"
      "\<forall>r. bpf_balance es2 r = bpf_count obj links pb r"
      using bpf_setup_effect [OF b] by blast
    have "h4 = h2 @ (es1 @ es2)" using e1(1) e2(1) by simp
    from loop_prov_ok [OF k_ok this] have p4: "prov_ok (cfg_mode cfg) (h1 @ es1 @ es2) h4 (provider s) h4" by (simp add: s_def)
    have none: "perf_ctx s = None \<longleftrightarrow> pp = None" by (simp add: s_def pp_def)
    have "\<exists>err' s' h6. cleanup os err' obj links pb pp pod s' h6 = (code, h') \<and>
        prov_ok (cfg_mode cfg) (h1 @ es1 @ es2) h4 (provider s') h6 \<and> (perf_ctx s' = None \<longleftrightarrow> pp = None)"
    proof (cases pb)
      case False
      then have "cleanup os err2 obj links pb pp pod s h4 = (code, h')"
        using run p k \<open>\<not> err < 0\<close> m b by (simp add: run_capture_def Let_def pp_def pod_def s_def)
      then show ?thesis using p4 none by (intro exI [of _ err2] exI [of _ s] exI [of _ h4]) simp
    next
      case True
      define t where "t = os_clock os h4 CLOCK_REALTIME"
      have p5: "prov_ok (cfg_mode cfg) (h1 @ es1 @ es2) h4 (provider s) (h4 @ [Clock CLOCK_REALTIME t])"
        using prov_ok_still [OF p4 still_clock] .
      obtain err' s' h6 where
        l: "polling os lib (early_signal bl) polls err2 (tv_sec t) s (h4 @ [Clock CLOCK_REALTIME t]) = Some (Ret (err', s', h6))"
        and "cleanup os err' obj links pb pp pod s' h6 = (code, h')"
        using run p k \<open>\<not> err < 0\<close> m b True
        by (auto simp: run_capture_def Let_def pp_def pod_def s_def t_def split: option.splits outcome.splits)
      then show ?thesis using polling_prov_ok [OF l p5] none by (intro exI [of _ err'] exI [of _ s'] exI [of _ h6]) simp
    qed
    then obtain err' s' h6 where c: "cleanup os err' obj links pb pp pod s' h6 = (code, h')"
      and ok: "prov_ok (cfg_mode cfg) (h1 @ es1 @ es2) h4 (provider s') h6" "perf_ctx s' = None \<longleftrightarrow> pp = None" by (elim exE conjE)
    note ce = cleanup_effect [OF c ok e1(6)]
    have "file_balance h2 = file_balance h1" "bpf_balance h2 = bpf_balance h1" using k_ok by (simp_all add: prov_ok_def quiet_def)
    then have "file_balance h4 = file_balance h" "bpf_balance h4 r = bpf_balance h r + bpf_count obj links pb r" for r
      using q1 e1 e2 by (simp_all add: balance)
    then show ?thesis
      using ce(1-4) pe(1) pe(3) e1(2,5) e2(2,3) by (simp add: released_def fun_eq_iff balance)
  qed
qed

lemma load_config_effect:
  assumes "load_config os f c h = (r, h')" and "\<exists>x. r = Ret x"
  shows "still h h'"
  using assms by (auto simp: load_config_def Let_def still_defs split: option.splits outcome.splits)

text \<open>
  Property C1 (main_releases_everything). Whenever the capture program returns from \<^verbatim>\<open>main\<close>, from whichever stage and
  whatever the kernel, libbpf, the key service and the configuration did, it has closed every descriptor,
  every file, every libbpf object, link and event buffer it opened, and freed all memory but at most one
  block, the handshake buffer of the key client.
\<close>

theorem main_releases_everything:
  assumes "capture_main os lib bl polls argv stack_config h = Some (Ret (code, h'))" and "\<And>h. -1 \<le> os_socket os h"
  shows "fd_balance h' = fd_balance h \<and> file_balance h' = file_balance h \<and> bpf_balance h' = bpf_balance h \<and>
         (mem_balance h' = mem_balance h \<or> (\<exists>p. mem_balance h' = (mem_balance h)(p := mem_balance h p + 1)))"
proof -
  define f where "f = (if length argv > 1 then argv ! 1 else DEFAULT_CONFIG_FILE)"
  obtain err cfg h1 where l: "load_config os f stack_config h = (Ret (err, cfg), h1)"
    using assms(1) by (auto simp: capture_main_def f_def Let_def split: prod.splits outcome.splits)
  have s: "still h h1" using load_config_effect [OF l] by blast
  have e0: "err = 0" using l by (auto simp: load_config_def Let_def split: option.splits outcome.splits)
  have "run_capture os lib bl polls cfg h1 = Some (Ret (code, h'))"
    using assms(1) l e0 by (auto simp: capture_main_def f_def Let_def split: if_splits)
  from run_capture_releases [OF this assms(2)] have r: "released h1 h'" .
  then obtain m where m: "\<forall>x. mem_balance h' x = mem_balance h1 x + ptr_count m x" by (auto simp: released_def)
  have "mem_balance h1 = mem_balance h" using s by (simp add: still_def neutral_def)
  then have "mem_balance h' = mem_balance h \<or> mem_balance h' = (mem_balance h)(m := mem_balance h m + 1)"
    using m by (auto simp: ptr_count_def fun_eq_iff)
  then show ?thesis using r s by (auto simp: released_def still_def neutral_def quiet_def)
qed

definition no_bpf :: bpf_lib where
  "no_bpf = \<lparr>bpf_object_open_file = (\<lambda>p. False), bpf_object_load = 0, bpf_program_attach = [], find_map_fd = 0, perf_buffer_new = False,
     early_signal = False\<rparr>"

lemma no_bpf_run:
  "\<exists>code h'. capture_main (const_os (IoData kernel_addr (reply_bytes (reply_hdr 17) 7 []))) no_ssl no_bpf [] []
     \<lparr>cfg_mode = MODE_TLSHUB, pod_node_config_path = replicate 256 NUL\<rparr> [] = Some (Ret (code, h'))"
proof -
  let ?os = "const_os (IoData kernel_addr (reply_bytes (reply_hdr 17) 7 []))" and ?c = "\<lparr>cfg_mode = MODE_TLSHUB, pod_node_config_path = replicate 256 NUL\<rparr>"
  have fo: "os_fopen ?os h p = None" for h p by (simp add: const_os_def)
  have l: "load_config ?os f ?c h = (Ret (0, default_config ?c), h @ [FOpen f False])" for f h
    by (simp add: load_config_def fo)
  have nul: "NUL \<in> set (pod_node_config_path (default_config ?c))" by (simp add: default_config_def strncpy_def DEFAULT_POD_NODE_CONFIG_def)
  have md: "cfg_mode (default_config ?c) = MODE_TLSHUB" by (simp add: default_config_def)
  have p: "init_pod_node_mapping ?os f h = (Ret None, h @ [Malloc pod_table_size 4096, FOpen f False, Free 4096])" for f h
    by (simp add: init_pod_node_mapping_def fo Let_def)
  have s: "bpf_setup no_bpf h = Ret (-1, False, 0, False, h)" for h by (simp add: bpf_setup_def no_bpf_def bpf_paths_def)
  have "\<exists>code h'. run_capture ?os no_ssl no_bpf [] (default_config ?c) h = Some (Ret (code, h'))" for h
  proof -
    obtain pr h2 where k: "key_provider_init ?os no_ssl MODE_TLSHUB provider_start
        (h @ [Malloc pod_table_size 4096, FOpen (c_str (pod_node_config_path (default_config ?c))) False, Free 4096]) = Some (0, pr, h2)"
      using init_const_ok by blast
    obtain pm h3 where m: "perf_metrics_init ?os DEFAULT_MAX_CONNECTIONS h2 = (pm, h3)" by fastforce
    show ?thesis by (simp add: run_capture_def p md k m s Let_def)
  qed
  then show ?thesis using l nul by (simp add: capture_main_def)
qed

theorem main_releases_everything_witness:
  "\<exists>code h'. capture_main (const_os (IoData kernel_addr (reply_bytes (reply_hdr 17) 7 []))) no_ssl no_bpf [] []
     \<lparr>cfg_mode = MODE_TLSHUB, pod_node_config_path = replicate 256 NUL\<rparr> [] = Some (Ret (code, h')) \<and> fd_balance h' = fd_balance []"
proof -
  obtain code h' where r: "capture_main (const_os (IoData kernel_addr (reply_bytes (reply_hdr 17) 7 []))) no_ssl no_bpf [] []
     \<lparr>cfg_mode = MODE_TLSHUB, pod_node_config_path = replicate 256 NUL\<rparr> [] = Some (Ret (code, h'))" using no_bpf_run by blast
  have "-1 \<le> os_socket (const_os (IoData kernel_addr (reply_bytes (reply_hdr 17) 7 []))) h" for h by simp
  from main_releases_everything [OF r this] r show ?thesis by blast
qed

text \<open>
  Remark (interrupted_poll_is_reported_as_failure). The usual way to stop the program, a signal that
  interrupts the poll, leaves the poll's negative result in \<^verbatim>\<open>err\<close>: the loop ends regularly, but the process
  exits with status 1 as after a failure.
\<close>

theorem interrupted_poll_is_reported_as_failure:
  "\<exists>s' h'. main_loop os lib [\<lparr>poll_err = - EINTR, poll_events = [], poll_signal = True, poll_time = now\<rparr>] prev s h =
       Some (Ret (- EINTR, s', h')) \<and>
     fst (cleanup os (- EINTR) obj links pb pp pod s' h') = 1"
  by (cases "periodic_update os now prev s h") (auto simp: EINTR_def cleanup_def Let_def split: prod.splits)

end
