(* ===== verification/Perf_Console.thy ===== *)
theory Perf_Console
  imports Perf_Export
begin

text \<open>
  The report that \<^verbatim>\<open>perf_metrics_print_report\<close> of \<^verbatim>\<open>capture/src/performance_metrics.c\<close> prints. The headings and labels
  are Chinese text in UTF-8, given here by their bytes: connections (total, successful, failed, active), connection latency (mean,
  minimum, maximum), key negotiation time (the same), throughput (mean, peak, bytes), CPU usage (current, peak), memory (RSS, VMS).
\<close>

section \<open>The text\<close>

definition utf8 :: "nat list \<Rightarrow> string" where
  "utf8 bs = map char_of bs"

definition report_lines :: "performance_stats \<Rightarrow> system_metrics \<Rightarrow> string list" where
  "report_lines st sm =
     [[],
      utf8 [226, 149, 148] @ utf8 (concat (replicate 64 [226, 149, 144])) @ utf8 [226, 149, 151],
      utf8 [226, 149, 145] @ ''            TLShub '' @ utf8 [230, 128, 167, 232, 131, 189, 230, 140, 135, 230, 160, 135, 231, 187, 159, 232, 174, 161, 230, 138, 165, 229, 145, 138] @ ''                              '' @ utf8 [226, 149, 145],
      utf8 [226, 149, 154] @ utf8 (concat (replicate 64 [226, 149, 144])) @ utf8 [226, 149, 157],
      [],
      utf8 [227, 128, 144, 232, 191, 158, 230, 142, 165, 231, 187, 159, 232, 174, 161, 227, 128, 145],
      ''  '' @ utf8 [230, 128, 187, 232, 191, 158, 230, 142, 165, 230, 149, 176] @ '':       '' @ show_u64 (total_connections st),
      ''  '' @ utf8 [230, 136, 144, 229, 138, 159, 232, 191, 158, 230, 142, 165] @ '':       '' @ show_u64 (successful_connections st),
      ''  '' @ utf8 [229, 164, 177, 232, 180, 165, 232, 191, 158, 230, 142, 165] @ '':       '' @ show_u64 (failed_connections st),
      ''  '' @ utf8 [230, 180, 187, 232, 183, 131, 232, 191, 158, 230, 142, 165] @ '':       '' @ show_nat (unat (active_connections sm)),
      [],
      utf8 [227, 128, 144, 232, 191, 158, 230, 142, 165, 229, 187, 186, 231, 171, 139, 229, 187, 182, 232, 191, 159, 227, 128, 145],
      ''  '' @ utf8 [229, 185, 179, 229, 157, 135, 229, 187, 182, 232, 191, 159] @ '':       '' @ show_fixed 3 (avg_connection_latency_ms st) @ '' ms'',
      ''  '' @ utf8 [230, 156, 128, 229, 176, 143, 229, 187, 182, 232, 191, 159] @ '':       '' @ show_fixed 3 (min_connection_latency_ms st) @ '' ms'',
      ''  '' @ utf8 [230, 156, 128, 229, 164, 167, 229, 187, 182, 232, 191, 159] @ '':       '' @ show_fixed 3 (max_connection_latency_ms st) @ '' ms'',
      [],
      utf8 [227, 128, 144, 229, 175, 134, 233, 146, 165, 229, 141, 143, 229, 149, 134, 230, 151, 182, 233, 151, 180, 227, 128, 145],
      ''  '' @ utf8 [229, 185, 179, 229, 157, 135, 230, 151, 182, 233, 151, 180] @ '':       '' @ show_fixed 3 (avg_key_negotiation_ms st) @ '' ms'',
      ''  '' @ utf8 [230, 156, 128, 229, 176, 143, 230, 151, 182, 233, 151, 180] @ '':       '' @ show_fixed 3 (min_key_negotiation_ms st) @ '' ms'',
      ''  '' @ utf8 [230, 156, 128, 229, 164, 167, 230, 151, 182, 233, 151, 180] @ '':       '' @ show_fixed 3 (max_key_negotiation_ms st) @ '' ms'',
      [],
      utf8 [227, 128, 144, 229, 144, 158, 229, 144, 144, 233, 135, 143, 231, 187, 159, 232, 174, 161, 227, 128, 145],
      ''  '' @ utf8 [229, 185, 179, 229, 157, 135, 229, 144, 158, 229, 144, 144, 233, 135, 143] @ '':     '' @ show_fixed 2 (avg_throughput_mbps st) @ '' Mbps'',
      ''  '' @ utf8 [229, 179, 176, 229, 128, 188, 229, 144, 158, 229, 144, 144, 233, 135, 143] @ '':     '' @ show_fixed 2 (max_throughput_mbps st) @ '' Mbps'',
      ''  '' @ utf8 [230, 128, 187, 228, 188, 160, 232, 190, 147, 229, 173, 151, 232, 138, 130] @ '':     '' @ show_u64 (total_bytes_transferred st) @ '' bytes ('' @ show_fixed 2 (real (unat (total_bytes_transferred st)) / (1024 * 1024)) @ '' MB)'',
      [],
      utf8 [227, 128, 144] @ ''CPU '' @ utf8 [228, 189, 191, 231, 148, 168, 231, 142, 135, 227, 128, 145],
      ''  '' @ utf8 [229, 189, 147, 229, 137, 141] @ '' CPU:       '' @ show_fixed 2 (avg_cpu_usage st) @ ''%'',
      ''  '' @ utf8 [229, 179, 176, 229, 128, 188] @ '' CPU:       '' @ show_fixed 2 (peak_cpu_usage st) @ ''%'',
      [],
      utf8 [227, 128, 144, 229, 134, 133, 229, 173, 152, 228, 189, 191, 231, 148, 168, 233, 135, 143, 227, 128, 145],
      ''  '' @ utf8 [229, 189, 147, 229, 137, 141, 229, 134, 133, 229, 173, 152] @ '' (RSS): '' @ show_u64 (avg_memory_usage_kb st) @ '' KB ('' @ show_fixed 2 (real (unat (avg_memory_usage_kb st)) / 1024) @ '' MB)'',
      ''  '' @ utf8 [232, 153, 154, 230, 139, 159, 229, 134, 133, 229, 173, 152] @ '' (VMS): '' @ show_u64 (memory_vms_kb sm) @ '' KB ('' @ show_fixed 2 (real (unat (memory_vms_kb sm)) / 1024) @ '' MB)'',
      []]"

definition report_text :: "performance_stats \<Rightarrow> system_metrics \<Rightarrow> string" where
  "report_text st sm = text_lines (report_lines st sm)"

text \<open>\<^verbatim>\<open>perf_metrics_print_report\<close> with its output; a null context prints nothing.\<close>

definition print_report :: "perf_metrics_ctx option \<Rightarrow> string \<times> perf_metrics_ctx option" where
  "print_report ctx =
     (case ctx of
        None \<Rightarrow> ([], None)
      | Some c \<Rightarrow> let c1 = perf_metrics_print_report c in (report_text (pm_stats c1) (sys_metrics c1), Some c1))"

section \<open>The figures of a text\<close>

text \<open>The number after the first colon of a line.\<close>

definition numeral_char :: "char \<Rightarrow> bool" where
  "numeral_char c \<longleftrightarrow> is_digit c \<or> c = CHR ''.'' \<or> c = CHR ''-''"

definition figure :: "string \<Rightarrow> string" where
  "figure l = takeWhile numeral_char (dropWhile isspace (tl (dropWhile (\<lambda>c. c \<noteq> CHR '':'') l)))"

definition figures :: "string \<Rightarrow> string list" where
  "figures s = filter (\<lambda>x. x \<noteq> []) (map figure (split_lines s))"

definition plain_number :: "string \<Rightarrow> bool" where
  "plain_number s \<longleftrightarrow> s \<noteq> [] \<and> list_all numeral_char s"

lemma plain_number_show: "plain_number (show_nat n)" "plain_number (show_u64 v)" "plain_number (show_fixed k x)"
  using show_nat_digits by (auto simp: plain_number_def list_all_iff numeral_char_def show_u64_def show_fixed_def Let_def pad_zeros_def is_digit_def)

lemma numeral_char_no_space: "numeral_char c \<Longrightarrow> \<not> isspace c"
  by (auto simp: numeral_char_def isspace_def is_digit_def)

lemma plain_number_cut:
  assumes "plain_number n"
  shows "takeWhile numeral_char (n @ r) = n @ takeWhile numeral_char r" "dropWhile isspace (n @ r) = n @ r"
    "takeWhile numeral_char n = n" "dropWhile isspace n = n" "n \<noteq> []"
proof -
  obtain c cs where c: "n = c # cs" "\<not> isspace c" using assms numeral_char_no_space by (cases n) (auto simp: plain_number_def)
  show "takeWhile numeral_char (n @ r) = n @ takeWhile numeral_char r"
    using assms by (simp add: plain_number_def list_all_iff takeWhile_append2)
  from this show "takeWhile numeral_char n = n" using assms by (simp add: plain_number_def list_all_iff takeWhile_eq_all_conv)
  show "dropWhile isspace (n @ r) = n @ r" "dropWhile isspace n = n" "n \<noteq> []" using c by simp_all
qed

lemmas cut_shown = plain_number_cut [OF plain_number_show(1)] plain_number_cut [OF plain_number_show(2)] plain_number_cut [OF plain_number_show(3)]

lemma utf8_not: "(n :: nat) < 128 \<Longrightarrow> list_all (\<lambda>b. 128 \<le> b \<and> b < 256) bs \<Longrightarrow> char_of n \<notin> set (utf8 bs)"
proof
  assume n: "n < 128" "list_all (\<lambda>b. 128 \<le> b \<and> b < 256) bs" and "char_of n \<in> set (utf8 bs)"
  then obtain b where b: "b \<in> set bs" "(char_of n :: char) = char_of b" by (auto simp: utf8_def)
  then have "(of_char (char_of n :: char) :: nat) = of_char (char_of b :: char)" by simp
  then show False using n b(1) by (auto simp: of_char_of list_all_iff take_bit_nat_def)
qed

lemma colon_char: "CHR '':'' = char_of (58 :: nat)" and nl_char: "CHR 0x0A = char_of (10 :: nat)"
  by (simp_all add: char_of_def bit_iff_odd)

lemma utf8_cut:
  assumes "list_all (\<lambda>b. 128 \<le> b \<and> b < 256) bs"
  shows "dropWhile (\<lambda>c. c \<noteq> CHR '':'') (utf8 bs @ s) = dropWhile (\<lambda>c. c \<noteq> CHR '':'') s"
    "dropWhile (\<lambda>c. c \<noteq> CHR '':'') (utf8 bs) = []" "CHR 0x0A \<notin> set (utf8 bs)"
proof -
  have c: "CHR '':'' \<notin> set (utf8 bs)" using utf8_not [OF _ assms, of 58] by (simp add: colon_char)
  then show "dropWhile (\<lambda>c. c \<noteq> CHR '':'') (utf8 bs @ s) = dropWhile (\<lambda>c. c \<noteq> CHR '':'') s"
    by (subst dropWhile_append2) auto
  show "dropWhile (\<lambda>c. c \<noteq> CHR '':'') (utf8 bs) = []" using c by auto
  show "CHR 0x0A \<notin> set (utf8 bs)" using utf8_not [OF _ assms, of 10] by (simp add: nl_char)
qed

lemma list_all_repeat [simp]: "list_all P xs \<Longrightarrow> list_all P (concat (replicate k xs))"
  by (induction k) auto

lemma report_lines_no_newline: "\<forall>l \<in> set (report_lines st sm). CHR 0x0A \<notin> set l"
  using show_nat_no_newline show_fixed_no_newline by (simp add: report_lines_def utf8_cut show_u64_def)

text \<open>The figures of the report, in order, and those of the summary in the JSON file.\<close>

lemma report_figures:
  "figures (report_text st sm) =
     [show_u64 (total_connections st), show_u64 (successful_connections st), show_u64 (failed_connections st),
      show_nat (unat (active_connections sm)), show_fixed 3 (avg_connection_latency_ms st),
      show_fixed 3 (min_connection_latency_ms st), show_fixed 3 (max_connection_latency_ms st),
      show_fixed 3 (avg_key_negotiation_ms st), show_fixed 3 (min_key_negotiation_ms st),
      show_fixed 3 (max_key_negotiation_ms st), show_fixed 2 (avg_throughput_mbps st), show_fixed 2 (max_throughput_mbps st),
      show_u64 (total_bytes_transferred st), show_fixed 2 (avg_cpu_usage st), show_fixed 2 (peak_cpu_usage st),
      show_u64 (avg_memory_usage_kb st), show_u64 (memory_vms_kb sm)]"
proof -
  have "figures (report_text st sm) = filter (\<lambda>x. x \<noteq> []) (map figure (report_lines st sm))"
    unfolding figures_def report_text_def by (simp only: split_text_lines [OF report_lines_no_newline])
  then show ?thesis
    by (simp add: report_lines_def figure_def utf8_cut isspace_def numeral_char_def is_digit_def cut_shown)
qed

lemma figures_line: "CHR 0x0A \<notin> set l \<Longrightarrow> figures (l @ nl @ s) = (if figure l = [] then [] else [figure l]) @ figures s"
  using split_lines_line [of l s] by (simp add: figures_def nl_def)

lemma drop_to_colon: "CHR '':'' \<notin> set p \<Longrightarrow> dropWhile (\<lambda>c. c \<noteq> CHR '':'') (p @ CHR '':'' # r) = CHR '':'' # r"
  by (induction p) auto

lemma figures_member:
  assumes "plain_number v" and "CHR 0x0A \<notin> set name" and "CHR '':'' \<notin> set name" and "sep = [] \<or> sep = '',''"
  shows "figures (member n name v sep @ s) = v # figures s"
proof -
  let ?l = "replicate n (CHR '' '') @ quoted name @ '': '' @ v @ sep"
  have "CHR 0x0A \<notin> set v" using assms(1) by (auto simp: plain_number_def list_all_iff numeral_char_def is_digit_def)
  then have "CHR 0x0A \<notin> set ?l" using assms(2,4) by (auto simp: quoted_def)
  from figures_line [OF this, of s] have "figures (member n name v sep @ s) = (if figure ?l = [] then [] else [figure ?l]) @ figures s"
    by (simp add: member_def)
  moreover have "dropWhile (\<lambda>c. c \<noteq> CHR '':'') ?l = '': '' @ v @ sep"
    using drop_to_colon [of "replicate n (CHR '' '') @ quoted name" "'' '' @ v @ sep"] assms(3) by (simp add: quoted_def)
  then have "figure ?l = v"
    using assms(4) plain_number_cut [OF assms(1)] by (auto simp: figure_def isspace_def numeral_char_def is_digit_def)
  ultimately show ?thesis using plain_number_cut(5) [OF assms(1)] by simp
qed

lemma json_figures:
  "figures (json_summary st sm) =
     [show_u64 (total_connections st), show_u64 (successful_connections st), show_u64 (failed_connections st),
      show_nat (unat (active_connections sm)), show_fixed 3 (avg_connection_latency_ms st),
      show_fixed 3 (min_connection_latency_ms st), show_fixed 3 (max_connection_latency_ms st),
      show_fixed 3 (avg_key_negotiation_ms st), show_fixed 3 (min_key_negotiation_ms st),
      show_fixed 3 (max_key_negotiation_ms st), show_fixed 2 (avg_throughput_mbps st), show_fixed 2 (max_throughput_mbps st),
      show_u64 (total_bytes_transferred st), show_fixed 2 (avg_cpu_usage st), show_u64 (avg_memory_usage_kb st)]"
proof -
  have s: "figures (('' '' @ '' '' @ quoted ''summary'' @ '': {'') @ nl @ s) = figures s" for s
    by (subst figures_line) (simp_all add: quoted_def figure_def isspace_def numeral_char_def is_digit_def)
  have e: "figures (('' '' @ '' },'') @ nl @ []) = []"
    by (subst figures_line) (simp_all add: figure_def figures_def)
  show ?thesis
    unfolding json_summary_def using s e [simplified] by (simp add: figures_member plain_number_show)
qed

text \<open>
  Remark (report_agrees_with_json). The figures of the printed report, without peak CPU usage and virtual memory, are
  those of the summary in the JSON file written from the context afterwards, digit for digit.
\<close>

theorem report_agrees_with_json:
  assumes "print_report (Some c) = (txt, Some c1)"
  shows "length (figures txt) = 17 \<and>
         figures (json_summary (pm_stats (perf_metrics_calculate_stats c1)) (sys_metrics c1)) =
           take 14 (figures txt) @ [figures txt ! 15]"
proof -
  have c1: "c1 = perf_metrics_print_report c" and t: "txt = report_text (pm_stats c1) (sys_metrics c1)"
    using assms by (auto simp: print_report_def Let_def)
  have "perf_metrics_calculate_stats c1 = c1" unfolding c1 by (rule print_report_stable)
  then show ?thesis unfolding t by (simp add: report_figures json_figures)
qed

theorem report_agrees_with_json_witness:
  "\<exists>txt. print_report (Some full_ctx) = (txt, Some (perf_metrics_print_report full_ctx)) \<and> length (figures txt) = 17"
  using report_agrees_with_json [of full_ctx] by (auto simp: print_report_def Let_def)

end
