(* ===== verification/Example_Programs.thy ===== *)
theory Example_Programs
  imports Capture_Main Perf_Console
begin

text \<open>
  The two programs under \<^verbatim>\<open>capture/test\<close>: \<^verbatim>\<open>example_metrics.c\<close> drives the metrics module through the life of five connections, and
  \<^verbatim>\<open>test_pod_mapping.c\<close> loads a mapping file and queries it. Both are compositions of modelled functions; messages that announce
  the next step are left out.
\<close>

section \<open>The metrics example\<close>

text \<open>One turn of the loop. \<^verbatim>\<open>usleep\<close> only lets time pass, which is visible in the next clock reading.\<close>

definition example_conn :: "os \<Rightarrow> nat \<Rightarrow> perf_metrics_ctx \<times> hist \<Rightarrow> (perf_metrics_ctx \<times> hist) outcome" where
  "example_conn os i = (\<lambda>(c, h).
     and_then (perf_metrics_connection_start (of_nat (10000 + i)) c) (\<lambda>(conn_index, c1).
       if conn_index < 0 then Ret (c1, h)
       else
         and_then (perf_metrics_connection_latency_start os conn_index c1 h) (\<lambda>(c2, h2).
         and_then (perf_metrics_connection_latency_end os conn_index c2 h2) (\<lambda>(c3, h3).
         and_then (perf_metrics_key_negotiation_start os conn_index c3 h3) (\<lambda>(c4, h4).
         and_then (perf_metrics_key_negotiation_end os conn_index c4 h4) (\<lambda>(c5, h5).
         and_then (perf_metrics_record_data_transfer os conn_index
                     (of_nat (1024 * 1024 * (i + 1))) (of_nat (2048 * 1024 * (i + 1))) c5 h5) (\<lambda>(c6, h6).
         Ret (perf_metrics_connection_end conn_index True c6, h6))))))))"

fun example_conns :: "os \<Rightarrow> nat list \<Rightarrow> perf_metrics_ctx \<times> hist \<Rightarrow> (perf_metrics_ctx \<times> hist) outcome" where
  "example_conns os [] s = Ret s"
| "example_conns os (i # js) s =
     (case example_conn os i s of Ret s' \<Rightarrow> example_conns os js s' | Exit e \<Rightarrow> Exit e | Fault \<Rightarrow> Fault)"

text \<open>The program: exit status, printed report and history.\<close>

definition example_metrics_main :: "os \<Rightarrow> hist \<Rightarrow> (int \<times> string \<times> hist) outcome" where
  "example_metrics_main os h =
     (case perf_metrics_init os 100 h of
        (None, h1) \<Rightarrow> Ret (1, [], h1)
      | (Some (p, q, c), h1) \<Rightarrow>
          (case example_conns os [0..<5] (c, h1) of
             Ret (c2, h2) \<Rightarrow>
               (let (r, c3, h3) = perf_metrics_update_system os c2 h2;
                    (out, c4) = print_report (Some c3);
                    (r', c5, h4) = perf_metrics_export_json os (Some ''example_metrics.json'') c4 h3;
                    (r'', h5) = perf_metrics_export_csv os (Some ''example_metrics.csv'') c5 h4
                in Ret (0, out, perf_metrics_cleanup p q h5))
           | Exit e \<Rightarrow> Exit e
           | Fault \<Rightarrow> Fault))"

text \<open>The identity of a slot and the bytes it counted; the timing functions leave them alone.\<close>

definition flow :: "connection_metrics \<Rightarrow> u64 \<times> u64 \<times> u64" where
  "flow cm = (connection_id cm, bytes_sent cm, bytes_received cm)"

definition flows :: "perf_metrics_ctx \<Rightarrow> (u64 \<times> u64 \<times> u64) list" where
  "flows c = map flow (conn_metrics c)"

lemma list_update_same: "f y = f (xs ! i) \<Longrightarrow> map f (xs[i := y]) = map f xs"
  by (simp add: map_update) (metis list_update_beyond list_update_id map_update linorder_not_le nth_map)

lemma timing_flows:
  "perf_metrics_connection_latency_start os i c h = Ret (c', h') \<Longrightarrow> flows c' = flows c"
  "perf_metrics_connection_latency_end os i c h = Ret (c', h') \<Longrightarrow> flows c' = flows c"
  "perf_metrics_key_negotiation_start os i c h = Ret (c', h') \<Longrightarrow> flows c' = flows c"
  "perf_metrics_key_negotiation_end os i c h = Ret (c', h') \<Longrightarrow> flows c' = flows c"
  by (auto simp: recording_defs with_slot_Ret flows_def flow_def upd_conn_def list_update_same split: if_splits prod.splits)

lemma transfer_effect:
  assumes "perf_metrics_record_data_transfer os i s r c h = Ret (c', h')" and "tracked c i" and "nat i < length (conn_metrics c)"
    and "flows c ! nat i = (cid, s0, r0)"
  shows "same_books c c' \<and> flows c' = (flows c)[nat i := (cid, s0 + s, r0 + r)] \<and> still h h'"
proof -
  obtain cm h1 where t: "record_transfer os s r (conn_metrics c ! nat i) h = (cm, h1)" by fastforce
  then have "c' = upd_conn i cm c" "h' = h1" using assms(1,2) by (auto simp: perf_metrics_record_data_transfer_def with_slot_Ret)
  moreover have "still h h1" using t by (auto simp: record_transfer_def Let_def still_defs split: if_splits)
  ultimately show ?thesis using record_transfer_bytes [OF t] assms(3,4)
    by (auto simp: same_books_def flows_def flow_def upd_conn_def map_update)
qed

text \<open>What holds after \<open>k\<close> turns.\<close>

definition example_flow :: "nat \<Rightarrow> u64 \<times> u64 \<times> u64" where
  "example_flow i = (of_nat (10000 + i), of_nat (1024 * 1024 * (i + 1)), of_nat (2048 * 1024 * (i + 1)))"

definition example_inv :: "nat \<Rightarrow> perf_metrics_ctx \<Rightarrow> bool" where
  "example_inv k c \<longleftrightarrow>
     balanced c \<and> monitoring_enabled c \<and> max_connections c = 100 \<and> unat (current_connections c) = k \<and>
     failed_connections (pm_stats c) = 0 \<and> take k (flows c) = map example_flow [0..<k]"

lemma example_conn_step:
  assumes "example_inv k c" and "k < 5"
  shows "\<exists>c' h'. example_conn os k (c, h) = Ret (c', h') \<and> example_inv (Suc k) c' \<and> still h h'"
proof -
  have e: "monitoring_enabled c" "max_connections c = 100" "unat (current_connections c) = k"
      "take k (flows c) = map example_flow [0..<k]" "balanced c" "failed_connections (pm_stats c) = 0"
    using assms(1) by (simp_all add: example_inv_def)
  have inv: "perf_inv c" using e(5) by (simp add: balanced_def)
  have lt: "current_connections c < max_connections c" using e(2,3) assms(2) by (simp add: word_less_nat_alt)
  obtain i c1 where st: "perf_metrics_connection_start (of_nat (10000 + k)) c = Ret (i, c1)" and i: "i = int k"
    and f1: "flows c1 = (flows c)[k := (of_nat (10000 + k), 0, 0)]" and l1: "length (flows c1) = 100"
    using e lt inv perf_invD(2,3) [OF inv]
    by (auto simp: perf_inv_connection_start flows_def map_update flow_def zero_conn_def uint_nat perf_inv_def)
  note rk = recording_keeps_books
  have inv1: "perf_inv c1" using perf_inv_started [OF inv st] .
  obtain c2 h2 where 2: "perf_metrics_connection_latency_start os i c1 h = Ret (c2, h2)" "same_books c1 c2" using rk(1) [OF inv1] by blast
  obtain c3 h3 where 3: "perf_metrics_connection_latency_end os i c2 h2 = Ret (c3, h3)" "same_books c2 c3"
    using rk(2) [of c2] inv1 2(2) same_booksD(1) by blast
  obtain c4 h4 where 4: "perf_metrics_key_negotiation_start os i c3 h3 = Ret (c4, h4)" "same_books c3 c4"
    using rk(3) [of c3] inv1 2(2) 3(2) same_booksD(1) by blast
  obtain c5 h5 where 5: "perf_metrics_key_negotiation_end os i c4 h4 = Ret (c5, h5)" "same_books c4 c5"
    using rk(4) [of c4] inv1 2(2) 3(2) 4(2) same_booksD(1) by blast
  have b15: "same_books c1 c5" using 2(2) 3(2) 4(2) 5(2) same_books_trans by blast
  then have "perf_inv c5" using inv1 same_booksD(1) by blast
  then obtain c6 h6 where 6: "perf_metrics_record_data_transfer os i (of_nat (1024 * 1024 * (k + 1))) (of_nat (2048 * 1024 * (k + 1))) c5 h5 = Ret (c6, h6)"
    using recording_total(5) by blast
  have s15: "still h h5" using recording_still 2(1) 3(1) 4(1) 5(1) still_trans by metis
  have f5: "flows c5 = flows c1" using timing_flows 2(1) 3(1) 4(1) 5(1) by metis
  have cur: "unat (current_connections c + 1) = Suc k" using unat_Suc_u32 [OF lt] e(3) by simp
  then have "sint (current_connections c + 1) = int (Suc k)" using sint_u32_small [of "current_connections c + 1"] assms(2) by simp
  then have t1: "tracked c1 i" using st lt e(1) i by (auto simp: perf_inv_connection_start [OF inv] tracked_def)
  have "tracked c5 i" using t1 same_booksD(2) [OF b15] by simp
  moreover have "length (conn_metrics c5) = length (flows c5)" by (simp add: flows_def)
  then have "nat i < length (conn_metrics c5)" "flows c5 ! nat i = (of_nat (10000 + k), 0, 0)"
    using f5 f1 l1 i assms(2) by simp_all
  ultimately have t6: "same_books c5 c6" "flows c6 = (flows c)[k := example_flow k]" "still h5 h6"
    using transfer_effect [OF 6] f5 f1 i by (simp_all add: example_flow_def)
  let ?c7 = "perf_metrics_connection_end i True c6"
  have b: "balanced ?c7 \<and> booked True c ?c7"
    by (rule booked_end [OF e(5,1) lt st same_books_trans [OF b15 t6(1)]])
  have "flows ?c7 = flows c6" by (simp add: perf_metrics_connection_end_def flows_def Let_def)
  moreover have "take (Suc k) ((flows c)[k := example_flow k]) = map example_flow [0..<Suc k]"
    using e(4) l1 f1 assms(2) by (simp add: take_Suc_conv_app_nth)
  ultimately have "example_inv (Suc k) ?c7" using b e t6(2) cur by (simp add: example_inv_def booked_def)
  moreover have "example_conn os k (c, h) = Ret (?c7, h6)"
    unfolding example_conn_def prod.case st using 2(1) 3(1) 4(1) 5(1) 6 i by simp
  ultimately show ?thesis using still_trans [OF s15 t6(3)] by blast
qed

lemma example_conns_run:
  "j + n = 5 \<Longrightarrow> example_inv j c \<Longrightarrow>
     \<exists>c' h'. example_conns os [j..<5] (c, h) = Ret (c', h') \<and> example_inv 5 c' \<and> still h h'"
proof (induction n arbitrary: j c h)
  case (Suc n)
  then have j: "j < 5" by simp
  obtain c1 h1 where 1: "example_conn os j (c, h) = Ret (c1, h1)" "example_inv (Suc j) c1" "still h h1"
    using example_conn_step [OF Suc.prems(2) j] by blast
  have "Suc j + n = 5" using Suc.prems(1) by simp
  from Suc.IH [OF this 1(2), of h1] obtain c' h' where
    "example_conns os [Suc j..<5] (c1, h1) = Ret (c', h')" "example_inv 5 c'" "still h1 h'" by blast
  then show ?case using 1 still_trans [OF 1(3)] by (simp add: upt_conv_Cons [OF j])
qed auto

text \<open>The system update and the summary leave the books alone.\<close>

lemma update_keeps:
  "perf_metrics_update_system os c h = (r, c', h') \<Longrightarrow>
     flows c' = flows c \<and> current_connections c' = current_connections c \<and> balanced c' = balanced c \<and>
     failed_connections (pm_stats c') = failed_connections (pm_stats c)"
  by (auto simp: perf_metrics_update_system_def update_cpu_def update_memory_def Let_def flows_def balanced_def perf_inv_def
      split: if_splits prod.splits option.splits)

lemma summary_keeps:
  "flows (perf_metrics_calculate_stats c) = flows c \<and>
   current_connections (perf_metrics_calculate_stats c) = current_connections c \<and>
   balanced (perf_metrics_calculate_stats c) = balanced c \<and>
   failed_connections (pm_stats (perf_metrics_calculate_stats c)) = failed_connections (pm_stats c) \<and>
   total_bytes_transferred (pm_stats (perf_metrics_calculate_stats c)) =
     sum_list (map (\<lambda>(cid, s, r). s + r) (take (unat (current_connections c)) (flows c)))"
  by (simp add: calculate_stats_eq flows_def balanced_def perf_inv_def finish_stats_def acc_of_def Let_def live_conns_def
      take_map flow_def comp_def)

text \<open>The figures of the example, whatever the clock and \<^verbatim>\<open>/proc\<close> say.\<close>

definition example_figures :: "perf_metrics_ctx \<Rightarrow> bool" where
  "example_figures c \<longleftrightarrow>
     total_connections (pm_stats c) = 5 \<and> successful_connections (pm_stats c) = 5 \<and> failed_connections (pm_stats c) = 0 \<and>
     active_connections (sys_metrics c) = 0 \<and> total_bytes_transferred (pm_stats c) = 47185920 \<and>
     map flow (live_conns c) =
       [(10000, 1048576, 2097152), (10001, 2097152, 4194304), (10002, 3145728, 6291456), (10003, 4194304, 8388608),
        (10004, 5242880, 10485760)]"

lemma example_figuresI:
  assumes "balanced c" and "unat (current_connections c) = 5" and "failed_connections (pm_stats c) = 0"
    and "take 5 (flows c) = map example_flow [0..<5]"
    and "total_bytes_transferred (pm_stats c) = sum_list (map (\<lambda>(cid, s, r). s + r) (take 5 (flows c)))"
  shows "example_figures c"
proof -
  have five: "unat x = 5 \<Longrightarrow> x = 5" for x :: u64 by (metis of_nat_numeral of_nat_unat word_of_nat_eq_iff ucast_id)
  have t: "unat (total_connections (pm_stats c)) = 5" using assms(1,2) by (simp add: balanced_def perf_inv_def)
  have "unat (successful_connections (pm_stats c)) = 5" using assms(1,3) t by (simp add: balanced_def)
  then have "total_connections (pm_stats c) = 5" "successful_connections (pm_stats c) = 5" using t five by blast+
  moreover have "map flow (live_conns c) = take 5 (flows c)" using assms(2) by (simp add: live_conns_def flows_def take_map)
  moreover have "[0..<5] = [0, 1, 2, 3, 4]" by (simp add: upt_rec)
  ultimately show ?thesis using assms by (simp add: example_figures_def balanced_def example_flow_def)
qed

lemma export_still:
  "perf_metrics_export_json os f c h = (r, c', h') \<Longrightarrow> still h h'"
  "perf_metrics_export_csv os f c h = (r, h') \<Longrightarrow> still h h'"
  by (auto simp: perf_metrics_export_json_def perf_metrics_export_csv_def Let_def still_defs split: option.splits if_splits)

text \<open>
  Property C31 (example_metrics_books_five_successes). When memory is available, the example ends with status 0 after
  releasing everything it acquired. Its report shows, and its files (where they can be created) contain, five connections, all
  successful, none active, with identifiers 10000 to 10004 and 1 to 5 MiB sent and twice that received, 45 MiB in all,
  whatever the clock and \<^verbatim>\<open>/proc\<close> say.
\<close>

theorem example_metrics_books_five_successes:
  assumes "perf_metrics_init os 100 h = (Some (p, q, c0), h0)" and "\<forall>h f. os_fcreate os h f"
  shows "\<exists>c h' now. example_metrics_main os h = Ret (0, report_text (pm_stats c) (sys_metrics c), h') \<and> example_figures c \<and>
           FWrite (json_text now c) \<in> set h' \<and> FWrite (csv_text c) \<in> set h' \<and> still h h'"
proof -
  have "perf_inv c0" "max_connections c0 = 100" "current_connections c0 = 0"
    using perf_inv_init [OF assms(1)] by simp_all
  then have "example_inv 0 c0" using perf_init_counters [OF assms(1)] assms(1)
    by (auto simp: example_inv_def balanced_def perf_metrics_init_def Let_def split: if_splits)
  then obtain c2 h2 where 2: "example_conns os [0..<5] (c0, h0) = Ret (c2, h2)" "example_inv 5 c2" "still h0 h2"
    using example_conns_run [of 0 5 c0 os h0] by auto
  obtain r c3 h3 where 3: "perf_metrics_update_system os c2 h2 = (r, c3, h3)" by (cases "perf_metrics_update_system os c2 h2") auto
  define c where "c = perf_metrics_print_report c3"
  have c: "perf_metrics_calculate_stats c = c" unfolding c_def by (rule print_report_stable)
  define now where "now = tv_sec (os_clock os (h3 @ [FOpen ''example_metrics.json'' True]) CLOCK_REALTIME)"
  obtain t where "perf_metrics_export_json os (Some ''example_metrics.json'') (Some c) h3 =
      (0, Some c, h3 @ [FOpen ''example_metrics.json'' True, t, FWrite (json_text now c), FClose])"
    using assms(2) by (auto simp: perf_metrics_export_json_def Let_def c now_def)
  then obtain h4 where 4: "perf_metrics_export_json os (Some ''example_metrics.json'') (Some c) h3 = (0, Some c, h4)"
      "FWrite (json_text now c) \<in> set h4"
    by auto
  obtain h5 where 5: "perf_metrics_export_csv os (Some ''example_metrics.csv'') (Some c) h4 = (0, h5)" "FWrite (csv_text c) \<in> set h5"
      "set h4 \<subseteq> set h5"
    using assms(2) by (auto simp: perf_metrics_export_csv_def)
  let ?h = "perf_metrics_cleanup p q h5"
  have "example_figures c"
  proof (rule example_figuresI)
    have k: "flows c3 = flows c2" "current_connections c3 = current_connections c2" "balanced c3 = balanced c2"
        "failed_connections (pm_stats c3) = failed_connections (pm_stats c2)"
      using update_keeps [OF 3] by simp_all
    have e: "flows c = flows c3" "current_connections c = current_connections c3" "balanced c = balanced c3"
        "failed_connections (pm_stats c) = failed_connections (pm_stats c3)"
        "total_bytes_transferred (pm_stats c) = sum_list (map (\<lambda>(cid, s, r). s + r) (take (unat (current_connections c3)) (flows c3)))"
      using summary_keeps [of c3] by (simp_all add: c_def perf_metrics_print_report_def)
    show "balanced c" "unat (current_connections c) = 5" "failed_connections (pm_stats c) = 0"
        "take 5 (flows c) = map example_flow [0..<5]"
        "total_bytes_transferred (pm_stats c) = sum_list (map (\<lambda>(cid, s, r). s + r) (take 5 (flows c)))"
      using 2(2) k e by (simp_all add: example_inv_def)
  qed
  moreover have "example_metrics_main os h = Ret (0, report_text (pm_stats c) (sys_metrics c), ?h)"
    using assms(1) 2(1) 3 4(1) 5(1) by (simp add: example_metrics_main_def print_report_def c_def Let_def)
  moreover have "FWrite (json_text now c) \<in> set ?h" "FWrite (csv_text c) \<in> set ?h" using 4(2) 5 by (auto simp: perf_metrics_cleanup_def)
  moreover have "still h0 h5"
    using 2(3) update_still [OF 3] export_still(1) [OF 4(1)] export_still(2) [OF 5(1)] still_trans by blast
  then have "still h ?h" using assms(1)
    by (auto simp: perf_metrics_init_def perf_metrics_cleanup_def Let_def still_defs split: if_splits)
  ultimately show ?thesis by blast
qed

theorem example_metrics_books_five_successes_witness:
  "\<exists>c h'. example_metrics_main (const_os IoErr) [] = Ret (0, report_text (pm_stats c) (sys_metrics c), h') \<and> example_figures c"
proof -
  obtain p q c h where i: "perf_metrics_init (const_os IoErr) 100 [] = (Some (p, q, c), h)"
    by (auto simp: perf_metrics_init_def Let_def)
  have "\<forall>h f. os_fcreate (const_os IoErr) h f" by (simp add: const_os_def)
  from example_metrics_books_five_successes [OF i this] show ?thesis by blast
qed

section \<open>The Pod mapping test\<close>

definition test_pods :: "string list" where
  "test_pods = [''web-pod-1'', ''api-pod-1'', ''db-pod-1'', ''nonexistent-pod'']"

definition query_line :: "pod_node_table \<Rightarrow> string \<Rightarrow> string" where
  "query_line table p =
     ''Query: '' @ p @ '' -> '' @ (case get_node_by_pod (Some table) (Some p) of Some node \<Rightarrow> node | None \<Rightarrow> ''Not found'')"

text \<open>Exit status, what is printed after the table was loaded, and the history.\<close>

definition test_pod_mapping_main :: "os \<Rightarrow> string list \<Rightarrow> hist \<Rightarrow> (int \<times> string \<times> hist) outcome" where
  "test_pod_mapping_main os argv h =
     (let config_file = (if length argv > 1 then argv ! 1 else ''/etc/tlshub/pod_node_mapping.conf'') in
      case init_pod_node_mapping os config_file h of
        (Ret None, h1) \<Rightarrow> Ret (1, [], h1)
      | (Ret (Some (p, table)), h1) \<Rightarrow>
          Ret (0,
               nl @ print_pod_node_mapping (Some table) @ nl @ text_lines [''=== Testing Queries ===''] @
               text_lines (map (query_line table) test_pods) @ nl @ text_lines [''=== Test Complete ===''],
               free_pod_node_mapping p h1)
      | (Exit e, h1) \<Rightarrow> Exit e
      | (Fault, h1) \<Rightarrow> Fault)"

text \<open>
  Remark (pod_test_answers_from_file). On a mapping file written from pairs of names the test ends with status 0,
  releases everything, and answers its four queries with the first pair of the file that has the name, or \<^verbatim>\<open>Not found\<close>.
\<close>

theorem pod_test_answers_from_file:
  assumes "list_all config_pair ps" and "length ps \<le> 1024" and "os_malloc os h pod_table_size \<noteq> NULL"
    and "os_fopen os (h @ [Malloc pod_table_size (os_malloc os h pod_table_size)]) path = Some (pod_config ps)"
  defines "answer \<equiv> \<lambda>p. ''Query: '' @ p @ '' -> '' @ (case map_of ps p of Some node \<Rightarrow> node | None \<Rightarrow> ''Not found'')"
  shows "\<exists>before after h'. test_pod_mapping_main os [prog, path] h = Ret (0, before @ text_lines (map answer test_pods) @ after, h') \<and>
           still h h'"
proof -
  let ?p = "os_malloc os h pod_table_size"
  obtain t where t: "load_lines zero_table (pod_config ps) = Ret t"
    using load_lines_returns pod_config_chunks [OF assms(1)] by blast
  then have i: "init_pod_node_mapping os path h = (Ret (Some (?p, t)), h @ [Malloc pod_table_size ?p, FOpen path True, FClose])"
    using assms(3,4) by (simp add: init_pod_node_mapping_def Let_def)
  have "table_wf t" "table_entries t = ps"
    using load_lines_entries [OF zero_table_wf t] pod_config_chunks [OF assms(1)] assms(2) by (simp_all add: pod_sizes)
  then have look: "get_node_by_pod (Some t) (Some p) = map_of ps (c_str p)" for p
    using find_node_map_of [of t 0] by (simp add: get_node_by_pod_def)
  have "c_str p = p" if "p \<in> set test_pods" for p
    using that by (intro c_str_id) (auto simp: test_pods_def NUL_def)
  then have q: "map (query_line t) test_pods = map answer test_pods"
    by (simp add: query_line_def answer_def look)
  have "still h (free_pod_node_mapping ?p (h @ [Malloc pod_table_size ?p, FOpen path True, FClose]))"
    using assms(3) by (simp add: free_pod_node_mapping_def still_defs)
  then show ?thesis
    by (intro exI [of _ "nl @ print_pod_node_mapping (Some t) @ nl @ text_lines [''=== Testing Queries ==='']"] exI) 
      (simp add: test_pod_mapping_main_def i q)
qed

theorem pod_test_answers_from_file_witness:
  "\<exists>before after h'. test_pod_mapping_main (file_os (pod_config [(''web-pod-1'', ''node-a'')])) [''test'', ''m.conf''] [] =
     Ret (0, before @ text_lines [''Query: web-pod-1 -> node-a'', ''Query: api-pod-1 -> Not found'', ''Query: db-pod-1 -> Not found'',
       ''Query: nonexistent-pod -> Not found''] @ after, h')"
proof -
  let ?ps = "[(''web-pod-1'', ''node-a'')]"
  have "list_all config_pair ?ps" by (simp add: config_pair_def is_word_def isspace_def NUL_def)
  from pod_test_answers_from_file [OF this, of "file_os (pod_config ?ps)" "[]" "''m.conf''" "''test''"] show ?thesis
    by (simp add: file_os_simps test_pods_def) blast
qed

end
