(* ===== verification/Capture_Pipeline.thy ===== *)
theory Capture_Pipeline
  imports Example_Programs
begin

text \<open>
  The capture program from end to end: probe hits in the kernel (\<^verbatim>\<open>capture.bpf.c\<close>), the records the event buffer delivers, the
  polling loop with its handler (\<^verbatim>\<open>main.c\<close>), the books of the metrics module and the figures that the report prints. The event buffer
  belongs to the kernel: all that is assumed of it is that it delivers no record that was not written, and none more often.
\<close>

section \<open>Events and connect calls\<close>

fun is_connect :: "probe_hit \<Rightarrow> bool" where
  "is_connect (Connect sk) = True"
| "is_connect _ = False"

definition connect_calls :: "probe_hit list \<Rightarrow> nat" where
  "connect_calls ps = length (filter is_connect ps)"

lemma events_by_socket:
  assumes "finite K" and "fst ` set es \<subseteq> K"
  shows "length es = (\<Sum>sk\<in>K. length (events_of sk es))"
  using assms(2)
proof (induction es)
  case (Cons e es)
  then have "fst e \<in> K" by simp
  have "(\<Sum>sk\<in>K. length (events_of sk (e # es))) = (\<Sum>sk\<in>K. (if sk = fst e then 1 else 0) + length (events_of sk es))"
    by (rule sum.cong) (auto simp: events_of_def split: prod.splits)
  also have "\<dots> = Suc (length es)" using Cons \<open>fst e \<in> K\<close> assms(1) by (simp add: sum.distrib)
  finally show ?case by simp
qed (simp add: events_of_def)

lemma connects_by_socket:
  assumes "finite K"
  shows "(\<Sum>sk\<in>K. connects sk ps) \<le> connect_calls ps"
proof (induction ps)
  case (Cons p ps)
  have "(\<Sum>sk\<in>K. connects sk (p # ps)) = (\<Sum>sk\<in>K. (if p = Connect sk then 1 else 0) + connects sk ps)"
    by (rule sum.cong) (auto simp: connects_def)
  also have "\<dots> = (\<Sum>sk\<in>K. if p = Connect sk then 1 else 0) + (\<Sum>sk\<in>K. connects sk ps)" by (rule sum.distrib)
  also have "(\<Sum>sk\<in>K. if p = Connect sk then 1 else 0 :: nat) \<le> (if is_connect p then 1 else 0)"
    using assms by (cases p) auto
  finally show ?case using Cons by (cases "is_connect p") (simp_all add: connect_calls_def)
qed (simp add: connects_def connect_calls_def)

lemma events_bounded: "length (snd (hits ps no_maps)) \<le> connect_calls ps"
proof -
  let ?es = "snd (hits ps no_maps)"
  let ?K = "fst ` set ?es"
  have "length (events_of sk ?es) \<le> connects sk ps" for sk
    using hits_budget [of sk ps no_maps] by (simp add: pending_def no_maps_def bpf_map_lookup_elem_def)
  then have "(\<Sum>sk\<in>?K. length (events_of sk ?es)) \<le> (\<Sum>sk\<in>?K. connects sk ps)" by (rule sum_mono)
  also have "\<dots> \<le> connect_calls ps" by (rule connects_by_socket) simp
  finally show ?thesis using events_by_socket [of ?K ?es] by simp
qed

section \<open>What the loop counts\<close>

text \<open>The books after \<open>n\<close> events: every event was counted, up to the capacity of the metrics context.\<close>

definition counted :: "u32 \<Rightarrow> nat \<Rightarrow> capture_state \<Rightarrow> bool" where
  "counted mx n s \<longleftrightarrow>
     (\<exists>c. perf_ctx s = Some c \<and> balanced c \<and> monitoring_enabled c \<and> max_connections c = mx \<and>
          unat (current_connections c) = min (unat mx) n)"

lemma handler_counts:
  assumes "handle_tcp_event os lib d s h = Some x" and "counted mx n s"
  shows "\<exists>s' h'. x = Ret (s', h') \<and> counted mx (Suc n) s'"
proof -
  obtain c where c: "perf_ctx s = Some c" "balanced c" "monitoring_enabled c" "max_connections c = mx"
    "unat (current_connections c) = min (unat mx) n" using assms(2) by (auto simp: counted_def)
  from handler_cases [OF c(1,2) assms(1)] obtain s' h' c' b where
    x: "x = Ret (s', h')" "perf_ctx s' = Some c'" "balanced c'"
    and bk: "if monitoring_enabled c \<and> current_connections c < max_connections c then booked b c c' else same_books c c'" by blast
  have "counted mx (Suc n) s'"
  proof (cases "current_connections c < mx")
    case True
    then have "unat (current_connections c + 1) = Suc (unat (current_connections c))" by (rule unat_Suc_u32)
    moreover have "unat (current_connections c) < unat mx" using True by (simp add: word_less_nat_alt)
    ultimately show ?thesis using True bk c x by (auto simp: counted_def booked_def)
  next
    case False
    then have "unat mx \<le> unat (current_connections c)" by (simp add: word_less_nat_alt)
    then show ?thesis using False bk c x same_booksD [of c c'] by (auto simp: counted_def)
  qed
  with x(1) show ?thesis by blast
qed

lemma handle_all_counts:
  "handle_all os lib ds s h = Some x \<Longrightarrow> counted mx n s \<Longrightarrow>
     \<exists>s' h'. x = Ret (s', h') \<and> counted mx (n + length ds) s'"
proof (induction ds arbitrary: n s h)
  case (Cons d ds)
  then obtain y where y: "handle_tcp_event os lib d s h = Some y" by (auto split: option.splits)
  from handler_counts [OF this Cons.prems(2)] obtain s1 h1 where "y = Ret (s1, h1)" "counted mx (Suc n) s1" by blast
  with Cons.IH [of s1 h1 "Suc n"] Cons.prems(1) y show ?case by simp
qed auto

lemma update_counts:
  assumes "periodic_update os now prev s h = (p', s', h')" and "counted mx n s"
  shows "counted mx n s'"
proof -
  have "balanced c' = balanced c" "current_connections c' = current_connections c" "monitoring_enabled c' = monitoring_enabled c"
    "max_connections c' = max_connections c" if "perf_metrics_update_system os c h = (r, c', h')" for c r c'
    using update_keeps [OF that] that
    by (auto simp: perf_metrics_update_system_def update_cpu_def update_memory_def Let_def split: if_splits prod.splits option.splits)
  with assms show ?thesis
    by (auto simp: periodic_update_def counted_def split: option.splits if_splits prod.splits)
qed

text \<open>The polls the loop makes: up to the first one that fails or during which a signal arrives.\<close>

definition stops :: "poll_result \<Rightarrow> bool" where
  "stops p \<longleftrightarrow> poll_err p < 0 \<and> poll_err p \<noteq> - EINTR \<or> poll_signal p"

fun polled :: "poll_result list \<Rightarrow> poll_result list" where
  "polled [] = []"
| "polled (p # ps) = p # (if stops p then [] else polled ps)"

definition handled :: "poll_result list \<Rightarrow> byte list list" where
  "handled polls = concat (map poll_events (polled polls))"

lemma handled_prefix: "\<exists>rest. concat (map poll_events polls) = handled polls @ rest"
  by (induction polls) (auto simp: handled_def)

lemma main_loop_counts:
  "main_loop os lib polls prev s h = Some x \<Longrightarrow> counted mx n s \<Longrightarrow>
     \<exists>err s' h'. x = Ret (err, s', h') \<and> counted mx (n + length (handled polls)) s'"
proof (induction polls arbitrary: prev s h n)
  case (Cons p ps)
  then obtain y where y: "handle_all os lib (poll_events p) s h = Some y" by (auto split: option.splits)
  from handle_all_counts [OF this Cons.prems(2)] obtain s1 h1 where
    1: "y = Ret (s1, h1)" "counted mx (n + length (poll_events p)) s1" by blast
  obtain prev' s2 h2 where u: "periodic_update os (poll_time p) prev s1 h1 = (prev', s2, h2)" by (metis prod_cases3)
  note 2 = update_counts [OF u 1(2)]
  show ?case
  proof (cases "stops p")
    case True
    then have "x = Ret (poll_err p, s1, h1) \<or> x = Ret (poll_err p, s2, h2)"
      using Cons.prems(1) y 1 u by (auto simp: stops_def split: if_splits)
    then show ?thesis using 1(2) 2 True by (auto simp: handled_def)
  next
    case False
    then have "main_loop os lib ps prev' s2 h2 = Some x" using Cons.prems(1) y 1 u by (auto simp: stops_def)
    from Cons.IH [OF this 2] False show ?thesis by (auto simp: handled_def add.assoc)
  qed
qed simp

lemma counted_start:
  assumes "perf_metrics_init os mx h = (Some (p, q, ctx), h0)" and "unat mx < 2147483648"
  shows "counted mx 0 \<lparr>perf_ctx = Some ctx, provider = pr\<rparr>"
proof -
  have "monitoring_enabled ctx" using assms(1) by (auto simp: perf_metrics_init_def Let_def split: if_splits)
  then show ?thesis using perf_inv_init [OF assms] perf_init_counters [OF assms(1)] by (simp add: counted_def balanced_def)
qed

lemma counted_report:
  assumes "perf_ctx s = Some c" and "counted mx n s"
  shows "\<exists>good bad. good + bad = min (unat mx) n \<and>
           take 4 (figures (fst (print_report (Some c)))) = map show_nat [good + bad, good, bad, 0]"
proof -
  let ?c = "perf_metrics_calculate_stats c"
  have "balanced ?c" "unat (current_connections ?c) = min (unat mx) n"
    using assms summary_keeps [of c] by (auto simp: counted_def)
  then have "unat (successful_connections (pm_stats ?c)) + unat (failed_connections (pm_stats ?c)) = min (unat mx) n"
    "unat (total_connections (pm_stats ?c)) = min (unat mx) n" "active_connections (sys_metrics ?c) = 0"
    by (simp_all add: balanced_def perf_inv_def)
  then show ?thesis
    by (intro exI [of _ "unat (successful_connections (pm_stats ?c))"] exI [of _ "unat (failed_connections (pm_stats ?c))"])
      (simp add: print_report_def perf_metrics_print_report_def report_figures show_u64_def Let_def)
qed

section \<open>From the probes to the report\<close>

text \<open>
  Property C3 (report_counts_traced_connections). Let the probes run one at a time over any sequence of hits from empty maps, let
  the event buffer deliver records they sent, each at most once, and let the loop end. Then the printed report counts
  every event of the polls made, up to the capacity of the metrics context, as either a success or a failure, and shows no active
  connection; and the total it shows never exceeds the connect calls that were traced. Probes that overlap on two CPUs can send a
  second event for one connect call (\<open>Capture_Smp\<close>), so the last bound needs the hits to be one at a time.
\<close>

theorem report_counts_traced_connections:
  assumes "perf_metrics_init os mx h = (Some (p, q, ctx), h0)" and "unat mx < 2147483648"
    and "mset (concat (map poll_events polls)) \<subseteq># mset (map (event_bytes \<circ> snd) (snd (hits ps no_maps)))"
    and "main_loop os lib polls prev \<lparr>perf_ctx = Some ctx, provider = pr\<rparr> h1 = Some x"
  shows "\<exists>err s' h' c good bad. x = Ret (err, s', h') \<and> perf_ctx s' = Some c \<and>
           good + bad = min (unat mx) (length (handled polls)) \<and> good + bad \<le> connect_calls ps \<and>
           take 4 (figures (fst (print_report (Some c)))) = map show_nat [good + bad, good, bad, 0]"
proof -
  from main_loop_counts [OF assms(4) counted_start [OF assms(1,2)]] obtain err s' h' where
    x: "x = Ret (err, s', h')" and n: "counted mx (length (handled polls)) s'" by auto
  then obtain c where c: "perf_ctx s' = Some c" by (auto simp: counted_def)
  from counted_report [OF c n] obtain good bad where gb: "good + bad = min (unat mx) (length (handled polls))"
    and fig: "take 4 (figures (fst (print_report (Some c)))) = map show_nat [good + bad, good, bad, 0]" by blast
  have "length (handled polls) \<le> length (concat (map poll_events polls))" using handled_prefix [of polls] by auto
  also have "\<dots> \<le> length (snd (hits ps no_maps))" using size_mset_mono [OF assms(3)] by simp
  also have "\<dots> \<le> connect_calls ps" by (rule events_bounded)
  finally have "good + bad \<le> connect_calls ps" using gb by simp
  with x c gb fig show ?thesis by blast
qed

text \<open>One connection, traced by two probe hits; its event is delivered in the first poll, and a signal ends the loop.\<close>

theorem report_counts_traced_connections_witness:
  "let ps = [Connect 9, Sendmsg demo_env 9 demo_fields];
       polls = [\<lparr>poll_err = 1, poll_events = map (event_bytes \<circ> snd) (snd (hits ps no_maps)), poll_signal = True, poll_time = 0\<rparr>]
   in \<exists>ctx h0 err s' h' c good bad. perf_metrics_init (const_os IoErr) 2 [] = (Some (4096, 4096, ctx), h0) \<and>
        main_loop (const_os IoErr) no_ssl polls 0 \<lparr>perf_ctx = Some ctx, provider = ssl_less\<rparr> h0 = Some (Ret (err, s', h')) \<and>
        perf_ctx s' = Some c \<and> good + bad = 1 \<and> good + bad \<le> connect_calls ps \<and>
        take 4 (figures (fst (print_report (Some c)))) = map show_nat [good + bad, good, bad, 0]"
proof -
  let ?ps = "[Connect 9, Sendmsg demo_env 9 demo_fields]" and ?ev = "make_event demo_env (read_sock_info demo_env demo_fields)"
  let ?polls = "[\<lparr>poll_err = 1, poll_events = map (event_bytes \<circ> snd) (snd (hits ?ps no_maps)), poll_signal = True, poll_time = 0\<rparr>]"
  obtain ctx h0 where i: "perf_metrics_init (const_os IoErr) 2 [] = (Some (4096, 4096, ctx), h0)" using init_const_os by blast
  have lt: "unat (2 :: u32) < 2147483648" by simp
  have ev: "snd (hits ?ps no_maps) = [(9, ?ev)]"
  proof -
    have "length (snd (hits ?ps no_maps)) \<le> 1" using events_bounded [of ?ps] by (simp add: connect_calls_def)
    moreover have "(9, ?ev) \<in> set (snd (hits ?ps no_maps))" by (rule demo_event)
    ultimately show ?thesis by (cases "snd (hits ?ps no_maps)") auto
  qed
  have m: "mset (concat (map poll_events ?polls)) \<subseteq># mset (map (event_bytes \<circ> snd) (snd (hits ?ps no_maps)))" by simp
  let ?s = "\<lparr>perf_ctx = Some ctx, provider = ssl_less\<rparr>"
  have "balanced ctx" using perf_inv_init [OF i lt] perf_init_counters [OF i] by (simp add: balanced_def)
  then obtain s1 h1 where y: "handle_tcp_event (const_os IoErr) no_ssl (event_bytes ?ev) ?s h0 = Some (Ret (s1, h1))"
    using demo_handled [of ?s ctx "const_os IoErr" no_ssl "event_bytes ?ev" h0] by auto
  have "\<exists>x. main_loop (const_os IoErr) no_ssl ?polls 0 ?s h0 = Some x"
    unfolding ev using y by (auto split: prod.splits)
  then obtain x where x: "main_loop (const_os IoErr) no_ssl ?polls 0 ?s h0 = Some x" by blast
  have "length (handled ?polls) = 1" unfolding ev by (simp add: handled_def)
  then show ?thesis using report_counts_traced_connections [OF i lt m x] i x unfolding Let_def by fastforce
qed

end
