(* ===== verification/Loops.thy ===== *)
theory Loops
  imports Prelude
begin

text \<open>
  Loops of the form \<^verbatim>\<open>while (1) { ... continue; ... break; }\<close> around system calls. One turn of the loop is a
  function: \<open>Some (Inl s)\<close> goes round again with state \<open>s\<close>, \<open>Some (Inr r)\<close> leaves the loop with \<open>r\<close>, and \<open>None\<close>
  is a call that never returns. \<open>iterate\<close> runs the loop, and the locales give the two proof rules: what holds when the
  loop is left, and that it is left.
\<close>

partial_function (option) iterate :: "('s \<Rightarrow> ('s + 'r) option) \<Rightarrow> 's \<Rightarrow> 'r option" where
  "iterate body s =
     (case body s of
        None \<Rightarrow> None
      | Some (Inl s') \<Rightarrow> iterate body s'
      | Some (Inr r) \<Rightarrow> Some r)"

declare iterate.simps [code]

lemma iterate_None: "body s = None \<Longrightarrow> iterate body s = None"
  by (subst iterate.simps) simp

lemma iterate_Inl: "body s = Some (Inl s') \<Longrightarrow> iterate body s = iterate body s'"
  by (subst iterate.simps) simp

lemma iterate_Inr: "body s = Some (Inr r) \<Longrightarrow> iterate body s = Some r"
  by (subst iterate.simps) simp

lemmas iterate_unfold = iterate_None iterate_Inl iterate_Inr

text \<open>
  The contract of a loop: an invariant that every turn keeps, and a postcondition that every exit establishes
  from it.
\<close>

locale loop_contract =
  fixes body :: "'s \<Rightarrow> ('s + 'r) option"
    and I :: "'s \<Rightarrow> bool"
    and Q :: "'r \<Rightarrow> bool"
  assumes turn: "I s \<Longrightarrow> body s = Some (Inl s') \<Longrightarrow> I s'"
    and exit: "I s \<Longrightarrow> body s = Some (Inr r) \<Longrightarrow> Q r"
begin

lemma iterate_post:
  assumes "iterate body s = Some r" and "I s"
  shows "Q r"
proof -
  have "body = body \<longrightarrow> I s \<longrightarrow> Q r"
  proof (rule iterate.raw_induct [where P = "\<lambda>b s r. b = body \<longrightarrow> I s \<longrightarrow> Q r", OF _ assms(1)])
    fix it b s r
    assume "\<And>b s r. it b s = Some r \<Longrightarrow> b = body \<longrightarrow> I s \<longrightarrow> Q r"
      and "(case b s of None \<Rightarrow> None | Some (Inl s') \<Rightarrow> it b s' | Some (Inr r) \<Rightarrow> Some r) = Some r"
    then show "b = body \<longrightarrow> I s \<longrightarrow> Q r" by (auto split: option.splits sum.splits dest: turn exit)
  qed
  with assms(2) show ?thesis by simp
qed

end

text \<open>
  A loop that is left: no turn blocks and a measure goes down with every turn.
\<close>

locale total_loop = loop_contract +
  fixes m :: "'s \<Rightarrow> nat"
  assumes runs: "I s \<Longrightarrow> body s \<noteq> None"
    and descends: "I s \<Longrightarrow> body s = Some (Inl s') \<Longrightarrow> m s' < m s"
begin

lemma iterate_total: "I s \<Longrightarrow> \<exists>r. iterate body s = Some r \<and> Q r"
proof (induction "m s" arbitrary: s rule: less_induct)
  case less
  then obtain x where x: "body s = Some x" using runs by blast
  show ?case
  proof (cases x)
    case (Inl s')
    with less x turn descends show ?thesis by (metis iterate_Inl)
  next
    case (Inr r)
    with less x show ?thesis by (simp add: iterate_Inr exit)
  qed
qed

end

end
