(* ===== verification/Bench_Net.thy ===== *)
theory Bench_Net
  imports Posix Loops "HOL-Library.Sublist"
begin

text \<open>
  Stream sockets as the benchmark tool uses them, and the loop that sends a whole buffer, which the client
  (\<^verbatim>\<open>bench/src/tcp_client.c\<close>) and the echo server (\<^verbatim>\<open>bench/src/echo_server.c\<close>) both contain. The network is a parameter,
  a record \<open>net\<close> of answers like \<open>os\<close>.
\<close>

section \<open>The network\<close>

text \<open>
  \<open>net_signal h\<close> says whether SIGINT or SIGTERM has been handled by now; \<open>net_rusage h\<close> is the answer of \<^verbatim>\<open>getrusage\<close>,
  \<open>None\<close> for a failure.
\<close>

record rusage =
  utime_sec :: int
  utime_usec :: int
  stime_sec :: int
  stime_usec :: int
  ru_maxrss :: int

record net =
  net_connect :: "hist \<Rightarrow> int \<Rightarrow> u32 \<Rightarrow> u16 \<Rightarrow> int"
  net_bind :: "hist \<Rightarrow> int \<Rightarrow> u16 \<Rightarrow> int"
  net_listen :: "hist \<Rightarrow> int \<Rightarrow> nat \<Rightarrow> int"
  net_accept :: "hist \<Rightarrow> int \<Rightarrow> accept_answer"
  net_send :: "hist \<Rightarrow> int \<Rightarrow> byte list \<Rightarrow> send_answer"
  net_recv :: "hist \<Rightarrow> int \<Rightarrow> nat \<Rightarrow> recv_answer"
  net_poll :: "hist \<Rightarrow> int \<Rightarrow> poll_answer"
  net_signal :: "hist \<Rightarrow> bool"
  net_rusage :: "hist \<Rightarrow> rusage option"
  net_getpid :: "hist \<Rightarrow> int"

section \<open>Streams\<close>

text \<open>The bytes the kernel accepted from, and handed to, the program on a descriptor.\<close>

fun ev_sent :: "int \<Rightarrow> event \<Rightarrow> byte list" where
  "ev_sent fd (TcpSend f bs (SendOk n)) = (if f = fd then take n bs else [])"
| "ev_sent fd _ = []"

fun ev_recvd :: "int \<Rightarrow> event \<Rightarrow> byte list" where
  "ev_recvd fd (TcpRecv f n (RecvOk bs)) = (if f = fd then take n bs else [])"
| "ev_recvd fd _ = []"

definition sent_stream :: "int \<Rightarrow> hist \<Rightarrow> byte list" where
  "sent_stream fd h = concat (map (ev_sent fd) h)"

definition recv_stream :: "int \<Rightarrow> hist \<Rightarrow> byte list" where
  "recv_stream fd h = concat (map (ev_recvd fd) h)"

lemma stream_simps [simp]:
  "sent_stream fd [] = []" "sent_stream fd (e # h) = ev_sent fd e @ sent_stream fd h"
  "sent_stream fd (h @ h') = sent_stream fd h @ sent_stream fd h'"
  "recv_stream fd [] = []" "recv_stream fd (e # h) = ev_recvd fd e @ recv_stream fd h"
  "recv_stream fd (h @ h') = recv_stream fd h @ recv_stream fd h'"
  by (simp_all add: sent_stream_def recv_stream_def)

text \<open>How many calls a signal interrupted.\<close>

fun ev_intr :: "event \<Rightarrow> nat" where
  "ev_intr (TcpSend f bs SendEintr) = 1"
| "ev_intr (TcpRecv f n RecvEintr) = 1"
| "ev_intr (TcpPoll f PollEintr) = 1"
| "ev_intr _ = 0"

definition interrupts :: "hist \<Rightarrow> nat" where
  "interrupts h = sum_list (map ev_intr h)"

lemma interrupts_simps [simp]:
  "interrupts [] = 0" "interrupts (e # h) = ev_intr e + interrupts h" "interrupts (h @ h') = interrupts h + interrupts h'"
  by (simp_all add: interrupts_def)

text \<open>
  What POSIX says of the network: \<^verbatim>\<open>send\<close> never accepts more bytes than it was offered. And two descriptions of a
  healthy connection, for the statements that something is done in the end: at most \<open>K\<close> calls are interrupted by signals,
  a send accepts at least one byte, and receiving delivers exactly the stream \<open>input\<close> in pieces of any size and then
  the end of the stream.
\<close>

definition send_bounded :: "net \<Rightarrow> bool" where
  "send_bounded net \<longleftrightarrow> (\<forall>h fd bs n. net_send net h fd bs = SendOk n \<longrightarrow> n \<le> length bs)"

definition accepts :: "nat \<Rightarrow> net \<Rightarrow> int \<Rightarrow> bool" where
  "accepts K net fd \<longleftrightarrow>
     (\<forall>h bs. bs \<noteq> [] \<longrightarrow>
        (case net_send net h fd bs of
           SendOk n \<Rightarrow> 0 < n \<and> n \<le> length bs | SendEintr \<Rightarrow> interrupts h < K | _ \<Rightarrow> False))"

definition delivers :: "nat \<Rightarrow> net \<Rightarrow> int \<Rightarrow> hist \<Rightarrow> byte list \<Rightarrow> bool" where
  "delivers K net fd h0 input \<longleftrightarrow>
     (\<forall>es n. 0 < n \<longrightarrow>
        (case net_recv net (h0 @ es) fd n of
           RecvOk bs \<Rightarrow>
             (let rest = drop (length (recv_stream fd es)) input
              in prefix (take n bs) rest \<and> (take n bs = [] \<longleftrightarrow> rest = []))
         | RecvEintr \<Rightarrow> interrupts (h0 @ es) < K
         | _ \<Rightarrow> False))"

lemma delivers_skip:
  assumes "delivers K net fd h input" and "recv_stream fd es = []"
  shows "delivers K net fd (h @ es) input"
  unfolding delivers_def
proof (intro allI impI)
  fix es' and n :: nat assume "0 < n"
  then show "case net_recv net ((h @ es) @ es') fd n of
      RecvOk bs \<Rightarrow> let rest = drop (length (recv_stream fd es')) input in prefix (take n bs) rest \<and> (take n bs = [] \<longleftrightarrow> rest = [])
    | RecvEintr \<Rightarrow> interrupts ((h @ es) @ es') < K | _ \<Rightarrow> False"
    using assms(1) [unfolded delivers_def, rule_format, of n "es @ es'"] assms(2)
    by (simp split: recv_answer.splits)
qed

lemma delivers_cases:
  assumes "delivers K net fd h0 input" and "0 < n" and "prefix (recv_stream fd es) input"
  obtains bs where "net_recv net (h0 @ es) fd n = RecvOk bs" "prefix (recv_stream fd es @ take n bs) input"
      "take n bs = [] \<longleftrightarrow> recv_stream fd es = input"
  | "net_recv net (h0 @ es) fd n = RecvEintr" "interrupts (h0 @ es) < K"
proof -
  obtain rest where rest: "input = recv_stream fd es @ rest" using assms(3) by (auto simp: prefix_def)
  have "case net_recv net (h0 @ es) fd n of
          RecvOk bs \<Rightarrow> let rest = drop (length (recv_stream fd es)) input in prefix (take n bs) rest \<and> (take n bs = [] \<longleftrightarrow> rest = [])
        | RecvEintr \<Rightarrow> interrupts (h0 @ es) < K | _ \<Rightarrow> False"
    using assms(1,2) unfolding delivers_def by blast
  then show thesis by (cases "net_recv net (h0 @ es) fd n") (use that rest in \<open>auto simp: Let_def\<close>)
qed

section \<open>Resources\<close>

definition settled :: "hist \<Rightarrow> hist \<Rightarrow> bool" where
  "settled h h' \<longleftrightarrow> neutral h h' \<and> file_balance h' = file_balance h"

lemma settled_refl [simp, intro]: "settled h h"
  by (simp add: settled_def)

lemma settled_trans [trans]: "settled h h' \<Longrightarrow> settled h' h'' \<Longrightarrow> settled h h''"
  by (auto simp: settled_def dest: neutral_trans)

lemmas settled_simps = settled_def neutral_def fun_eq_iff balance

text \<open>Input and output on an open descriptor opens and closes nothing.\<close>

fun is_io :: "event \<Rightarrow> bool" where
  "is_io (TcpSend f bs r) \<longleftrightarrow> True"
| "is_io (TcpRecv f n r) \<longleftrightarrow> True"
| "is_io (TcpPoll f r) \<longleftrightarrow> True"
| "is_io _ \<longleftrightarrow> False"

definition io_ext :: "hist \<Rightarrow> hist \<Rightarrow> bool" where
  "io_ext h h' \<longleftrightarrow> (\<exists>es. h' = h @ es \<and> list_all is_io es)"

lemma io_ext_refl [simp, intro]: "io_ext h h"
  by (simp add: io_ext_def)

lemma io_ext_snoc [simp, intro]: "io_ext h0 h \<Longrightarrow> is_io e \<Longrightarrow> io_ext h0 (h @ [e])"
  by (auto simp: io_ext_def intro: exI [of _ "es @ [e]" for es])

lemma io_ext_trans [trans]: "io_ext h h' \<Longrightarrow> io_ext h' h'' \<Longrightarrow> io_ext h h''"
  by (auto simp: io_ext_def intro: exI [of _ "es @ es'" for es es'])

lemma io_ext_step: "io_ext (h @ [e]) h' \<Longrightarrow> io_ext h0 h \<Longrightarrow> is_io e \<Longrightarrow> io_ext h0 h'"
  using io_ext_trans by blast

lemma io_ext_settled: "io_ext h h' \<Longrightarrow> settled h h'"
proof -
  have "list_all is_io es \<Longrightarrow> fd_balance es x = 0 \<and> mem_balance es p = 0 \<and> file_balance es = 0" for es x p
  proof (induction es)
    case (Cons e es)
    then show ?case by (cases e) (auto simp: balance)
  qed (simp add: balance)
  then show "io_ext h h' \<Longrightarrow> settled h h'" by (auto simp: io_ext_def settled_simps)
qed

section \<open>Sending a whole buffer\<close>

text \<open>
  One turn of \<^verbatim>\<open>while (total_sent < len)\<close>: the rest of the buffer is offered; an interrupted call is repeated, another
  error ends the loop.
\<close>

definition send_body ::
  "net \<Rightarrow> int \<Rightarrow> byte list \<Rightarrow> int \<Rightarrow> int \<times> hist \<Rightarrow> ((int \<times> hist) + (bool \<times> int \<times> hist)) option"
where
  "send_body net fd buf len = (\<lambda>(total_sent, h).
     if total_sent < len then
       let bs = drop (nat total_sent) buf; sent = net_send net h fd bs; h' = h @ [TcpSend fd bs sent] in
       case sent of
         SendBlock \<Rightarrow> None
       | SendEintr \<Rightarrow> Some (Inl (total_sent, h'))
       | SendErr \<Rightarrow> Some (Inr (False, total_sent, h'))
       | SendOk n \<Rightarrow> Some (Inl (total_sent + int n, h'))
     else Some (Inr (True, total_sent, h)))"

definition send_all :: "net \<Rightarrow> int \<Rightarrow> byte list \<Rightarrow> int \<Rightarrow> hist \<Rightarrow> (bool \<times> int \<times> hist) option" where
  "send_all net fd buf len h = iterate (send_body net fd buf len) (0, h)"

text \<open>Whatever the network does, the loop only adds send events.\<close>

interpretation send_io: loop_contract "send_body net fd buf len" "\<lambda>(t, h). io_ext h0 h" "\<lambda>(ok, t, h). io_ext h0 h"
  for net fd buf len h0
  by unfold_locales (auto simp: send_body_def Let_def split: if_splits send_answer.splits)

lemma send_all_io: "send_all net fd buf len h = Some (ok, t, h') \<Longrightarrow> io_ext h h'"
  using send_io.iterate_post [of net fd buf len "(0, h)" "(ok, t, h')" h] by (simp add: send_all_def)

text \<open>
  The stream that reaches the network is the buffer up to the count the loop ends with, and the whole buffer when it
  ends with success.
\<close>

definition sent_so_far :: "int \<Rightarrow> byte list \<Rightarrow> hist \<Rightarrow> int \<Rightarrow> hist \<Rightarrow> bool" where
  "sent_so_far fd buf h0 t h \<longleftrightarrow>
     0 \<le> t \<and> t \<le> int (length buf) \<and>
     (\<exists>es. h = h0 @ es \<and> list_all is_io es \<and> sent_stream fd es = take (nat t) buf \<and> recv_stream fd es = [])"

lemma sent_so_far_0: "sent_so_far fd buf h 0 h"
  by (simp add: sent_so_far_def)

lemma sent_so_far_ok:
  assumes "sent_so_far fd buf h0 t h" and "n \<le> length (drop (nat t) buf)"
  shows "sent_so_far fd buf h0 (t + int n) (h @ [TcpSend fd (drop (nat t) buf) (SendOk n)])"
proof -
  let ?e = "TcpSend fd (drop (nat t) buf) (SendOk n)"
  obtain es where es: "h = h0 @ es" "list_all is_io es" "sent_stream fd es = take (nat t) buf" "recv_stream fd es = []" "0 \<le> t"
    and t: "t \<le> int (length buf)"
    using assms(1) by (auto simp: sent_so_far_def)
  have "nat (t + int n) = nat t + n" using es(5) by simp
  then have "sent_stream fd (es @ [?e]) = take (nat (t + int n)) buf" using es(3) by (simp add: take_add)
  moreover have "t + int n \<le> int (length buf)" using assms(2) t es(5) by simp
  ultimately show ?thesis using es unfolding sent_so_far_def by (intro conjI exI [of _ "es @ [?e]"]) simp_all
qed

lemma sent_so_far_fail:
  assumes "sent_so_far fd buf h0 t h" and "\<forall>n. r \<noteq> SendOk n"
  shows "sent_so_far fd buf h0 t (h @ [TcpSend fd bs r])"
proof -
  obtain es where es: "h = h0 @ es" "list_all is_io es" "sent_stream fd es = take (nat t) buf" "recv_stream fd es = []"
    using assms(1) by (auto simp: sent_so_far_def)
  have "ev_sent fd (TcpSend fd bs r) = []" using assms(2) by (cases r) auto
  then show ?thesis using es assms(1) unfolding sent_so_far_def
    by (intro conjI exI [of _ "es @ [TcpSend fd bs r]"]) auto
qed

lemma send_boundedD: "send_bounded net \<Longrightarrow> net_send net h fd bs = SendOk n \<Longrightarrow> n \<le> length bs"
  by (simp add: send_bounded_def)

interpretation send_data: loop_contract "send_body net fd buf (int (length buf))"
    "\<lambda>(t, h). send_bounded net \<and> sent_so_far fd buf h0 t h"
    "\<lambda>(ok, t, h). sent_so_far fd buf h0 t h \<and> (ok \<longrightarrow> t = int (length buf))"
  for net fd buf h0
proof
  fix s s' assume "case s of (t, h) \<Rightarrow> send_bounded net \<and> sent_so_far fd buf h0 t h"
    and "send_body net fd buf (int (length buf)) s = Some (Inl s')"
  then show "case s' of (t, h) \<Rightarrow> send_bounded net \<and> sent_so_far fd buf h0 t h"
    by (auto simp: send_body_def Let_def split: if_splits send_answer.splits)
      (simp_all add: sent_so_far_ok sent_so_far_fail send_boundedD del: length_drop)
next
  fix s r assume "case s of (t, h) \<Rightarrow> send_bounded net \<and> sent_so_far fd buf h0 t h"
    and "send_body net fd buf (int (length buf)) s = Some (Inr r)"
  then show "case r of (ok, t, h) \<Rightarrow> sent_so_far fd buf h0 t h \<and> (ok \<longrightarrow> t = int (length buf))"
    by (auto simp: send_body_def Let_def split: if_splits send_answer.splits intro!: sent_so_far_fail)
      (simp add: sent_so_far_def)
qed

lemma send_all_stream:
  assumes "send_bounded net" and "send_all net fd buf (int (length buf)) h = Some (ok, t, h')"
  shows "sent_so_far fd buf h t h' \<and> (ok \<longrightarrow> t = int (length buf))"
  using send_data.iterate_post [of net fd buf "(0, h)" "(ok, t, h')" h] assms sent_so_far_0
  by (simp add: send_all_def)

text \<open>On a healthy connection the loop ends, with the whole buffer sent.\<close>

definition send_left :: "nat \<Rightarrow> byte list \<Rightarrow> int \<times> hist \<Rightarrow> nat" where
  "send_left K buf = (\<lambda>(t, h). nat (int (length buf) - t) + (K - interrupts h))"

lemma accepts_cases:
  assumes "accepts K net fd" and "bs \<noteq> []"
  obtains n where "net_send net h fd bs = SendOk n" "0 < n" "n \<le> length bs"
  | "net_send net h fd bs = SendEintr" "interrupts h < K"
proof -
  have "case net_send net h fd bs of
          SendOk n \<Rightarrow> 0 < n \<and> n \<le> length bs | SendEintr \<Rightarrow> interrupts h < K | _ \<Rightarrow> False"
    using assms by (simp add: accepts_def)
  then show thesis by (cases "net_send net h fd bs") (use that in auto)
qed

lemma send_body_healthy:
  assumes "accepts K net fd" and "sent_so_far fd buf h0 t h"
  shows "t = int (length buf) \<and> send_body net fd buf (int (length buf)) (t, h) = Some (Inr (True, t, h)) \<or>
         (\<exists>t' h'. send_body net fd buf (int (length buf)) (t, h) = Some (Inl (t', h')) \<and>
            sent_so_far fd buf h0 t' h' \<and> send_left K buf (t', h') < send_left K buf (t, h))"
proof (cases "t < int (length buf)")
  case False
  then show ?thesis using assms(2) by (auto simp: send_body_def sent_so_far_def)
next
  case True
  have "0 \<le> t" using assms(2) by (simp add: sent_so_far_def)
  then have "drop (nat t) buf \<noteq> []" using True by (simp add: nat_less_iff not_le)
  with assms(1) show ?thesis
  proof (cases rule: accepts_cases [where h = h])
    case (1 n)
    then show ?thesis using True sent_so_far_ok [OF assms(2) 1(3)]
      by (simp add: send_body_def Let_def send_left_def)
  next
    case 2
    then show ?thesis using True sent_so_far_fail [OF assms(2), of SendEintr]
      by (simp add: send_body_def Let_def send_left_def)
  qed
qed

interpretation send_total: total_loop "send_body net fd buf (int (length buf))"
    "\<lambda>(t, h). accepts K net fd \<and> sent_so_far fd buf h0 t h"
    "\<lambda>(ok, t, h). ok \<and> t = int (length buf) \<and> sent_so_far fd buf h0 t h"
    "send_left K buf"
  for net fd buf h0 K
  by unfold_locales (auto dest!: send_body_healthy)

lemma send_all_total:
  assumes "accepts K net fd"
  shows "\<exists>h'. send_all net fd buf (int (length buf)) h = Some (True, int (length buf), h') \<and>
           sent_so_far fd buf h (int (length buf)) h'"
  using send_total.iterate_total [of K net fd buf h "(0, h)"] assms sent_so_far_0 by (auto simp: send_all_def)

section \<open>A network to run against\<close>

text \<open>
  A concrete network for the witnesses: every call succeeds, data travels two bytes at a time, the peer sends \<open>input\<close> and
  closes, and a signal has arrived once a client has been accepted.
\<close>

definition demo_net :: "byte list \<Rightarrow> net" where
  "demo_net input =
     \<lparr>net_connect = (\<lambda>h fd a p. 0), net_bind = (\<lambda>h fd p. 0), net_listen = (\<lambda>h fd n. 0),
      net_accept = (\<lambda>h fd. AcceptOk 7),
      net_send = (\<lambda>h fd bs. SendOk (min 2 (length bs))),
      net_recv = (\<lambda>h fd n. RecvOk (take 2 (drop (length (recv_stream fd h)) input))),
      net_poll = (\<lambda>h fd. PollReady), net_signal = (\<lambda>h. \<exists>e \<in> set h. \<exists>s. e = TcpAccept s (AcceptOk 7)),
      net_rusage = (\<lambda>h. None), net_getpid = (\<lambda>h. 42)\<rparr>"

lemma demo_net_simps [simp]:
  "net_connect (demo_net input) h fd a p = 0" "net_bind (demo_net input) h fd p = 0" "net_listen (demo_net input) h fd n = 0"
  "net_poll (demo_net input) h fd = PollReady" "net_rusage (demo_net input) h = None" "net_getpid (demo_net input) h = 42"
  by (simp_all add: demo_net_def)

lemma demo_net_bounded [simp]: "send_bounded (demo_net input)"
  by (simp add: send_bounded_def demo_net_def)

lemma demo_net_accepts [simp]: "accepts 0 (demo_net input) fd"
  by (simp add: accepts_def demo_net_def)

lemma demo_net_delivers: "recv_stream fd h = [] \<Longrightarrow> delivers 0 (demo_net input) fd h input"
  by (auto simp: delivers_def demo_net_def take_is_prefix min_def)

end
