(* ===== verification/Bench_Common.thy ===== *)
theory Bench_Common
  imports Bench_Net Text_Export
begin

text \<open>
  The data and the metrics of the benchmark tool, \<^verbatim>\<open>bench/include/bench_common.h\<close> and \<^verbatim>\<open>bench/src/bench_common.c\<close>:
  configuration, the record of one connection, and the totals over a run. The C type \<^verbatim>\<open>double\<close> is modelled by real numbers.
  The \<^verbatim>\<open>int\<close> counters count connections, of which a run makes at most 10000.
\<close>

section \<open>Data\<close>

datatype bench_mode = MODE_CLIENT | MODE_SERVER

datatype conn_state =
    CONN_STATE_INIT | CONN_STATE_CONNECTING | CONN_STATE_CONNECTED | CONN_STATE_SENDING | CONN_STATE_RECEIVING
  | CONN_STATE_CLOSING | CONN_STATE_CLOSED | CONN_STATE_FAILED | CONN_STATE_TIMEOUT

fun conn_state_num :: "conn_state \<Rightarrow> nat" where
  "conn_state_num CONN_STATE_INIT = 0"
| "conn_state_num CONN_STATE_CONNECTING = 1"
| "conn_state_num CONN_STATE_CONNECTED = 2"
| "conn_state_num CONN_STATE_SENDING = 3"
| "conn_state_num CONN_STATE_RECEIVING = 4"
| "conn_state_num CONN_STATE_CLOSING = 5"
| "conn_state_num CONN_STATE_CLOSED = 6"
| "conn_state_num CONN_STATE_FAILED = 7"
| "conn_state_num CONN_STATE_TIMEOUT = 8"

text \<open>The members of the configuration that are character arrays have 256, 512 and 512 bytes.\<close>

record bench_config =
  bc_mode :: bench_mode
  bc_target_ip :: string
  bc_target_port :: u16
  bc_listen_port :: u16
  bc_data_size :: u64
  bc_concurrency :: int
  bc_total_connections :: int
  bc_verbose :: bool
  bc_output_json :: string
  bc_output_csv :: string

record conn_stats =
  st_conn_id :: int
  st_state :: conn_state
  st_start_time :: timespec
  st_connect_time :: timespec
  st_first_byte_time :: timespec
  st_close_time :: timespec
  st_bytes_sent :: u64
  st_bytes_received :: u64
  st_connection_latency_ms :: real
  st_data_transfer_time_ms :: real
  st_throughput_mbps :: real

record global_metrics =
  gm_total_connections :: int
  gm_successful_connections :: int
  gm_failed_connections :: int
  gm_timeout_connections :: int
  gm_total_bytes_sent :: u64
  gm_total_bytes_received :: u64
  gm_avg_connection_latency_ms :: real
  gm_min_connection_latency_ms :: real
  gm_max_connection_latency_ms :: real
  gm_avg_throughput_mbps :: real
  gm_total_test_duration_sec :: real
  gm_test_start_time :: timespec
  gm_test_end_time :: timespec
  gm_cpu_usage_percent :: real
  gm_memory_usage_mb :: real

definition BUFFER_SIZE :: nat where "BUFFER_SIZE = 65536"
definition MAX_CONNECTIONS :: int where "MAX_CONNECTIONS = 10000"

text \<open>The value 1 of an \<^verbatim>\<open>int\<close> socket option.\<close>

definition opt_one :: "byte list" where "opt_one = le32 1"

definition epoch :: timespec where "epoch = \<lparr>tv_sec = 0, tv_nsec = 0\<rparr>"

text \<open>\<^verbatim>\<open>memset(stats, 0, sizeof(conn_stats_t))\<close> and the same for the totals.\<close>

definition zero_conn_stats :: conn_stats where
  "zero_conn_stats =
     \<lparr>st_conn_id = 0, st_state = CONN_STATE_INIT, st_start_time = epoch, st_connect_time = epoch,
      st_first_byte_time = epoch, st_close_time = epoch, st_bytes_sent = 0, st_bytes_received = 0,
      st_connection_latency_ms = 0, st_data_transfer_time_ms = 0, st_throughput_mbps = 0\<rparr>"

definition zero_global_metrics :: global_metrics where
  "zero_global_metrics =
     \<lparr>gm_total_connections = 0, gm_successful_connections = 0, gm_failed_connections = 0, gm_timeout_connections = 0,
      gm_total_bytes_sent = 0, gm_total_bytes_received = 0, gm_avg_connection_latency_ms = 0,
      gm_min_connection_latency_ms = 0, gm_max_connection_latency_ms = 0, gm_avg_throughput_mbps = 0,
      gm_total_test_duration_sec = 0, gm_test_start_time = epoch, gm_test_end_time = epoch, gm_cpu_usage_percent = 0,
      gm_memory_usage_mb = 0\<rparr>"

section \<open>Operations\<close>

definition timespec_diff_ms :: "timespec \<Rightarrow> timespec \<Rightarrow> real" where
  "timespec_diff_ms s e = of_int (tv_sec e - tv_sec s) * 1000 + of_int (tv_nsec e - tv_nsec s) / 1000000"

definition now :: "os \<Rightarrow> clockid \<Rightarrow> hist \<Rightarrow> timespec \<times> hist" where
  "now os c h = (let t = os_clock os h c in (t, h @ [Clock c t]))"

text \<open>A string written into a cleared array of \<open>n\<close> bytes, cut to fit as \<^verbatim>\<open>snprintf\<close> does.\<close>

definition snprintf_array :: "nat \<Rightarrow> string \<Rightarrow> string" where
  "snprintf_array n s = take (n - 1) s @ replicate (n - length (take (n - 1) s)) NUL"

definition DEFAULT_DATA_SIZE :: u64 where [simp]: "DEFAULT_DATA_SIZE = 1024"
definition DEFAULT_CONCURRENCY :: int where [simp]: "DEFAULT_CONCURRENCY = 1"
definition DEFAULT_TOTAL_CONNECTIONS :: int where [simp]: "DEFAULT_TOTAL_CONNECTIONS = 10"
definition DEFAULT_TARGET_PORT :: u16 where [simp]: "DEFAULT_TARGET_PORT = 8080"
definition DEFAULT_LISTEN_PORT :: u16 where [simp]: "DEFAULT_LISTEN_PORT = 9090"

definition init_config :: "os \<Rightarrow> net \<Rightarrow> hist \<Rightarrow> bench_config \<times> hist" where
  "init_config os net h =
     (let (t1, h1) = now os CLOCK_REALTIME h;
          (t2, h2) = now os CLOCK_REALTIME h1;
          name = (\<lambda>t ext. ''bench_metrics_'' @ show_int (tv_sec t) @ ''_'' @ show_int (net_getpid net h) @ ext)
      in (\<lparr>bc_mode = MODE_CLIENT, bc_target_ip = snprintf_array 256 ''127.0.0.1'', bc_target_port = DEFAULT_TARGET_PORT,
           bc_listen_port = DEFAULT_LISTEN_PORT, bc_data_size = DEFAULT_DATA_SIZE, bc_concurrency = DEFAULT_CONCURRENCY,
           bc_total_connections = DEFAULT_TOTAL_CONNECTIONS, bc_verbose = False,
           bc_output_json = snprintf_array 512 (name t1 ''.json''),
           bc_output_csv = snprintf_array 512 (name t2 ''.csv'')\<rparr>, h2))"

definition init_metrics :: "os \<Rightarrow> hist \<Rightarrow> global_metrics \<times> hist" where
  "init_metrics os h =
     (let (t, h1) = now os CLOCK_MONOTONIC h
      in (zero_global_metrics\<lparr>gm_test_start_time := t, gm_min_connection_latency_ms := 999999\<rparr>, h1))"

definition add_latency :: "real \<Rightarrow> global_metrics \<Rightarrow> global_metrics" where
  "add_latency l m =
     (if l > 0 then
        let m1 = m\<lparr>gm_avg_connection_latency_ms := gm_avg_connection_latency_ms m + l\<rparr>;
            m2 = (if l < gm_min_connection_latency_ms m1 then m1\<lparr>gm_min_connection_latency_ms := l\<rparr> else m1)
        in if l > gm_max_connection_latency_ms m2 then m2\<lparr>gm_max_connection_latency_ms := l\<rparr> else m2
      else m)"

definition update_metrics :: "global_metrics \<Rightarrow> conn_stats \<Rightarrow> global_metrics" where
  "update_metrics metrics c =
     (let m = metrics\<lparr>gm_total_connections := gm_total_connections metrics + 1\<rparr> in
      if st_state c = CONN_STATE_CLOSED then
        let m1 = m\<lparr>gm_successful_connections := gm_successful_connections m + 1,
                   gm_total_bytes_sent := gm_total_bytes_sent m + st_bytes_sent c,
                   gm_total_bytes_received := gm_total_bytes_received m + st_bytes_received c\<rparr>;
            m2 = add_latency (st_connection_latency_ms c) m1
        in if st_throughput_mbps c > 0
           then m2\<lparr>gm_avg_throughput_mbps := gm_avg_throughput_mbps m2 + st_throughput_mbps c\<rparr> else m2
      else if st_state c = CONN_STATE_FAILED then m\<lparr>gm_failed_connections := gm_failed_connections m + 1\<rparr>
      else if st_state c = CONN_STATE_TIMEOUT then m\<lparr>gm_timeout_connections := gm_timeout_connections m + 1\<rparr>
      else m)"

definition get_memory_usage :: "net \<Rightarrow> hist \<Rightarrow> real \<times> hist" where
  "get_memory_usage net h =
     ((case net_rusage net h of Some u \<Rightarrow> of_int (ru_maxrss u) / 1024 | None \<Rightarrow> 0), h @ [GetRusage])"

definition rusage_cpu_sec :: "rusage \<Rightarrow> real" where
  "rusage_cpu_sec u =
     (of_int (utime_sec u) + of_int (utime_usec u) / 1000000) + (of_int (stime_sec u) + of_int (stime_usec u) / 1000000)"

text \<open>The averages: sums divided by the number of successful connections, or everything zero when there is none.\<close>

definition finish_averages :: "global_metrics \<Rightarrow> global_metrics" where
  "finish_averages m =
     (if gm_successful_connections m > 0 then
        m\<lparr>gm_avg_connection_latency_ms := gm_avg_connection_latency_ms m / of_int (gm_successful_connections m),
          gm_avg_throughput_mbps := gm_avg_throughput_mbps m / of_int (gm_successful_connections m)\<rparr>
      else
        m\<lparr>gm_avg_connection_latency_ms := 0, gm_min_connection_latency_ms := 0, gm_max_connection_latency_ms := 0,
          gm_avg_throughput_mbps := 0\<rparr>)"

definition finalize_metrics :: "os \<Rightarrow> net \<Rightarrow> global_metrics \<Rightarrow> hist \<Rightarrow> global_metrics \<times> hist" where
  "finalize_metrics os net metrics h =
     (let (t, h1) = now os CLOCK_MONOTONIC h;
          m1 = metrics\<lparr>gm_test_end_time := t,
                       gm_total_test_duration_sec := timespec_diff_ms (gm_test_start_time metrics) t / 1000\<rparr>;
          m2 = finish_averages m1;
          u = net_rusage net h1;
          h2 = h1 @ [GetRusage];
          cpu = (case u of
                   Some us \<Rightarrow> if gm_total_test_duration_sec m2 > 0
                             then (rusage_cpu_sec us / gm_total_test_duration_sec m2) * 100 else 0
                 | None \<Rightarrow> 0);
          (mem, h3) = get_memory_usage net h2
      in (m2\<lparr>gm_cpu_usage_percent := cpu, gm_memory_usage_mb := mem\<rparr>, h3))"

section \<open>CPU usage\<close>

text \<open>The eight counters of the first line of \<^verbatim>\<open>/proc/stat\<close>, and the statics that hold the previous ones.\<close>

record cpu_times =
  ct_user :: u64
  ct_nice :: u64
  ct_system :: u64
  ct_idle :: u64
  ct_iowait :: u64
  ct_irq :: u64
  ct_softirq :: u64
  ct_steal :: u64

definition zero_cpu_times :: cpu_times where
  "zero_cpu_times = \<lparr>ct_user = 0, ct_nice = 0, ct_system = 0, ct_idle = 0, ct_iowait = 0, ct_irq = 0, ct_softirq = 0, ct_steal = 0\<rparr>"

text \<open>\<^verbatim>\<open>fscanf(fp, "%15s %llu ...")\<close>: a word of at most 15 characters and eight numbers; \<open>None\<close> when fewer than nine match.\<close>

definition scan_cpu_times :: "string \<Rightarrow> cpu_times option" where
  "scan_cpu_times s =
     (let t = skip_ws s; w = take 15 (takeWhile (\<lambda>c. \<not> isspace c) t) in
      if w = [] then None
      else case scan_ulls 8 (drop (length w) t) of
             [u, n, y, i, w, q, sq, st] \<Rightarrow>
               Some \<lparr>ct_user = u, ct_nice = n, ct_system = y, ct_idle = i, ct_iowait = w, ct_irq = q, ct_softirq = sq, ct_steal = st\<rparr>
           | _ \<Rightarrow> None)"

definition ct_total :: "cpu_times \<Rightarrow> u64" where
  "ct_total c = ct_user c + ct_nice c + ct_system c + ct_idle c + ct_iowait c + ct_irq c + ct_softirq c + ct_steal c"

definition ct_idle_total :: "cpu_times \<Rightarrow> u64" where
  "ct_idle_total c = ct_idle c + ct_iowait c"

definition cpu_share :: "cpu_times \<Rightarrow> cpu_times \<Rightarrow> real" where
  "cpu_share prev cur =
     (let total_diff = ct_total cur - ct_total prev; idle_diff = ct_idle_total cur - ct_idle_total prev
      in if total_diff > 0 then (real (unat (total_diff - idle_diff)) / real (unat total_diff)) * 100 else 0)"

text \<open>The first call, recognised by a stored user time of 0, only stores.\<close>

definition get_cpu_usage :: "os \<Rightarrow> cpu_times \<Rightarrow> hist \<Rightarrow> real \<times> cpu_times \<times> hist" where
  "get_cpu_usage os prev h =
     (case os_fopen os h ''/proc/stat'' of
        None \<Rightarrow> (0, prev, h @ [FOpen ''/proc/stat'' False])
      | Some s \<Rightarrow>
          (let h1 = h @ [FOpen ''/proc/stat'' True, FClose] in
           case scan_cpu_times s of
             None \<Rightarrow> (0, prev, h1)
           | Some cur \<Rightarrow> if ct_user prev = 0 then (0, cur, h1) else (cpu_share prev cur, cur, h1)))"

section \<open>What the totals say\<close>

definition closed_conns :: "conn_stats list \<Rightarrow> conn_stats list" where
  "closed_conns cs = filter (\<lambda>c. st_state c = CONN_STATE_CLOSED) cs"

definition conns_in :: "conn_state \<Rightarrow> conn_stats list \<Rightarrow> int" where
  "conns_in s cs = int (length (filter (\<lambda>c. st_state c = s) cs))"

text \<open>The measured latencies and throughputs: those of successful connections that are positive.\<close>

definition latencies :: "conn_stats list \<Rightarrow> real list" where
  "latencies cs = filter (\<lambda>x. 0 < x) (map st_connection_latency_ms (closed_conns cs))"

definition throughputs :: "conn_stats list \<Rightarrow> real list" where
  "throughputs cs = filter (\<lambda>x. 0 < x) (map st_throughput_mbps (closed_conns cs))"

definition run_totals :: "conn_stats list \<Rightarrow> global_metrics \<Rightarrow> bool" where
  "run_totals cs m \<longleftrightarrow>
     gm_total_connections m = int (length cs) \<and>
     gm_successful_connections m = conns_in CONN_STATE_CLOSED cs \<and>
     gm_failed_connections m = conns_in CONN_STATE_FAILED cs \<and>
     gm_timeout_connections m = conns_in CONN_STATE_TIMEOUT cs \<and>
     gm_total_bytes_sent m = sum_list (map st_bytes_sent (closed_conns cs)) \<and>
     gm_total_bytes_received m = sum_list (map st_bytes_received (closed_conns cs))"

definition running_latency :: "conn_stats list \<Rightarrow> global_metrics \<Rightarrow> bool" where
  "running_latency cs m \<longleftrightarrow>
     gm_avg_connection_latency_ms m = sum_list (latencies cs) \<and>
     gm_min_connection_latency_ms m = Min (insert 999999 (set (latencies cs))) \<and>
     gm_max_connection_latency_ms m = Max (insert 0 (set (latencies cs))) \<and>
     gm_avg_throughput_mbps m = sum_list (throughputs cs)"

lemmas totals_defs = run_totals_def running_latency_def conns_in_def closed_conns_def latencies_def throughputs_def

lemma totals_Nil: "run_totals [] (fst (init_metrics os h))" "running_latency [] (fst (init_metrics os h))"
  by (simp_all add: totals_defs init_metrics_def now_def zero_global_metrics_def Let_def)

lemma run_totals_snoc: "run_totals cs m \<Longrightarrow> run_totals (cs @ [c]) (update_metrics m c)"
  by (cases "st_state c") (simp_all add: totals_defs update_metrics_def add_latency_def Let_def)

lemma Min_snoc: "Min (insert (a :: real) (set (xs @ [x]))) = min x (Min (insert a (set xs)))"
  by (simp add: insert_commute [of a x])

lemma Max_snoc: "Max (insert (a :: real) (set (xs @ [x]))) = max x (Max (insert a (set xs)))"
  by (simp add: insert_commute [of a x])

lemma latencies_snoc:
  "latencies (cs @ [c]) =
     latencies cs @ (if st_state c = CONN_STATE_CLOSED \<and> 0 < st_connection_latency_ms c then [st_connection_latency_ms c] else [])"
  "throughputs (cs @ [c]) =
     throughputs cs @ (if st_state c = CONN_STATE_CLOSED \<and> 0 < st_throughput_mbps c then [st_throughput_mbps c] else [])"
  by (simp_all add: latencies_def throughputs_def closed_conns_def)

lemma update_metrics_latency:
  "gm_avg_connection_latency_ms (update_metrics m c) = gm_avg_connection_latency_ms m +
     (if st_state c = CONN_STATE_CLOSED \<and> 0 < st_connection_latency_ms c then st_connection_latency_ms c else 0)"
  "gm_min_connection_latency_ms (update_metrics m c) =
     (if st_state c = CONN_STATE_CLOSED \<and> 0 < st_connection_latency_ms c
      then min (st_connection_latency_ms c) (gm_min_connection_latency_ms m) else gm_min_connection_latency_ms m)"
  "gm_max_connection_latency_ms (update_metrics m c) =
     (if st_state c = CONN_STATE_CLOSED \<and> 0 < st_connection_latency_ms c
      then max (st_connection_latency_ms c) (gm_max_connection_latency_ms m) else gm_max_connection_latency_ms m)"
  "gm_avg_throughput_mbps (update_metrics m c) = gm_avg_throughput_mbps m +
     (if st_state c = CONN_STATE_CLOSED \<and> 0 < st_throughput_mbps c then st_throughput_mbps c else 0)"
  by (simp_all add: update_metrics_def add_latency_def Let_def min_def max_def)

lemma running_latency_snoc: "running_latency cs m \<Longrightarrow> running_latency (cs @ [c]) (update_metrics m c)"
  by (simp add: running_latency_def update_metrics_latency latencies_snoc Min_snoc Max_snoc
      del: set_append Min_insert Max_insert)

lemma totals_foldl:
  "run_totals cs (foldl update_metrics (fst (init_metrics os h)) cs)"
  "running_latency cs (foldl update_metrics (fst (init_metrics os h)) cs)"
  by (induction cs rule: rev_induct) (simp_all add: totals_Nil run_totals_snoc running_latency_snoc)

lemma summary_fields:
  "let m = fst (finalize_metrics os net (foldl update_metrics (fst (init_metrics os h0)) cs) h); ok = closed_conns cs in
     run_totals cs m \<and>
     gm_avg_connection_latency_ms m = sum_list (latencies cs) / real (length ok) \<and>
     gm_avg_throughput_mbps m = sum_list (throughputs cs) / real (length ok) \<and>
     gm_min_connection_latency_ms m = (if ok = [] then 0 else Min (insert 999999 (set (latencies cs)))) \<and>
     gm_max_connection_latency_ms m = (if ok = [] then 0 else Max (insert 0 (set (latencies cs))))"
proof -
  let ?f = "foldl update_metrics (fst (init_metrics os h0)) cs"
  obtain t c mem where "fst (finalize_metrics os net ?f h) =
      (finish_averages (?f\<lparr>gm_test_end_time := t, gm_total_test_duration_sec := timespec_diff_ms (gm_test_start_time ?f) t / 1000\<rparr>))
         \<lparr>gm_cpu_usage_percent := c, gm_memory_usage_mb := mem\<rparr>"
    by (simp add: finalize_metrics_def now_def get_memory_usage_def Let_def)
  moreover have "run_totals cs ?f" "running_latency cs ?f" by (rule totals_foldl)+
  ultimately show ?thesis
    by (cases "closed_conns cs = []")
      (simp_all add: run_totals_def running_latency_def finish_averages_def Let_def latencies_def throughputs_def
        conns_in_def flip: closed_conns_def)
qed

text \<open>
  Property C32 (bench_summary_describes_run). After any sequence of connections the final totals are the numbers of
  connections in each state and the bytes of the successful ones. The reported mean latency is the sum of the positive
  latencies of successful connections divided by the number of all successful connections, measured or not, and the mean
  throughput is formed in the same way; the reported minimum is the least of these latencies and the starting value 999999, the
  maximum the greatest of them and 0. Without a successful connection all four figures are 0.
\<close>

theorem bench_summary_describes_run:
  "let m = fst (finalize_metrics os net (foldl update_metrics (fst (init_metrics os h0)) cs) h); ok = closed_conns cs in
     run_totals cs m \<and>
     gm_avg_connection_latency_ms m = sum_list (latencies cs) / real (length ok) \<and>
     gm_avg_throughput_mbps m = sum_list (throughputs cs) / real (length ok) \<and>
     gm_min_connection_latency_ms m = (if ok = [] then 0 else Min (insert 999999 (set (latencies cs)))) \<and>
     gm_max_connection_latency_ms m = (if ok = [] then 0 else Max (insert 0 (set (latencies cs))))"
  by (rule summary_fields)

end
