(* ===== verification/Bench_Client.thy ===== *)
theory Bench_Client
  imports Bench_Common
begin

text \<open>
  The client of the benchmark tool, \<^verbatim>\<open>bench/src/tcp_client.c\<close>: it connects, sends a test pattern, waits for the echo, closes in
  order and repeats this for the configured number of connections, one after the other. Progress messages and the pause
  between connections are left out.
\<close>

section \<open>One connection\<close>

definition tcp_client_connect ::
  "os \<Rightarrow> net \<Rightarrow> string \<Rightarrow> u16 \<Rightarrow> conn_stats \<Rightarrow> hist \<Rightarrow> int \<times> conn_stats \<times> hist"
where
  "tcp_client_connect os net target_ip target_port stats h =
     (let (t, h0) = now os CLOCK_MONOTONIC h;
          s1 = stats\<lparr>st_start_time := t, st_state := CONN_STATE_CONNECTING\<rparr>;
          sockfd = os_socket os h0; h1 = h0 @ [Socket sockfd]
      in if sockfd < 0 then (-1, s1\<lparr>st_state := CONN_STATE_FAILED\<rparr>, h1)
         else
           let r = os_setsockopt os h1 sockfd ''TCP_NODELAY'' opt_one;
               h2 = h1 @ [SetSockOpt sockfd ''TCP_NODELAY'' opt_one r]
           in case inet_pton4 target_ip of
                None \<Rightarrow> (-1, s1\<lparr>st_state := CONN_STATE_FAILED\<rparr>, h2 @ [Close sockfd])
              | Some addr \<Rightarrow>
                  let c = net_connect net h2 sockfd addr (htons target_port);
                      h3 = h2 @ [TcpConnect sockfd addr (htons target_port) c]
                  in if c < 0 then (-1, s1\<lparr>st_state := CONN_STATE_FAILED\<rparr>, h3 @ [Close sockfd])
                     else
                       let (t', h4) = now os CLOCK_MONOTONIC h3;
                           s2 = s1\<lparr>st_connect_time := t'\<rparr>;
                           s3 = s2\<lparr>st_connection_latency_ms := timespec_diff_ms (st_start_time s2) (st_connect_time s2)\<rparr>
                       in (sockfd, s3\<lparr>st_state := CONN_STATE_CONNECTED\<rparr>, h4))"

text \<open>The buffer: 0xAA everywhere, then the first 256 bytes overwritten by their index.\<close>

definition test_pattern :: "nat \<Rightarrow> byte list" where
  "test_pattern n = map (\<lambda>i. if i < 256 then of_nat i else 0xAA) [0..<n]"

definition tcp_client_send_data ::
  "os \<Rightarrow> net \<Rightarrow> int \<Rightarrow> u64 \<Rightarrow> conn_stats \<Rightarrow> hist \<Rightarrow> (int \<times> conn_stats \<times> hist) option"
where
  "tcp_client_send_data os net sockfd data_size stats h =
     (let s1 = stats\<lparr>st_state := CONN_STATE_SENDING\<rparr>;
          (send_start, h1) = now os CLOCK_MONOTONIC h;
          p = os_malloc os h1 (unat data_size); h2 = h1 @ [Malloc (unat data_size) p]
      in if p = NULL then Some (-1, s1\<lparr>st_state := CONN_STATE_FAILED\<rparr>, h2)
         else case send_all net sockfd (test_pattern (unat data_size)) (sint data_size) h2 of
                None \<Rightarrow> None
              | Some (ok, total_sent, h3) \<Rightarrow>
                  if \<not> ok then Some (-1, s1\<lparr>st_state := CONN_STATE_FAILED\<rparr>, h3 @ [Free p])
                  else
                    let (send_end, h4) = now os CLOCK_MONOTONIC h3;
                        s2 = s1\<lparr>st_bytes_sent := of_int total_sent\<rparr>;
                        s3 = (if tv_sec (st_first_byte_time s2) = 0 then s2\<lparr>st_first_byte_time := send_end\<rparr> else s2)
                    in Some (0, s3, h4 @ [Free p]))"

text \<open>One turn of the receive loop: wait for data up to five seconds, then take what is there.\<close>

definition receive_body ::
  "net \<Rightarrow> int \<Rightarrow> conn_stats \<times> hist \<Rightarrow> ((conn_stats \<times> hist) + (int \<times> conn_stats \<times> hist)) option"
where
  "receive_body net sockfd = (\<lambda>(stats, h).
     let p = net_poll net h sockfd; h1 = h @ [TcpPoll sockfd p] in
     case p of
       PollEintr \<Rightarrow> Some (Inl (stats, h1))
     | PollErr \<Rightarrow> Some (Inr (-1, stats\<lparr>st_state := CONN_STATE_FAILED\<rparr>, h1))
     | PollTimeout \<Rightarrow>
         if st_bytes_received stats < st_bytes_sent stats
         then Some (Inr (-1, stats\<lparr>st_state := CONN_STATE_TIMEOUT\<rparr>, h1)) else Some (Inr (0, stats, h1))
     | PollReady \<Rightarrow>
         (let r = net_recv net h1 sockfd BUFFER_SIZE; h2 = h1 @ [TcpRecv sockfd BUFFER_SIZE r] in
          case r of
            RecvBlock \<Rightarrow> None
          | RecvEintr \<Rightarrow> Some (Inl (stats, h2))
          | RecvErr \<Rightarrow> Some (Inr (-1, stats\<lparr>st_state := CONN_STATE_FAILED\<rparr>, h2))
          | RecvOk bs \<Rightarrow>
              (let buffer = take BUFFER_SIZE bs in
               if buffer = [] then Some (Inr (0, stats, h2))
               else
                 let s1 = stats\<lparr>st_bytes_received := st_bytes_received stats + of_nat (length buffer)\<rparr>
                 in if st_bytes_received s1 \<ge> st_bytes_sent s1 then Some (Inr (0, s1, h2)) else Some (Inl (s1, h2)))))"

definition tcp_client_receive_data :: "net \<Rightarrow> int \<Rightarrow> conn_stats \<Rightarrow> hist \<Rightarrow> (int \<times> conn_stats \<times> hist) option" where
  "tcp_client_receive_data net sockfd stats h =
     iterate (receive_body net sockfd) (stats\<lparr>st_state := CONN_STATE_RECEIVING\<rparr>, h)"

text \<open>Closing: send FIN, then read until the peer closes or the receive times out.\<close>

definition drain_body :: "net \<Rightarrow> int \<Rightarrow> hist \<Rightarrow> (hist + hist) option" where
  "drain_body net sockfd h =
     (let r = net_recv net h sockfd 1024; h1 = h @ [TcpRecv sockfd 1024 r] in
      case r of
        RecvBlock \<Rightarrow> None
      | RecvOk bs \<Rightarrow> if take 1024 bs = [] then Some (Inr h1) else Some (Inl h1)
      | _ \<Rightarrow> Some (Inr h1))"

definition rcvtimeo :: "byte list" where "rcvtimeo = le_bytes 8 5 @ le_bytes 8 0"

definition close_metrics :: "timespec \<Rightarrow> conn_stats \<Rightarrow> conn_stats" where
  "close_metrics close_end stats =
     (let s1 = stats\<lparr>st_close_time := close_end, st_state := CONN_STATE_CLOSED\<rparr>;
          total_time_ms = timespec_diff_ms (st_start_time s1) close_end;
          s2 = s1\<lparr>st_data_transfer_time_ms := total_time_ms - st_connection_latency_ms s1\<rparr>
      in if st_data_transfer_time_ms s2 > 0 \<and> st_bytes_sent s2 > 0 then
           let bytes_per_sec = real (unat (st_bytes_sent s2 + st_bytes_received s2)) / (st_data_transfer_time_ms s2 / 1000)
           in s2\<lparr>st_throughput_mbps := (bytes_per_sec * 8) / (1024 * 1024)\<rparr>
         else s2)"

definition tcp_client_close :: "os \<Rightarrow> net \<Rightarrow> int \<Rightarrow> conn_stats \<Rightarrow> hist \<Rightarrow> (int \<times> conn_stats \<times> hist) option" where
  "tcp_client_close os net sockfd stats h =
     (let s1 = stats\<lparr>st_state := CONN_STATE_CLOSING\<rparr>;
          (close_start, h1) = now os CLOCK_MONOTONIC h;
          r = os_setsockopt os h1 sockfd ''SO_RCVTIMEO'' rcvtimeo;
          h2 = h1 @ [SetSockOpt sockfd ''SO_RCVTIMEO'' rcvtimeo r, TcpShutdown sockfd SHUT_WR]
      in case iterate (drain_body net sockfd) h2 of
           None \<Rightarrow> None
         | Some h3 \<Rightarrow>
             (let (close_end, h4) = now os CLOCK_MONOTONIC (h3 @ [Close sockfd])
              in Some (0, close_metrics close_end s1, h4)))"

definition run_single_connection ::
  "os \<Rightarrow> net \<Rightarrow> bench_config \<Rightarrow> conn_stats \<Rightarrow> hist \<Rightarrow> (int \<times> conn_stats \<times> hist) option"
where
  "run_single_connection os net config stats h =
     (let (sockfd, s1, h1) = tcp_client_connect os net (c_str (bc_target_ip config)) (bc_target_port config) stats h in
      if sockfd < 0 then Some (-1, s1, h1)
      else case tcp_client_send_data os net sockfd (bc_data_size config) s1 h1 of
             None \<Rightarrow> None
           | Some (r2, s2, h2) \<Rightarrow>
               if r2 < 0 then Some (-1, s2, h2 @ [Close sockfd])
               else case tcp_client_receive_data net sockfd s2 h2 of
                      None \<Rightarrow> None
                    | Some (r3, s3, h3) \<Rightarrow>
                        if r3 < 0 then Some (-1, s3, h3 @ [Close sockfd])
                        else case tcp_client_close os net sockfd s3 h3 of
                               None \<Rightarrow> None
                             | Some (r4, s4, h4) \<Rightarrow> if r4 < 0 then Some (-1, s4, h4) else Some (0, s4, h4))"

section \<open>The run\<close>

text \<open>
  The loop over the connections, with \<open>n\<close> still to go from index \<open>i\<close>; \<open>arr\<close> is the array of the caller. A connection that fails
  is marked as failed, whatever state it ended in.
\<close>

definition record_connection :: "int \<Rightarrow> conn_stats \<Rightarrow> conn_stats" where
  "record_connection r stats = (if r = 0 then stats else stats\<lparr>st_state := CONN_STATE_FAILED\<rparr>)"

fun run_connections ::
  "os \<Rightarrow> net \<Rightarrow> bench_config \<Rightarrow> nat \<Rightarrow> nat \<Rightarrow> conn_stats list \<Rightarrow> global_metrics \<Rightarrow> hist \<Rightarrow>
     (conn_stats list \<times> global_metrics \<times> hist) outcome option"
where
  "run_connections os net config 0 i arr m h = Some (Ret (arr, m, h))"
| "run_connections os net config (Suc n) i arr m h =
     (if length arr \<le> i then Some Fault
      else case run_single_connection os net config (zero_conn_stats\<lparr>st_conn_id := int i + 1\<rparr>) h of
             None \<Rightarrow> None
           | Some (r, s, h') \<Rightarrow>
               (let s' = record_connection r s
                in run_connections os net config n (Suc i) (arr[i := s']) (update_metrics m s') h'))"

definition run_tcp_client ::
  "os \<Rightarrow> net \<Rightarrow> bench_config \<Rightarrow> global_metrics \<Rightarrow> conn_stats list \<Rightarrow> hist \<Rightarrow>
     (conn_stats list \<times> global_metrics \<times> hist) outcome option"
where
  "run_tcp_client os net config metrics conn_stats_array h =
     run_connections os net config (nat (bc_total_connections config)) 0 conn_stats_array metrics h"

section \<open>Resources and results of one connection\<close>

text \<open>The documented range of \<^verbatim>\<open>socket\<close>: a descriptor or -1.\<close>

definition socket_ok :: "os \<Rightarrow> bool" where
  "socket_ok os \<longleftrightarrow> (\<forall>h. -1 \<le> os_socket os h)"

definition opened :: "int \<Rightarrow> hist \<Rightarrow> hist \<Rightarrow> bool" where
  "opened fd h h' \<longleftrightarrow>
     (\<forall>x. fd_balance h' x = fd_balance h x + (if x = fd then 1 else 0)) \<and> mem_balance h' = mem_balance h \<and>
     file_balance h' = file_balance h"

lemma opened_settled [trans]: "opened fd h h' \<Longrightarrow> settled h' h'' \<Longrightarrow> opened fd h h''"
  by (simp add: opened_def settled_simps)

lemma opened_close: "opened fd h h' \<Longrightarrow> settled h (h' @ [Close fd])"
  by (simp add: opened_def settled_simps)

lemma connect_result:
  assumes "tcp_client_connect os net ip port stats h = (fd, s, h')" and "socket_ok os"
  shows "fd = -1 \<and> settled h h' \<and> st_state s = CONN_STATE_FAILED \<or> 0 \<le> fd \<and> opened fd h h'"
proof (cases "os_socket os (h @ [Clock CLOCK_MONOTONIC (os_clock os h CLOCK_MONOTONIC)]) < 0")
  case True
  moreover have "-1 \<le> os_socket os (h @ [Clock CLOCK_MONOTONIC (os_clock os h CLOCK_MONOTONIC)])"
    using assms(2) by (simp add: socket_ok_def)
  ultimately have "os_socket os (h @ [Clock CLOCK_MONOTONIC (os_clock os h CLOCK_MONOTONIC)]) = -1" by linarith
  with assms(1) show ?thesis by (auto simp: tcp_client_connect_def now_def Let_def settled_simps)
next
  case False
  with assms(1) show ?thesis
    by (auto simp: tcp_client_connect_def now_def Let_def opened_def settled_simps split: if_splits option.splits)
qed

lemma send_data_result:
  assumes "tcp_client_send_data os net fd n stats h = Some (r, s, h')"
  shows "settled h h' \<and> (r = 0 \<or> r = -1 \<and> st_state s = CONN_STATE_FAILED)"
proof -
  let ?h1 = "h @ [Clock CLOCK_MONOTONIC (os_clock os h CLOCK_MONOTONIC)]"
  let ?p = "os_malloc os ?h1 (unat n)"
  let ?h2 = "?h1 @ [Malloc (unat n) ?p]"
  show ?thesis
  proof (cases "?p = NULL")
    case True
    with assms show ?thesis by (auto simp: tcp_client_send_data_def now_def Let_def settled_simps)
  next
    case False
    then obtain ok tot h3 where send: "send_all net fd (test_pattern (unat n)) (sint n) ?h2 = Some (ok, tot, h3)"
      using assms by (auto simp: tcp_client_send_data_def now_def Let_def split: option.splits)
    have "settled ?h2 h3" by (rule io_ext_settled [OF send_all_io [OF send]])
    with assms False send show ?thesis
      by (auto simp: tcp_client_send_data_def now_def Let_def settled_simps split: if_splits)
  qed
qed

text \<open>The receive loop changes the count by what was received, and the state only on an error.\<close>

definition receiving :: "int \<Rightarrow> conn_stats \<Rightarrow> hist \<Rightarrow> conn_stats \<Rightarrow> hist \<Rightarrow> bool" where
  "receiving fd s0 h0 s h \<longleftrightarrow>
     (\<exists>es. h = h0 @ es \<and> list_all is_io es \<and> sent_stream fd es = [] \<and>
        s = s0\<lparr>st_bytes_received := st_bytes_received s0 + of_nat (length (recv_stream fd es))\<rparr>)"

definition received :: "int \<Rightarrow> conn_stats \<Rightarrow> hist \<Rightarrow> int \<times> conn_stats \<times> hist \<Rightarrow> bool" where
  "received fd s0 h0 = (\<lambda>(r, s, h).
     r = 0 \<and> receiving fd s0 h0 s h \<or>
     r = -1 \<and> (\<exists>s'. receiving fd s0 h0 s' h \<and>
        (s = s'\<lparr>st_state := CONN_STATE_FAILED\<rparr> \<or> s = s'\<lparr>st_state := CONN_STATE_TIMEOUT\<rparr>)))"

lemma receiving_refl: "receiving fd s h s h"
  by (simp add: receiving_def)

lemma receiving_snoc:
  assumes "receiving fd s0 h0 s h" and "is_io e" and "ev_sent fd e = []"
  shows "receiving fd s0 h0 (s\<lparr>st_bytes_received := st_bytes_received s + of_nat (length (ev_recvd fd e))\<rparr>) (h @ [e])"
proof -
  obtain es where es: "h = h0 @ es" "list_all is_io es" "sent_stream fd es = []"
      "s = s0\<lparr>st_bytes_received := st_bytes_received s0 + of_nat (length (recv_stream fd es))\<rparr>"
    using assms(1) by (auto simp: receiving_def)
  then show ?thesis unfolding receiving_def using assms(2,3) by (intro exI [of _ "es @ [e]"]) simp
qed

lemma receiving_skip:
  assumes "receiving fd s0 h0 s h" and "is_io e" and "ev_sent fd e = []" and "ev_recvd fd e = []"
  shows "receiving fd s0 h0 s (h @ [e])"
  using receiving_snoc [OF assms(1-3)] assms(4) by simp

lemma receivedI:
  assumes "receiving fd s0 h0 s h"
  shows "received fd s0 h0 (0, s, h)" "received fd s0 h0 (-1, s\<lparr>st_state := CONN_STATE_FAILED\<rparr>, h)"
    "received fd s0 h0 (-1, s\<lparr>st_state := CONN_STATE_TIMEOUT\<rparr>, h)"
  using assms by (auto simp: received_def)

lemma receive_body_received:
  assumes "receiving fd s0 h0 s h" and "receive_body net fd (s, h) = Some x"
  shows "case x of Inl (s', h') \<Rightarrow> receiving fd s0 h0 s' h' | Inr res \<Rightarrow> received fd s0 h0 res"
proof (cases "net_poll net h fd")
  case PollReady
  let ?h1 = "h @ [TcpPoll fd PollReady]"
  have 1: "receiving fd s0 h0 s ?h1" by (rule receiving_skip [OF assms(1)]) simp_all
  show ?thesis
  proof (cases "net_recv net ?h1 fd BUFFER_SIZE")
    case (RecvOk bs)
    define buf where "buf = take BUFFER_SIZE bs"
    let ?e = "TcpRecv fd BUFFER_SIZE (RecvOk bs)"
    have 2: "receiving fd s0 h0 (s\<lparr>st_bytes_received := st_bytes_received s + of_nat (length buf)\<rparr>) (?h1 @ [?e])"
      using receiving_snoc [OF 1, of ?e] by (simp add: buf_def)
    then have 3: "buf = [] \<Longrightarrow> receiving fd s0 h0 s (?h1 @ [?e])" by simp
    show ?thesis using assms(2) PollReady RecvOk 2 3
      by (auto simp: receive_body_def receivedI Let_def simp flip: buf_def split: if_splits)
  qed (use assms(2) PollReady receiving_skip [OF 1] in \<open>auto simp: receive_body_def receivedI Let_def\<close>)
qed (use assms(2) receiving_skip [OF assms(1)] in \<open>auto simp: receive_body_def receivedI Let_def split: if_splits\<close>)

interpretation receive: loop_contract "receive_body net fd" "\<lambda>(s, h). receiving fd s0 h0 s h" "received fd s0 h0"
  for net fd s0 h0
  by unfold_locales (auto dest: receive_body_received)

lemma receive_data_result:
  assumes "tcp_client_receive_data net fd stats h = Some res"
  shows "received fd (stats\<lparr>st_state := CONN_STATE_RECEIVING\<rparr>) h res"
  using receive.iterate_post [of net fd _ res "stats\<lparr>st_state := CONN_STATE_RECEIVING\<rparr>" h] assms receiving_refl
  by (auto simp: tcp_client_receive_data_def)

lemma received_settled: "received fd s0 h0 (r, s, h) \<Longrightarrow> settled h0 h"
  by (auto simp: received_def receiving_def io_ext_def intro!: io_ext_settled)

interpretation drain: loop_contract "drain_body net fd" "io_ext h0" "io_ext h0"
  for net fd h0
  by unfold_locales (auto simp: drain_body_def Let_def split: if_splits recv_answer.splits)

lemma close_result:
  assumes "tcp_client_close os net fd stats h = Some (r, s, h')" and "opened fd h0 h"
  shows "r = 0 \<and> settled h0 h' \<and> st_state s = CONN_STATE_CLOSED"
proof -
  define h1 where "h1 = h @ [Clock CLOCK_MONOTONIC (os_clock os h CLOCK_MONOTONIC)]"
  define h2 where "h2 = h1 @ [SetSockOpt fd ''SO_RCVTIMEO'' rcvtimeo (os_setsockopt os h1 fd ''SO_RCVTIMEO'' rcvtimeo),
      TcpShutdown fd SHUT_WR]"
  obtain h3 t where run: "iterate (drain_body net fd) h2 = Some h3"
    and res: "r = 0" "h' = h3 @ [Close fd, Clock CLOCK_MONOTONIC t]" "s = close_metrics t (stats\<lparr>st_state := CONN_STATE_CLOSING\<rparr>)"
    using assms(1) by (auto simp: tcp_client_close_def now_def Let_def h1_def h2_def split: option.splits)
  have "settled h h2" by (simp add: h1_def h2_def settled_simps)
  also have "settled h2 h3" using drain.iterate_post [OF run, of h2] by (simp add: io_ext_settled)
  finally have "opened fd h0 h3" using assms(2) opened_settled by blast
  then show ?thesis using res by (simp add: opened_def settled_simps close_metrics_def Let_def)
qed

lemma single_result:
  assumes "socket_ok os" and "run_single_connection os net config stats h = Some (r, s, h')"
  shows "settled h h' \<and>
         (r = 0 \<and> st_state s = CONN_STATE_CLOSED \<or>
          r = -1 \<and> st_state s \<in> {CONN_STATE_FAILED, CONN_STATE_TIMEOUT})"
proof -
  obtain fd s1 h1 where c: "tcp_client_connect os net (c_str (bc_target_ip config)) (bc_target_port config) stats h = (fd, s1, h1)"
    by (metis prod_cases3)
  consider "fd = -1" "settled h h1" "st_state s1 = CONN_STATE_FAILED" | "0 \<le> fd" "opened fd h h1"
    using connect_result [OF c assms(1)] by blast
  then show ?thesis
  proof cases
    case 1
    with assms(2) c show ?thesis by (auto simp: run_single_connection_def)
  next
    case 2
    then obtain r2 s2 h2 where s: "tcp_client_send_data os net fd (bc_data_size config) s1 h1 = Some (r2, s2, h2)"
      using assms(2) c by (auto simp: run_single_connection_def split: option.splits)
    note s' = send_data_result [OF s]
    have o2: "opened fd h h2" using 2(2) s' opened_settled by blast
    show ?thesis
    proof (cases "r2 < 0")
      case True
      with assms(2) c 2 s s' opened_close [OF o2] show ?thesis by (auto simp: run_single_connection_def)
    next
      case False
      then obtain r3 s3 h3 where r: "tcp_client_receive_data net fd s2 h2 = Some (r3, s3, h3)"
        using assms(2) c 2 s by (auto simp: run_single_connection_def split: option.splits)
      note r' = receive_data_result [OF r]
      have o3: "opened fd h h3" using o2 received_settled [OF r'] opened_settled by blast
      show ?thesis
      proof (cases "r3 < 0")
        case True
        with assms(2) c 2 s False r r' opened_close [OF o3] show ?thesis
          by (auto simp: run_single_connection_def received_def)
      next
        case f3: False
        then obtain r4 s4 h4 where "tcp_client_close os net fd s3 h3 = Some (r4, s4, h4)"
          using assms(2) c 2 s False r by (auto simp: run_single_connection_def split: option.splits)
        with assms(2) c 2 s False r f3 close_result [OF this o3] show ?thesis by (auto simp: run_single_connection_def)
      qed
    qed
  qed
qed

text \<open>
  Remark (client_connection_cleans_up). A benchmark connection that ends, at whatever stage, has closed its socket and freed
  its buffer. Its result is 0 exactly when it went through all stages and is in state closed, and otherwise -1 with the
  state failed or timed out.
\<close>

theorem client_connection_cleans_up:
  assumes "socket_ok os" and "run_single_connection os net config stats h = Some (r, s, h')"
  shows "settled h h' \<and>
         (r = 0 \<and> st_state s = CONN_STATE_CLOSED \<or>
          r = -1 \<and> st_state s \<in> {CONN_STATE_FAILED, CONN_STATE_TIMEOUT})"
  using assms by (rule single_result)

text \<open>A configuration for the witnesses: one connection that sends three bytes.\<close>

lemma c_str_snprintf_array: "NUL \<notin> set s \<Longrightarrow> length s < n \<Longrightarrow> c_str (snprintf_array n s) = s"
proof -
  assume s: "NUL \<notin> set s" "length s < n"
  then have "snprintf_array n s = s @ NUL # replicate (n - length s - 1) NUL"
    by (simp add: snprintf_array_def replicate_Suc [symmetric] del: replicate_Suc)
  with s(1) show ?thesis by simp
qed

definition demo_config :: bench_config where
  "demo_config =
     \<lparr>bc_mode = MODE_CLIENT, bc_target_ip = snprintf_array 256 ''127.0.0.1'', bc_target_port = 9090, bc_listen_port = 9090,
      bc_data_size = 3, bc_concurrency = 1, bc_total_connections = 1, bc_verbose = False,
      bc_output_json = snprintf_array 512 ''a.json'', bc_output_csv = snprintf_array 512 ''a.csv''\<rparr>"

lemma demo_config_simps [simp]:
  "c_str (bc_target_ip demo_config) = ''127.0.0.1''" "bc_data_size demo_config = 3" "bc_total_connections demo_config = 1"
  "bc_target_port demo_config = 9090"
  by (simp_all add: demo_config_def c_str_snprintf_array NUL_def)

lemma inet_pton4_localhost [simp]: "inet_pton4 ''127.0.0.1'' = Some 16777343"
  by (simp add: inet_pton4_def is_octet_def is_digit_def dec_val_def digit_val_def)

lemma const_os_socket_ok [simp]: "socket_ok (const_os r)"
  by (simp add: socket_ok_def)

lemmas client_eval = run_single_connection_def tcp_client_connect_def tcp_client_send_data_def tcp_client_receive_data_def
  receive_body_def tcp_client_close_def drain_body_def close_metrics_def now_def send_all_def send_body_def demo_net_def
  BUFFER_SIZE_def test_pattern_def iterate_unfold Let_def upt_rec

theorem client_connection_cleans_up_witness:
  "\<exists>s h'. run_single_connection (const_os IoErr) (demo_net [0, 1, 2]) demo_config zero_conn_stats [] = Some (0, s, h') \<and>
     st_state s = CONN_STATE_CLOSED \<and> fd_balance h' 5 = 0 \<and> mem_balance h' 4096 = 0"
proof -
  obtain s h' where run: "run_single_connection (const_os IoErr) (demo_net [0, 1, 2]) demo_config zero_conn_stats [] = Some (0, s, h')"
    by (simp add: client_eval zero_conn_stats_def epoch_def)
  then show ?thesis using client_connection_cleans_up [OF const_os_socket_ok run] by (simp add: settled_simps)
qed

section \<open>Accounting over a run\<close>

lemma connect_conn_id: "tcp_client_connect os net ip port stats h = (fd, s, h') \<Longrightarrow> st_conn_id s = st_conn_id stats"
  by (auto simp: tcp_client_connect_def now_def Let_def split: if_splits option.splits)

lemma send_data_conn_id: "tcp_client_send_data os net fd n stats h = Some (r, s, h') \<Longrightarrow> st_conn_id s = st_conn_id stats"
  by (auto simp: tcp_client_send_data_def now_def Let_def split: if_splits option.splits)

lemma received_conn_id: "received fd s0 h0 (r, s, h) \<Longrightarrow> st_conn_id s = st_conn_id s0"
  by (auto simp: received_def receiving_def)

lemma close_conn_id: "tcp_client_close os net fd stats h = Some (r, s, h') \<Longrightarrow> st_conn_id s = st_conn_id stats"
  by (auto simp: tcp_client_close_def close_metrics_def now_def Let_def split: if_splits option.splits)

lemma single_conn_id:
  "run_single_connection os net config stats h = Some (r, s, h') \<Longrightarrow> st_conn_id s = st_conn_id stats"
  by (auto simp: run_single_connection_def split: prod.splits option.splits if_splits
      dest!: connect_conn_id send_data_conn_id receive_data_result received_conn_id close_conn_id)

lemma run_connections_result:
  assumes "socket_ok os" and "run_connections os net config n i arr m h = Some out" and "i + n = length arr"
  shows "\<exists>cs m' h'. out = Ret (take i arr @ cs, m', h') \<and> length cs = n \<and> m' = foldl update_metrics m cs \<and> settled h h' \<and>
           map st_conn_id cs = map (\<lambda>k. int k + 1) [i..<i + n] \<and>
           (\<forall>c \<in> set cs. st_state c \<in> {CONN_STATE_CLOSED, CONN_STATE_FAILED})"
  using assms(2,3)
proof (induction n arbitrary: i arr m h)
  case 0
  then show ?case by auto
next
  case (Suc n)
  then obtain r s h1 where one: "run_single_connection os net config (zero_conn_stats\<lparr>st_conn_id := int i + 1\<rparr>) h = Some (r, s, h1)"
    and rest: "run_connections os net config n (Suc i) (arr[i := record_connection r s])
                 (update_metrics m (record_connection r s)) h1 = Some out"
    by (auto simp: Let_def split: option.splits if_splits)
  let ?s = "record_connection r s"
  obtain cs m' h' where cs: "out = Ret (take (Suc i) (arr[i := ?s]) @ cs, m', h')" "length cs = n"
      "m' = foldl update_metrics (update_metrics m ?s) cs" "settled h1 h'" "map st_conn_id cs = map (\<lambda>k. int k + 1) [Suc i..<Suc i + n]"
      "\<forall>c \<in> set cs. st_state c \<in> {CONN_STATE_CLOSED, CONN_STATE_FAILED}"
    using Suc.IH [OF rest] Suc.prems(2) by auto
  have i: "i < length arr" using Suc.prems(2) by simp
  have "settled h h1" "st_state ?s \<in> {CONN_STATE_CLOSED, CONN_STATE_FAILED}"
    using single_result [OF assms(1) one] by (auto simp: record_connection_def)
  moreover have "st_conn_id ?s = int i + 1" using single_conn_id [OF one] by (simp add: record_connection_def)
  moreover have "take (Suc i) (arr[i := ?s]) = take i arr @ [?s]" using i by (simp add: take_Suc_conv_app_nth)
  ultimately show ?case using cs settled_trans
    by (intro exI [of _ "?s # cs"] exI [of _ m'] exI [of _ h']) (auto simp: upt_conv_Cons)
qed

lemma conns_in_partition:
  assumes "\<forall>c \<in> set cs. st_state c \<in> {CONN_STATE_CLOSED, CONN_STATE_FAILED}"
  shows "conns_in CONN_STATE_TIMEOUT cs = 0" "conns_in CONN_STATE_CLOSED cs + conns_in CONN_STATE_FAILED cs = int (length cs)"
  using assms by (induction cs) (auto simp: conns_in_def)

text \<open>
  Property C23 (bench_run_accounts_for_every_connection). A run of the client that returns, started with fresh metrics and an array
  of the configured size, has filled the array with one record per connection, numbered from 1, each closed or
  failed; the totals are the totals of this array, successes and failures add up to the configured number, and every
  socket and buffer was released. The timeout counter is always 0: a connection that timed out is relabelled as failed
  before it is counted.
\<close>

theorem bench_run_accounts_for_every_connection:
  assumes "socket_ok os" and "0 \<le> bc_total_connections config" and "int (length arr) = bc_total_connections config"
    and "run_tcp_client os net config (fst (init_metrics os h0)) arr h = Some out"
  shows "\<exists>arr' m h'. out = Ret (arr', m, h') \<and> settled h h' \<and> run_totals arr' m \<and>
           map st_conn_id arr' = [1..bc_total_connections config] \<and>
           (\<forall>c \<in> set arr'. st_state c \<in> {CONN_STATE_CLOSED, CONN_STATE_FAILED}) \<and>
           gm_successful_connections m + gm_failed_connections m = bc_total_connections config \<and>
           gm_timeout_connections m = 0"
proof -
  let ?n = "nat (bc_total_connections config)"
  have "0 + ?n = length arr" using assms(3) by simp
  from run_connections_result [OF assms(1) assms(4) [unfolded run_tcp_client_def] this]
  obtain cs m h' where r: "out = Ret (cs, m, h')" "length cs = ?n" "m = foldl update_metrics (fst (init_metrics os h0)) cs"
      "settled h h'" "map st_conn_id cs = map (\<lambda>k. int k + 1) [0..<?n]"
      "\<forall>c \<in> set cs. st_state c \<in> {CONN_STATE_CLOSED, CONN_STATE_FAILED}"
    by auto
  have t: "run_totals cs m" unfolding r(3) by (rule totals_foldl(1))
  have "map (\<lambda>k. int k + 1) [0..<?n] = [1..bc_total_connections config]"
    using assms(2) by (intro nth_equalityI) simp_all
  then show ?thesis using r t conns_in_partition [OF r(6)] assms(2) by (auto simp: run_totals_def)
qed

theorem bench_run_accounts_for_every_connection_witness:
  "\<exists>arr' m h'. run_tcp_client (const_os IoErr) (demo_net [0, 1, 2]) demo_config (fst (init_metrics (const_os IoErr) [])) [zero_conn_stats] [] =
       Some (Ret (arr', m, h')) \<and> map st_conn_id arr' = [1] \<and> gm_successful_connections m + gm_failed_connections m = 1"
proof -
  let ?os = "const_os IoErr"
  obtain out where run: "run_tcp_client ?os (demo_net [0, 1, 2]) demo_config (fst (init_metrics ?os [])) [zero_conn_stats] [] = Some out"
    by (simp add: run_tcp_client_def client_eval zero_conn_stats_def epoch_def)
  then show ?thesis using bench_run_accounts_for_every_connection [OF _ _ _ run] by (auto simp: upto_rec1)
qed

end
