(* ===== verification/Bench_Echo.thy ===== *)
theory Bench_Echo
  imports Bench_Common
begin

text \<open>
  The echo server of the benchmark tool, \<^verbatim>\<open>bench/src/echo_server.c\<close>: it accepts one client at a time and sends back what
  it receives until the client closes. The peer's address is only logged and is left out.
\<close>

section \<open>The server\<close>

definition echo_server_start :: "os \<Rightarrow> net \<Rightarrow> u16 \<Rightarrow> hist \<Rightarrow> int \<times> hist" where
  "echo_server_start os net port h =
     (let fd = os_socket os h; h1 = h @ [Socket fd] in
      if fd < 0 then (-1, h1)
      else
        let r1 = os_setsockopt os h1 fd ''SO_REUSEADDR'' opt_one; h2 = h1 @ [SetSockOpt fd ''SO_REUSEADDR'' opt_one r1] in
        if r1 < 0 then (-1, h2 @ [Close fd])
        else
          let r2 = os_setsockopt os h2 fd ''SO_REUSEPORT'' opt_one; h3 = h2 @ [SetSockOpt fd ''SO_REUSEPORT'' opt_one r2] in
          if r2 < 0 then (-1, h3 @ [Close fd])
          else
            let r3 = net_bind net h3 fd (htons port); h4 = h3 @ [TcpBind fd (htons port) r3] in
            if r3 < 0 then (-1, h4 @ [Close fd])
            else
              let r4 = net_listen net h4 fd 128; h5 = h4 @ [TcpListen fd 128 r4] in
              if r4 < 0 then (-1, h5 @ [Close fd]) else (fd, h5))"

text \<open>
  One turn of the echo loop. It is left with \<open>True\<close> by \<^verbatim>\<open>break\<close> (end of the stream or a failed receive) and with \<open>False\<close>
  by the early return after a failed send.
\<close>

definition echo_body ::
  "net \<Rightarrow> int \<Rightarrow> u64 \<times> hist \<Rightarrow> ((u64 \<times> hist) + (bool \<times> u64 \<times> hist)) option"
where
  "echo_body net client_fd = (\<lambda>(total_bytes, h).
     let r = net_recv net h client_fd BUFFER_SIZE; h1 = h @ [TcpRecv client_fd BUFFER_SIZE r] in
     case r of
       RecvBlock \<Rightarrow> None
     | RecvEintr \<Rightarrow> Some (Inl (total_bytes, h1))
     | RecvErr \<Rightarrow> Some (Inr (True, total_bytes, h1))
     | RecvOk bs \<Rightarrow>
         (let buffer = take BUFFER_SIZE bs in
          if buffer = [] then Some (Inr (True, total_bytes, h1))
          else
            let total_bytes' = total_bytes + of_nat (length buffer) in
            case send_all net client_fd buffer (int (length buffer)) h1 of
              None \<Rightarrow> None
            | Some (ok, total_sent, h2) \<Rightarrow>
                if ok then Some (Inl (total_bytes', h2)) else Some (Inr (False, total_bytes', h2))))"

definition echo_server_handle_client :: "os \<Rightarrow> net \<Rightarrow> int \<Rightarrow> hist \<Rightarrow> hist option" where
  "echo_server_handle_client os net client_fd h =
     (let r = os_setsockopt os h client_fd ''TCP_NODELAY'' opt_one;
          h1 = h @ [SetSockOpt client_fd ''TCP_NODELAY'' opt_one r]
      in case iterate (echo_body net client_fd) (0, h1) of
           None \<Rightarrow> None
         | Some (closing, total_bytes, h2) \<Rightarrow>
             Some (if closing then h2 @ [TcpShutdown client_fd SHUT_RDWR, Close client_fd] else h2 @ [Close client_fd]))"

text \<open>The accept loop; \<^verbatim>\<open>keep_running\<close> is cleared by the signal handler.\<close>

definition accept_body :: "os \<Rightarrow> net \<Rightarrow> int \<Rightarrow> hist \<Rightarrow> (hist + hist) option" where
  "accept_body os net server_fd h =
     (if net_signal net h then Some (Inr h)
      else
        let r = net_accept net h server_fd; h1 = h @ [TcpAccept server_fd r] in
        case r of
          AcceptBlock \<Rightarrow> None
        | AcceptEintr \<Rightarrow> Some (Inl h1)
        | AcceptErr \<Rightarrow> Some (Inr h1)
        | AcceptOk fd \<Rightarrow> map_option Inl (echo_server_handle_client os net (int fd) h1))"

definition run_echo_server :: "os \<Rightarrow> net \<Rightarrow> u16 \<Rightarrow> hist \<Rightarrow> (int \<times> hist) option" where
  "run_echo_server os net listen_port h =
     (let (server_fd, h1) = echo_server_start os net listen_port h in
      if server_fd < 0 then Some (-1, h1)
      else case iterate (accept_body os net server_fd) h1 of
             None \<Rightarrow> None
           | Some h2 \<Rightarrow> Some (0, h2 @ [Close server_fd]))"

section \<open>What is echoed\<close>

text \<open>The state of a conversation since \<open>h0\<close>: the answer sent is an initial part of the data received, or all of it.\<close>

definition echoed :: "int \<Rightarrow> hist \<Rightarrow> bool \<Rightarrow> u64 \<Rightarrow> hist \<Rightarrow> bool" where
  "echoed fd h0 whole tot h \<longleftrightarrow>
     (\<exists>es. h = h0 @ es \<and> list_all is_io es \<and> tot = of_nat (length (recv_stream fd es)) \<and>
        prefix (sent_stream fd es) (recv_stream fd es) \<and> (whole \<longrightarrow> sent_stream fd es = recv_stream fd es))"

lemma echoed_0: "echoed fd h True 0 h"
  by (simp add: echoed_def)

lemma echoed_recv_none:
  assumes "echoed fd h0 c tot h" and "\<forall>bs. r = RecvOk bs \<longrightarrow> take n bs = []"
  shows "echoed fd h0 c tot (h @ [TcpRecv fd n r])"
proof -
  have "ev_recvd fd (TcpRecv fd n r) = []" using assms(2) by (cases r) auto
  moreover obtain es where "h = h0 @ es" "list_all is_io es" "tot = of_nat (length (recv_stream fd es))"
      "prefix (sent_stream fd es) (recv_stream fd es)" "c \<longrightarrow> sent_stream fd es = recv_stream fd es"
    using assms(1) by (auto simp: echoed_def)
  ultimately show ?thesis unfolding echoed_def by (intro exI [of _ "es @ [TcpRecv fd n r]"]) auto
qed

lemma echoed_turn:
  assumes "echoed fd h0 True tot h" and "take n bs = buf"
    and "sent_so_far fd buf (h @ [TcpRecv fd n (RecvOk bs)]) t h'" and "c \<longrightarrow> t = int (length buf)"
  shows "echoed fd h0 c (tot + of_nat (length buf)) h'"
proof -
  obtain es where es: "h = h0 @ es" "list_all is_io es" "tot = of_nat (length (recv_stream fd es))"
      "sent_stream fd es = recv_stream fd es"
    using assms(1) by (auto simp: echoed_def)
  obtain es' where es': "h' = h @ TcpRecv fd n (RecvOk bs) # es'" "list_all is_io es'"
      "sent_stream fd es' = take (nat t) buf" "recv_stream fd es' = []"
    using assms(3) by (auto simp: sent_so_far_def)
  let ?es = "es @ TcpRecv fd n (RecvOk bs) # es'"
  have "sent_stream fd ?es = recv_stream fd es @ take (nat t) buf" "recv_stream fd ?es = recv_stream fd es @ buf"
    using es es' assms(2) by simp_all
  then show ?thesis using es es' assms(2,4) unfolding echoed_def
    by (intro exI [of _ ?es]) (auto simp: take_is_prefix)
qed

lemma echo_body_echoed:
  assumes "send_bounded net" and "echoed fd h0 True tot h" and "echo_body net fd (tot, h) = Some x"
  shows "case x of Inl (n, h') \<Rightarrow> echoed fd h0 True n h' | Inr (c, n, h') \<Rightarrow> echoed fd h0 c n h'"
proof (cases "net_recv net h fd BUFFER_SIZE")
  case (RecvOk bs)
  define buf where "buf = take BUFFER_SIZE bs"
  let ?h = "h @ [TcpRecv fd BUFFER_SIZE (RecvOk bs)]"
  show ?thesis
  proof (cases "buf = []")
    case True
    then have "echoed fd h0 True tot ?h" using assms(2) by (intro echoed_recv_none) (simp_all add: buf_def)
    with assms(3) RecvOk True show ?thesis by (auto simp: echo_body_def Let_def buf_def)
  next
    case False
    obtain ok t h' where send: "send_all net fd buf (int (length buf)) ?h = Some (ok, t, h')"
      and x: "x = (if ok then Inl (tot + of_nat (length buf), h') else Inr (False, tot + of_nat (length buf), h'))"
      using assms(3) RecvOk False
      by (auto simp: echo_body_def Let_def simp flip: buf_def split: option.splits if_splits simp del: length_take)
    have "echoed fd h0 ok (tot + of_nat (length buf)) h'"
      using send_all_stream [OF assms(1) send] by (intro echoed_turn [OF assms(2) buf_def [symmetric]]) auto
    with x show ?thesis by (cases ok) simp_all
  qed
qed (use assms(2,3) in \<open>auto simp: echo_body_def Let_def intro: echoed_recv_none\<close>)

interpretation echo: loop_contract "echo_body net fd" "\<lambda>(n, h). send_bounded net \<and> echoed fd h0 True n h"
    "\<lambda>(c, n, h). echoed fd h0 c n h"
  for net fd h0
  by unfold_locales (auto dest: echo_body_echoed)

text \<open>The events of one conversation: the option, then input and output, then the end.\<close>

lemma handle_client_run:
  assumes "echo_server_handle_client os net fd h = Some h'"
  obtains r closing n h2 where
    "iterate (echo_body net fd) (0, h @ [SetSockOpt fd ''TCP_NODELAY'' opt_one r]) = Some (closing, n, h2)"
    "h' = h2 @ (if closing then [TcpShutdown fd SHUT_RDWR] else []) @ [Close fd]"
  using assms by (auto simp: echo_server_handle_client_def Let_def split: option.splits if_splits)

interpretation echo_io: loop_contract "echo_body net fd" "\<lambda>(n, h). io_ext h0 h" "\<lambda>(c, n, h). io_ext h0 h"
  for net fd h0
  by unfold_locales
    (auto simp: echo_body_def Let_def split: if_splits recv_answer.splits option.splits
      dest!: send_all_io,
      (erule (1) io_ext_step, simp)+)

lemma handle_client_closes:
  assumes "echo_server_handle_client os net fd h = Some h'"
  shows "fd_balance h' x = fd_balance h x - (if x = fd then 1 else 0) \<and> mem_balance h' = mem_balance h \<and>
         file_balance h' = file_balance h"
  using assms
proof (rule handle_client_run)
  fix r closing n h2
  assume "iterate (echo_body net fd) (0, h @ [SetSockOpt fd ''TCP_NODELAY'' opt_one r]) = Some (closing, n, h2)"
    and h': "h' = h2 @ (if closing then [TcpShutdown fd SHUT_RDWR] else []) @ [Close fd]"
  then have "settled (h @ [SetSockOpt fd ''TCP_NODELAY'' opt_one r]) h2"
    using echo_io.iterate_post by (fastforce intro: io_ext_settled)
  then show ?thesis unfolding h' by (auto simp: settled_simps)
qed

text \<open>
  Property C24 (echo_returns_what_it_received). A conversation of the echo server that ends sends back, on the client's
  descriptor, an initial part of the bytes it received there, in order and unchanged; when the connection is
  shut down in order it is all of them. The descriptor is closed once and nothing else is opened, closed or allocated.
\<close>

theorem echo_returns_what_it_received:
  assumes "send_bounded net" and "echo_server_handle_client os net fd h = Some h'"
  shows "\<exists>es. h' = h @ es \<and> prefix (sent_stream fd es) (recv_stream fd es) \<and>
           (TcpShutdown fd SHUT_RDWR \<in> set es \<longrightarrow> sent_stream fd es = recv_stream fd es) \<and>
           fd_balance h' = (fd_balance h)(fd := fd_balance h fd - 1) \<and> mem_balance h' = mem_balance h"
  using assms(2)
proof (rule handle_client_run)
  fix r closing n h2
  let ?o = "SetSockOpt fd ''TCP_NODELAY'' opt_one r" and ?tl = "(if closing then [TcpShutdown fd SHUT_RDWR] else []) @ [Close fd]"
  assume run: "iterate (echo_body net fd) (0, h @ [?o]) = Some (closing, n, h2)" and h': "h' = h2 @ ?tl"
  have "echoed fd (h @ [?o]) closing n h2"
    using echo.iterate_post [OF run, of "h @ [?o]"] assms(1) echoed_0 by simp
  then obtain es where es: "h2 = (h @ [?o]) @ es" "list_all is_io es" "prefix (sent_stream fd es) (recv_stream fd es)"
      "closing \<longrightarrow> sent_stream fd es = recv_stream fd es"
    by (auto simp: echoed_def)
  have "TcpShutdown fd SHUT_RDWR \<notin> set es" using es(2) by (auto simp: list_all_iff)
  then have "TcpShutdown fd SHUT_RDWR \<in> set (?o # es @ ?tl) \<Longrightarrow> closing" by (auto split: if_splits)
  then show ?thesis using es handle_client_closes [OF assms(2)] h'
    by (intro exI [of _ "?o # es @ ?tl"]) (auto simp: fun_eq_iff)
qed

text \<open>Evaluation of a conversation on the demonstration network.\<close>

lemmas echo_eval = echo_server_handle_client_def echo_body_def send_all_def send_body_def demo_net_def BUFFER_SIZE_def
  iterate_unfold Let_def

theorem echo_returns_what_it_received_witness:
  "\<exists>es. echo_server_handle_client (const_os IoErr) (demo_net [1, 2, 3]) 7 [] = Some es \<and>
     prefix (sent_stream 7 es) (recv_stream 7 es) \<and> fd_balance es 7 = -1"
proof -
  obtain es where run: "echo_server_handle_client (const_os IoErr) (demo_net [1, 2, 3]) 7 [] = Some es"
    by (simp add: echo_eval)
  then show ?thesis using echo_returns_what_it_received [OF demo_net_bounded run] by (auto simp: balance)
qed

section \<open>The server answers\<close>

text \<open>A conversation on a healthy connection: everything received so far is echoed, and it is a part of the input.\<close>

definition echo_ongoing :: "int \<Rightarrow> byte list \<Rightarrow> hist \<Rightarrow> hist \<Rightarrow> bool" where
  "echo_ongoing fd input h0 h \<longleftrightarrow>
     (\<exists>es. h = h0 @ es \<and> list_all is_io es \<and> sent_stream fd es = recv_stream fd es \<and> prefix (recv_stream fd es) input)"

definition echo_left :: "nat \<Rightarrow> int \<Rightarrow> byte list \<Rightarrow> hist \<Rightarrow> u64 \<times> hist \<Rightarrow> nat" where
  "echo_left K fd input h0 = (\<lambda>(n, h). (length input - length (recv_stream fd (drop (length h0) h))) + (K - interrupts h))"

definition echo_done :: "int \<Rightarrow> byte list \<Rightarrow> hist \<Rightarrow> hist \<Rightarrow> bool" where
  "echo_done fd input h0 h \<longleftrightarrow>
     (\<exists>es. h = h0 @ es \<and> list_all is_io es \<and> sent_stream fd es = input \<and> recv_stream fd es = input)"

lemma echo_body_healthy:
  assumes "accepts K net fd" and "delivers K net fd h0 input" and "echo_ongoing fd input h0 h"
  shows "(\<exists>h'. echo_body net fd (n, h) = Some (Inr (True, n, h')) \<and> echo_done fd input h0 h') \<or>
         (\<exists>n' h'. echo_body net fd (n, h) = Some (Inl (n', h')) \<and> echo_ongoing fd input h0 h' \<and>
            echo_left K fd input h0 (n', h') < echo_left K fd input h0 (n, h))"
proof -
  obtain es where es: "h = h0 @ es" "list_all is_io es" "sent_stream fd es = recv_stream fd es" "prefix (recv_stream fd es) input"
    using assms(3) by (auto simp: echo_ongoing_def)
  have "0 < BUFFER_SIZE" by (simp add: BUFFER_SIZE_def)
  from assms(2) this es(4) show ?thesis
  proof (cases rule: delivers_cases)
    case (1 bs)
    define buf where "buf = take BUFFER_SIZE bs"
    let ?e = "TcpRecv fd BUFFER_SIZE (RecvOk bs)"
    have e: "ev_recvd fd ?e = buf" by (simp add: buf_def)
    show ?thesis
    proof (cases "buf = []")
      case True
      with 1 es have "echo_done fd input h0 (h @ [?e])"
        unfolding echo_done_def by (intro exI [of _ "es @ [?e]"]) (simp_all flip: buf_def)
      with 1 True es(1) show ?thesis by (simp add: echo_body_def Let_def flip: buf_def)
    next
      case False
      obtain h' where send: "send_all net fd buf (int (length buf)) (h @ [?e]) = Some (True, int (length buf), h')"
        and "sent_so_far fd buf (h @ [?e]) (int (length buf)) h'"
        using send_all_total [OF assms(1)] by blast
      then obtain es' where es': "h' = h @ ?e # es'" "list_all is_io es'" "sent_stream fd es' = buf" "recv_stream fd es' = []"
        by (auto simp: sent_so_far_def)
      have "echo_ongoing fd input h0 h'"
        unfolding echo_ongoing_def using es es' 1(2) by (intro exI [of _ "es @ ?e # es'"]) (simp add: e flip: buf_def del: ev_recvd.simps(1))
      moreover have "echo_left K fd input h0 (n + of_nat (length buf), h') < echo_left K fd input h0 (n, h)"
      proof -
        have "length (recv_stream fd es) + length buf \<le> length input"
          using prefix_length_le [OF 1(2)] by (simp flip: buf_def)
        moreover obtain k where "length buf = Suc k" using False by (cases buf) auto
        ultimately show ?thesis using es es' by (simp add: echo_left_def e del: ev_recvd.simps(1))
      qed
      moreover have "echo_body net fd (n, h) = Some (Inl (n + of_nat (length buf), h'))"
        using 1 False send es(1) by (simp add: echo_body_def Let_def flip: buf_def)
      ultimately show ?thesis by blast
    qed
  next
    case 2
    let ?e = "TcpRecv fd BUFFER_SIZE RecvEintr"
    have "echo_ongoing fd input h0 (h @ [?e])"
      unfolding echo_ongoing_def using es by (intro exI [of _ "es @ [?e]"]) simp
    with 2 es(1) show ?thesis by (simp add: echo_body_def Let_def echo_left_def)
  qed
qed

interpretation echo_total: total_loop "echo_body net fd"
    "\<lambda>(n, h). accepts K net fd \<and> delivers K net fd h0 input \<and> echo_ongoing fd input h0 h"
    "\<lambda>(c, n, h). c \<and> echo_done fd input h0 h"
    "echo_left K fd input h0"
  for net fd K h0 input
proof
  fix s s' :: "u64 \<times> hist"
  assume "case s of (n, h) \<Rightarrow> accepts K net fd \<and> delivers K net fd h0 input \<and> echo_ongoing fd input h0 h"
    and "echo_body net fd s = Some (Inl s')"
  then show "case s' of (n, h) \<Rightarrow> accepts K net fd \<and> delivers K net fd h0 input \<and> echo_ongoing fd input h0 h"
    and "echo_left K fd input h0 s' < echo_left K fd input h0 s"
    using echo_body_healthy [of K net fd h0 input "snd s" "fst s"] by (cases s; auto)+
next
  fix s :: "u64 \<times> hist" and r assume "case s of (n, h) \<Rightarrow> accepts K net fd \<and> delivers K net fd h0 input \<and> echo_ongoing fd input h0 h"
    and "echo_body net fd s = Some (Inr r)"
  then show "case r of (c, n, h) \<Rightarrow> c \<and> echo_done fd input h0 h"
    using echo_body_healthy [of K net fd h0 input "snd s" "fst s"] by (cases s) auto
next
  fix s :: "u64 \<times> hist" assume "case s of (n, h) \<Rightarrow> accepts K net fd \<and> delivers K net fd h0 input \<and> echo_ongoing fd input h0 h"
  then show "echo_body net fd s \<noteq> None"
    using echo_body_healthy [of K net fd h0 input "snd s" "fst s"] by (cases s) auto
qed

lemma echo_complete:
  assumes "accepts K net fd" and "delivers K net fd h input"
  shows "\<exists>es. echo_server_handle_client os net fd h = Some (h @ es) \<and>
           recv_stream fd es = input \<and> sent_stream fd es = input \<and> last es = Close fd"
proof -
  let ?o = "SetSockOpt fd ''TCP_NODELAY'' opt_one (os_setsockopt os h fd ''TCP_NODELAY'' opt_one)"
  have "delivers K net fd (h @ [?o]) input" by (rule delivers_skip [OF assms(2)]) simp
  moreover have "echo_ongoing fd input (h @ [?o]) (h @ [?o])" by (simp add: echo_ongoing_def)
  ultimately obtain n h2 where run: "iterate (echo_body net fd) (0, h @ [?o]) = Some (True, n, h2)"
      and "echo_done fd input (h @ [?o]) h2"
    using echo_total.iterate_total [of K net fd "h @ [?o]" input "(0, h @ [?o])"] assms(1) by auto
  then obtain es where es: "h2 = h @ ?o # es" "sent_stream fd es = input" "recv_stream fd es = input"
    by (auto simp: echo_done_def)
  then show ?thesis using run
    by (intro exI [of _ "?o # es @ [TcpShutdown fd SHUT_RDWR, Close fd]"]) (simp add: echo_server_handle_client_def Let_def)
qed

text \<open>
  Property C25 (echo_server_answers_everything). On a connection that delivers the client's stream and then its end, whatever
  the sizes of the pieces and with any bounded number of interrupted calls, the conversation ends and the
  server has received the whole stream and sent exactly this stream back.
\<close>

theorem echo_server_answers_everything:
  assumes "accepts K net fd" and "delivers K net fd h input"
  shows "\<exists>es. echo_server_handle_client os net fd h = Some (h @ es) \<and>
           recv_stream fd es = input \<and> sent_stream fd es = input \<and> last es = Close fd"
  using assms by (rule echo_complete)

theorem echo_server_answers_everything_witness:
  "\<exists>es. echo_server_handle_client (const_os IoErr) (demo_net [1, 2, 3]) 7 [] = Some es \<and> sent_stream 7 es = [1, 2, 3]"
  using echo_server_answers_everything [of 0 "demo_net [1, 2, 3]" 7 "[]" "[1, 2, 3]" "const_os IoErr"]
  by (auto simp: demo_net_delivers)

section \<open>Life of the server\<close>

lemma echo_server_start_resources:
  assumes "echo_server_start os net port h = (fd, h')" and "-1 \<le> os_socket os h"
  shows "fd < 0 \<and> settled h h' \<or>
         0 \<le> fd \<and> fd = os_socket os h \<and> (\<forall>x. fd_balance h' x = fd_balance h x + (if x = fd then 1 else 0)) \<and>
         mem_balance h' = mem_balance h \<and> file_balance h' = file_balance h"
  using assms by (auto simp: echo_server_start_def Let_def settled_simps split: if_splits)

lemma accept_body_settled:
  assumes "accept_body os net sfd h = Some x"
  shows "settled h (case x of Inl h' \<Rightarrow> h' | Inr h' \<Rightarrow> h')"
proof (cases "net_signal net h")
  case False
  show ?thesis
  proof (cases "net_accept net h sfd")
    case (AcceptOk fd)
    then obtain h' where h': "echo_server_handle_client os net (int fd) (h @ [TcpAccept sfd (AcceptOk fd)]) = Some h'" "x = Inl h'"
      using assms False by (auto simp: accept_body_def)
    then show ?thesis using handle_client_closes [OF h'(1)] by (simp add: settled_simps)
  qed (use assms False in \<open>auto simp: accept_body_def settled_simps\<close>)
qed (use assms in \<open>auto simp: accept_body_def\<close>)

interpretation serve: loop_contract "accept_body os net sfd" "settled h0" "settled h0"
  for os net sfd h0
  by unfold_locales (use settled_trans accept_body_settled in force)+

lemma echo_server_settled:
  assumes "run_echo_server os net port h = Some (r, h')" and "-1 \<le> os_socket os h"
  shows "settled h h' \<and> r = (if fst (echo_server_start os net port h) < 0 then -1 else 0)"
proof -
  obtain fd h1 where start: "echo_server_start os net port h = (fd, h1)" by force
  show ?thesis
  proof (cases "fd < 0")
    case True
    with assms(1) start echo_server_start_resources [OF start assms(2)] show ?thesis
      by (auto simp: run_echo_server_def)
  next
    case False
    obtain h2 where h2: "iterate (accept_body os net fd) h1 = Some h2" "r = 0" "h' = h2 @ [Close fd]"
      using assms(1) start False by (auto simp: run_echo_server_def split: option.splits)
    have "settled h1 h2" using serve.iterate_post [OF h2(1), of h1] by simp
    with h2 start False echo_server_start_resources [OF start assms(2)] show ?thesis
      by (auto simp: settled_simps)
  qed
qed

text \<open>
  Remark (echo_server_releases_descriptors). A run of the echo server that ends, for whatever reason, has closed
  the listening socket and the descriptor of every client it accepted, and holds no memory; its result is
  0 once it was listening and -1 otherwise.
\<close>

theorem echo_server_releases_descriptors:
  assumes "run_echo_server os net port h = Some (r, h')" and "-1 \<le> os_socket os h"
  shows "settled h h' \<and> r = (if fst (echo_server_start os net port h) < 0 then -1 else 0)"
  using assms by (rule echo_server_settled)

theorem echo_server_releases_descriptors_witness:
  "\<exists>h'. run_echo_server (const_os IoErr) (demo_net [1, 2, 3]) 9090 [] = Some (0, h') \<and> fd_balance h' 5 = 0 \<and> fd_balance h' 7 = 0"
proof -
  obtain h' where run: "run_echo_server (const_os IoErr) (demo_net [1, 2, 3]) 9090 [] = Some (0, h')"
    by (simp add: run_echo_server_def echo_server_start_def accept_body_def echo_eval)
  then show ?thesis using echo_server_releases_descriptors [OF run] by (simp add: settled_simps)
qed

end
