(* ===== verification/Bench_Transfer.thy ===== *)
theory Bench_Transfer
  imports Bench_Client Bench_Echo
begin

text \<open>
  The benchmark client and the echo server on healthy connections: that the client's loops end, what a successful transfer
  looks like, and the two programs put together.
\<close>

section \<open>A healthy connection succeeds\<close>

definition polls_ready :: "nat \<Rightarrow> net \<Rightarrow> int \<Rightarrow> bool" where
  "polls_ready K net fd \<longleftrightarrow> (\<forall>h. net_poll net h fd = PollReady \<or> net_poll net h fd = PollEintr \<and> interrupts h < K)"

lemma length_test_pattern [simp]: "length (test_pattern n) = n"
  by (simp add: test_pattern_def)

text \<open>What was received since \<open>h0\<close>.\<close>

definition got :: "int \<Rightarrow> hist \<Rightarrow> hist \<Rightarrow> byte list" where
  "got fd h0 h = recv_stream fd (drop (length h0) h)"

lemma got_snoc: "extends h0 h \<Longrightarrow> got fd h0 (h @ [e]) = got fd h0 h @ ev_recvd fd e"
  by (auto simp: got_def extends_def)

lemma delivers_got:
  assumes "delivers K net fd h0 input" and "0 < n" and "extends h0 h" and "prefix (got fd h0 h) input"
  obtains bs where "net_recv net h fd n = RecvOk bs" "prefix (got fd h0 h @ take n bs) input"
      "take n bs = [] \<longleftrightarrow> got fd h0 h = input"
  | "net_recv net h fd n = RecvEintr" "interrupts h < K"
proof -
  obtain es where "h = h0 @ es" using assms(3) by (auto simp: extends_def)
  then show thesis using delivers_cases [OF assms(1,2), of es] assms(4) that by (auto simp: got_def)
qed

text \<open>The receive loop in the middle of the echo \<open>input\<close>, or at its end.\<close>

definition echo_part :: "int \<Rightarrow> byte list \<Rightarrow> conn_stats \<Rightarrow> hist \<Rightarrow> conn_stats \<Rightarrow> hist \<Rightarrow> bool" where
  "echo_part fd input s0 h0 s h \<longleftrightarrow>
     extends h0 h \<and> prefix (got fd h0 h) input \<and> s = s0\<lparr>st_bytes_received := of_nat (length (got fd h0 h))\<rparr>"

definition receive_left :: "nat \<Rightarrow> int \<Rightarrow> byte list \<Rightarrow> hist \<Rightarrow> conn_stats \<times> hist \<Rightarrow> nat" where
  "receive_left K fd input h0 = (\<lambda>(s, h). length input - length (got fd h0 h) + (K - interrupts h))"

definition healthy_receive :: "nat \<Rightarrow> net \<Rightarrow> int \<Rightarrow> byte list \<Rightarrow> conn_stats \<Rightarrow> hist \<Rightarrow> bool" where
  "healthy_receive K net fd input s0 h0 \<longleftrightarrow>
     polls_ready K net fd \<and> delivers K net fd h0 input \<and> length input < 18446744073709551616 \<and>
     st_bytes_sent s0 = of_nat (length input)"

lemma extends_snoc: "extends h0 h \<Longrightarrow> extends h0 (h @ [e])"
  by (auto simp: extends_def)

lemma echo_part_snoc:
  assumes "echo_part fd input s0 h0 s h" and "ev_recvd fd e = []"
  shows "echo_part fd input s0 h0 s (h @ [e])" "got fd h0 (h @ [e]) = got fd h0 h"
  using assms by (auto simp: echo_part_def got_snoc extends_snoc)

lemma echo_part_data:
  assumes "echo_part fd input s0 h0 s h" and "ev_recvd fd e = buf" and "prefix (got fd h0 h @ buf) input" and "buf \<noteq> []"
  shows "echo_part fd input s0 h0 (s\<lparr>st_bytes_received := st_bytes_received s + of_nat (length buf)\<rparr>) (h @ [e])"
    "length input - length (got fd h0 (h @ [e])) < length input - length (got fd h0 h)"
proof -
  show "echo_part fd input s0 h0 (s\<lparr>st_bytes_received := st_bytes_received s + of_nat (length buf)\<rparr>) (h @ [e])"
    using assms by (auto simp: echo_part_def got_snoc extends_snoc)
  obtain k where "length buf = Suc k" using assms(4) by (cases buf) auto
  then show "length input - length (got fd h0 (h @ [e])) < length input - length (got fd h0 h)"
    using assms prefix_length_le [OF assms(3)] by (auto simp: echo_part_def got_snoc)
qed

lemma echo_part_complete:
  assumes "echo_part fd input s0 h0 s h" and "healthy_receive K net fd input s0 h0"
  shows "st_bytes_sent s \<le> st_bytes_received s \<longleftrightarrow> got fd h0 h = input"
proof -
  have "length (got fd h0 h) \<le> length input" using assms(1) by (simp add: echo_part_def prefix_length_le)
  moreover from this have "st_bytes_sent s \<le> st_bytes_received s \<longleftrightarrow> length input \<le> length (got fd h0 h)"
    using assms by (simp add: echo_part_def healthy_receive_def of_nat_u64_le_iff)
  ultimately show ?thesis using assms(1) by (auto simp: echo_part_def prefix_def)
qed

lemma receive_body_healthy:
  assumes "healthy_receive K net fd input s0 h0" and "echo_part fd input s0 h0 s h" and "got fd h0 h \<noteq> input"
  shows "\<exists>s' h'. echo_part fd input s0 h0 s' h' \<and>
           (receive_body net fd (s, h) = Some (Inr (0, s', h')) \<and> got fd h0 h' = input \<or>
            receive_body net fd (s, h) = Some (Inl (s', h')) \<and> got fd h0 h' \<noteq> input \<and>
              receive_left K fd input h0 (s', h') < receive_left K fd input h0 (s, h))"
proof (cases "net_poll net h fd = PollReady")
  case False
  then have "net_poll net h fd = PollEintr" "interrupts h < K"
    using assms(1) by (auto simp: healthy_receive_def polls_ready_def)
  then show ?thesis using assms(3) echo_part_snoc [OF assms(2), of "TcpPoll fd PollEintr"]
    by (intro exI [of _ s] exI [of _ "h @ [TcpPoll fd PollEintr]"]) (simp add: receive_body_def receive_left_def)
next
  case True
  let ?h1 = "h @ [TcpPoll fd PollReady]"
  note 1 = echo_part_snoc [OF assms(2), of "TcpPoll fd PollReady", simplified]
  have "delivers K net fd h0 input" "0 < BUFFER_SIZE" "extends h0 ?h1" "prefix (got fd h0 ?h1) input"
    using assms(1) 1(1) by (simp_all add: healthy_receive_def BUFFER_SIZE_def echo_part_def)
  then show ?thesis
  proof (cases rule: delivers_got)
    case (1 bs)
    define buf where "buf = take BUFFER_SIZE bs"
    let ?e = "TcpRecv fd BUFFER_SIZE (RecvOk bs)"
    let ?s = "s\<lparr>st_bytes_received := st_bytes_received s + of_nat (length buf)\<rparr>" and ?h = "?h1 @ [?e]"
    have ne: "buf \<noteq> []" using 1(3) assms(3) \<open>got fd h0 ?h1 = got fd h0 h\<close> by (simp flip: buf_def)
    have e: "ev_recvd fd ?e = buf" by (simp add: buf_def)
    have d: "echo_part fd input s0 h0 ?s ?h" "length input - length (got fd h0 ?h) < length input - length (got fd h0 ?h1)"
      using echo_part_data [OF \<open>echo_part fd input s0 h0 s ?h1\<close> e _ ne] 1(2) by (simp_all flip: buf_def)
    have b: "receive_body net fd (s, h) =
        (if st_bytes_sent ?s \<le> st_bytes_received ?s then Some (Inr (0, ?s, ?h)) else Some (Inl (?s, ?h)))"
      using True 1(1) ne by (simp add: receive_body_def Let_def flip: buf_def)
    then show ?thesis using d echo_part_complete [OF d(1) assms(1)] \<open>got fd h0 ?h1 = got fd h0 h\<close>
      by (intro exI [of _ ?s] exI [of _ ?h]) (auto simp: receive_left_def)
  next
    case 2
    let ?e = "TcpRecv fd BUFFER_SIZE RecvEintr"
    show ?thesis using 2 True assms(3) echo_part_snoc [OF \<open>echo_part fd input s0 h0 s ?h1\<close>, of ?e] \<open>got fd h0 ?h1 = got fd h0 h\<close>
      by (intro exI [of _ s] exI [of _ "?h1 @ [?e]"]) (simp add: receive_body_def receive_left_def)
  qed
qed

interpretation receive_total: total_loop "receive_body net fd"
    "\<lambda>(s, h). healthy_receive K net fd input s0 h0 \<and> echo_part fd input s0 h0 s h \<and> got fd h0 h \<noteq> input"
    "\<lambda>(r, s, h). r = 0 \<and> echo_part fd input s0 h0 s h \<and> got fd h0 h = input"
    "receive_left K fd input h0"
  for net fd K input s0 h0
  by unfold_locales (auto dest!: receive_body_healthy)

text \<open>The stages of a connection whose calls all succeed.\<close>

definition connects :: "os \<Rightarrow> net \<Rightarrow> bench_config \<Rightarrow> hist \<Rightarrow> int \<Rightarrow> bool" where
  "connects os net config h fd \<longleftrightarrow>
     inet_pton4 (c_str (bc_target_ip config)) \<noteq> None \<and>
     fd = os_socket os (h @ [Clock CLOCK_MONOTONIC (os_clock os h CLOCK_MONOTONIC)]) \<and> 0 \<le> fd \<and>
     (\<forall>h a p. 0 \<le> net_connect net h fd a p) \<and> (\<forall>h n. os_malloc os h n \<noteq> NULL)"

definition no_traffic :: "int \<Rightarrow> hist \<Rightarrow> bool" where
  "no_traffic fd es \<longleftrightarrow> sent_stream fd es = [] \<and> recv_stream fd es = []"

lemma connect_up:
  assumes "connects os net config h fd"
  shows "\<exists>s es. tcp_client_connect os net (c_str (bc_target_ip config)) (bc_target_port config) stats h = (fd, s, h @ es) \<and>
           no_traffic fd es \<and> st_bytes_received s = st_bytes_received stats"
  using assms by (auto simp: connects_def tcp_client_connect_def now_def Let_def no_traffic_def not_less)

lemma send_data_up:
  assumes "connects os net config h0 fd" and "accepts K net fd" and "unat n < 9223372036854775808"
  shows "\<exists>s es. tcp_client_send_data os net fd n stats h = Some (0, s, h @ es) \<and> sent_stream fd es = test_pattern (unat n) \<and>
           recv_stream fd es = [] \<and> st_bytes_sent s = n \<and> st_bytes_received s = st_bytes_received stats"
proof -
  let ?h1 = "h @ [Clock CLOCK_MONOTONIC (os_clock os h CLOCK_MONOTONIC)]"
  let ?p = "os_malloc os ?h1 (unat n)"
  let ?h2 = "?h1 @ [Malloc (unat n) ?p]"
  have p: "?p \<noteq> NULL" using assms(1) by (simp add: connects_def)
  obtain h3 where "send_all net fd (test_pattern (unat n)) (sint n) ?h2 = Some (True, int (unat n), h3)"
    and "sent_so_far fd (test_pattern (unat n)) ?h2 (int (unat n)) h3"
    using send_all_total [OF assms(2), of "test_pattern (unat n)" ?h2] sint_u64_small [OF assms(3)] by auto
  moreover from this obtain es where "h3 = ?h2 @ es" "sent_stream fd es = test_pattern (unat n)" "recv_stream fd es = []"
    by (auto simp: sent_so_far_def)
  ultimately show ?thesis using p by (auto simp: tcp_client_send_data_def now_def Let_def)
qed

lemma receive_data_up:
  assumes "healthy_receive K net fd input stats h" and "st_bytes_received stats = 0" and "input \<noteq> []"
  shows "\<exists>s es. tcp_client_receive_data net fd stats h = Some (0, s, h @ es) \<and> sent_stream fd es = [] \<and>
           recv_stream fd es = input \<and> st_bytes_received s = of_nat (length input) \<and> st_bytes_sent s = st_bytes_sent stats"
proof -
  let ?s0 = "stats\<lparr>st_state := CONN_STATE_RECEIVING\<rparr>"
  have "got fd h h = []" by (simp add: got_def)
  then have "healthy_receive K net fd input ?s0 h" "echo_part fd input ?s0 h ?s0 h" "got fd h h \<noteq> input"
    using assms by (simp_all add: healthy_receive_def echo_part_def)
  then obtain s h' where run: "tcp_client_receive_data net fd stats h = Some (0, s, h')"
    and e: "echo_part fd input ?s0 h s h'" "got fd h h' = input"
    using receive_total.iterate_total [of K net fd input ?s0 h "(?s0, h)"] by (auto simp: tcp_client_receive_data_def)
  from receive_data_result [OF run] obtain es where "h' = h @ es" "sent_stream fd es = []"
    by (auto simp: received_def receiving_def)
  then show ?thesis using run e by (auto simp: echo_part_def got_def)
qed

lemma close_up:
  assumes "delivers K net fd h0 input" and "extends h0 h" and "got fd h0 h = input"
  shows "\<exists>s es. tcp_client_close os net fd stats h = Some (0, s, h @ es) \<and> no_traffic fd es \<and> st_state s = CONN_STATE_CLOSED \<and>
           st_bytes_sent s = st_bytes_sent stats \<and> st_bytes_received s = st_bytes_received stats"
proof -
  define h1 where "h1 = h @ [Clock CLOCK_MONOTONIC (os_clock os h CLOCK_MONOTONIC)]"
  define es2 where "es2 = [SetSockOpt fd ''SO_RCVTIMEO'' rcvtimeo (os_setsockopt os h1 fd ''SO_RCVTIMEO'' rcvtimeo),
      TcpShutdown fd SHUT_WR]"
  have x: "extends h0 (h1 @ es2)" using assms(2) by (auto simp: extends_def h1_def)
  have g: "got fd h0 (h1 @ es2) = input" using assms(2,3) by (auto simp: got_def extends_def h1_def es2_def)
  have "\<exists>e. iterate (drain_body net fd) (h1 @ es2) = Some ((h1 @ es2) @ [e]) \<and> ev_recvd fd e = [] \<and> ev_sent fd e = []"
  proof (rule delivers_got [OF assms(1) _ x, of 1024])
    fix bs assume "net_recv net (h1 @ es2) fd 1024 = RecvOk bs" "(take 1024 bs = []) = (got fd h0 (h1 @ es2) = input)"
    then show ?thesis using g by (intro exI [of _ "TcpRecv fd 1024 (RecvOk bs)"]) (simp add: drain_body_def iterate_Inr)
  next
    assume "net_recv net (h1 @ es2) fd 1024 = RecvEintr"
    then show ?thesis by (intro exI [of _ "TcpRecv fd 1024 RecvEintr"]) (simp add: drain_body_def iterate_Inr)
  qed (use g in simp_all)
  then obtain e where e: "iterate (drain_body net fd) (h1 @ es2) = Some ((h1 @ es2) @ [e])" "ev_recvd fd e = []" "ev_sent fd e = []"
    by blast
  let ?h4 = "((h1 @ es2) @ [e]) @ [Close fd]"
  let ?t = "os_clock os ?h4 CLOCK_MONOTONIC"
  have "tcp_client_close os net fd stats h =
      Some (0, close_metrics ?t (stats\<lparr>st_state := CONN_STATE_CLOSING\<rparr>), ?h4 @ [Clock CLOCK_MONOTONIC ?t])"
    using e(1) by (simp add: tcp_client_close_def now_def Let_def h1_def es2_def)
  then show ?thesis using e(2,3)
    by (auto simp: h1_def es2_def no_traffic_def close_metrics_def Let_def)
qed

lemma echo_success:
  assumes "connects os net config h fd" and "accepts K net fd" and "polls_ready K net fd"
    and "delivers K net fd h (test_pattern (unat (bc_data_size config)))"
    and "0 < bc_data_size config" and "unat (bc_data_size config) < 9223372036854775808" and "st_bytes_received stats = 0"
  shows "\<exists>s es. run_single_connection os net config stats h = Some (0, s, h @ es) \<and>
           sent_stream fd es = test_pattern (unat (bc_data_size config)) \<and>
           recv_stream fd es = test_pattern (unat (bc_data_size config)) \<and>
           st_bytes_sent s = bc_data_size config \<and> st_bytes_received s = bc_data_size config \<and>
           st_state s = CONN_STATE_CLOSED"
proof -
  let ?n = "bc_data_size config"
  let ?in = "test_pattern (unat ?n)"
  obtain s1 es1 where c: "tcp_client_connect os net (c_str (bc_target_ip config)) (bc_target_port config) stats h = (fd, s1, h @ es1)"
      "no_traffic fd es1" "st_bytes_received s1 = 0"
    using connect_up [OF assms(1), of stats] assms(7) by auto
  obtain s2 es2 where s: "tcp_client_send_data os net fd ?n s1 (h @ es1) = Some (0, s2, (h @ es1) @ es2)" "sent_stream fd es2 = ?in"
      "recv_stream fd es2 = []" "st_bytes_sent s2 = ?n" "st_bytes_received s2 = 0"
    using send_data_up [OF assms(1,2,6), of s1 "h @ es1"] c(3) by auto
  let ?h2 = "(h @ es1) @ es2"
  have d: "delivers K net fd ?h2 ?in"
    using delivers_skip [OF assms(4), of "es1 @ es2"] c(2) s(3) by (simp add: no_traffic_def)
  have hr: "healthy_receive K net fd ?in s2 ?h2" using assms(3,6) d s(4) by (simp add: healthy_receive_def)
  have "?in \<noteq> []" using assms(5) by (metis length_test_pattern list.size(3) unat_eq_zero word_not_simps(1))
  from receive_data_up [OF hr s(5) this] obtain s3 es3 where r: "tcp_client_receive_data net fd s2 ?h2 = Some (0, s3, ?h2 @ es3)"
      "sent_stream fd es3 = []" "recv_stream fd es3 = ?in" "st_bytes_received s3 = ?n" "st_bytes_sent s3 = ?n"
    using s(4) by auto
  from close_up [OF d extends_append, of es3 os s3] r obtain s4 es4 where
    "tcp_client_close os net fd s3 (?h2 @ es3) = Some (0, s4, (?h2 @ es3) @ es4)" "no_traffic fd es4" "st_state s4 = CONN_STATE_CLOSED"
      "st_bytes_sent s4 = ?n" "st_bytes_received s4 = ?n"
    by (auto simp: got_def)
  then show ?thesis using c s r assms(1)
    by (intro exI [of _ s4] exI [of _ "es1 @ es2 @ es3 @ es4"]) (simp add: run_single_connection_def no_traffic_def connects_def)
qed

text \<open>
  Remark (client_succeeds_against_echo). Against a peer that echoes, the connection ends with result 0: whatever the sizes of the
  pieces and with any bounded number of interrupted calls, the client has sent exactly the test pattern of the configured
  size, received exactly the pattern, counted both sizes right and is in state closed.
\<close>

theorem client_succeeds_against_echo:
  assumes "connects os net config h fd" and "accepts K net fd" and "polls_ready K net fd"
    and "delivers K net fd h (test_pattern (unat (bc_data_size config)))"
    and "0 < bc_data_size config" and "unat (bc_data_size config) < 9223372036854775808" and "st_bytes_received stats = 0"
  shows "\<exists>s es. run_single_connection os net config stats h = Some (0, s, h @ es) \<and>
           sent_stream fd es = test_pattern (unat (bc_data_size config)) \<and>
           recv_stream fd es = test_pattern (unat (bc_data_size config)) \<and>
           st_bytes_sent s = bc_data_size config \<and> st_bytes_received s = bc_data_size config \<and>
           st_state s = CONN_STATE_CLOSED"
  using assms by (rule echo_success)

theorem client_succeeds_against_echo_witness:
  "\<exists>s es. run_single_connection (const_os IoErr) (demo_net (test_pattern 3)) demo_config zero_conn_stats [] = Some (0, s, es) \<and>
     sent_stream 5 es = test_pattern 3 \<and> st_bytes_received s = 3"
  using client_succeeds_against_echo [of "const_os IoErr" "demo_net (test_pattern 3)" demo_config "[]" 5 0 zero_conn_stats]
  by (auto simp: connects_def polls_ready_def demo_net_delivers zero_conn_stats_def)

section \<open>Client and server together\<close>

text \<open>
  Property C4 (benchmark_round_trip). The echo server, given the stream of the client, produces the stream that
  makes the client succeed. The client's data reaches the server and the server's output reaches the client, each in
  pieces of any size: then the server's conversation ends, and the client's connection ends closed with as many bytes received as
  sent, and what it received is the pattern it sent.
\<close>

theorem benchmark_round_trip:
  assumes "connects os net config h fd" and "accepts K net fd" and "polls_ready K net fd"
    and "0 < bc_data_size config" and "unat (bc_data_size config) < 9223372036854775808" and "st_bytes_received stats = 0"
    and "accepts K' snet sfd" and "delivers K' snet sfd hs (test_pattern (unat (bc_data_size config)))"
    and "\<And>es. echo_server_handle_client sos snet sfd hs = Some (hs @ es) \<Longrightarrow> delivers K net fd h (sent_stream sfd es)"
  shows "\<exists>es' s es. echo_server_handle_client sos snet sfd hs = Some (hs @ es') \<and>
           run_single_connection os net config stats h = Some (0, s, h @ es) \<and>
           recv_stream sfd es' = sent_stream fd es \<and> sent_stream sfd es' = recv_stream fd es \<and>
           recv_stream fd es = test_pattern (unat (bc_data_size config)) \<and>
           st_bytes_sent s = bc_data_size config \<and> st_bytes_received s = bc_data_size config \<and> st_state s = CONN_STATE_CLOSED"
proof -
  obtain es' where srv: "echo_server_handle_client sos snet sfd hs = Some (hs @ es')"
      "recv_stream sfd es' = test_pattern (unat (bc_data_size config))" "sent_stream sfd es' = test_pattern (unat (bc_data_size config))"
    using echo_complete [OF assms(7,8)] by blast
  then have "delivers K net fd h (test_pattern (unat (bc_data_size config)))" using assms(9) by metis
  from echo_success [OF assms(1-3) this assms(4-6)] srv show ?thesis by auto
qed

theorem benchmark_round_trip_witness:
  "\<exists>es' s es. echo_server_handle_client (const_os IoErr) (demo_net (test_pattern 3)) 7 [] = Some es' \<and>
     run_single_connection (const_os IoErr) (demo_net (test_pattern 3)) demo_config zero_conn_stats [] = Some (0, s, es) \<and>
     sent_stream 7 es' = recv_stream 5 es \<and> st_bytes_received s = 3"
proof -
  let ?n = "demo_net (test_pattern 3)"
  have d: "delivers 0 ?n 5 [] (sent_stream 7 es)"
    if "echo_server_handle_client (const_os IoErr) ?n 7 [] = Some ([] @ es)" for es
  proof -
    have "sent_stream 7 es = test_pattern 3" using that echo_complete [of 0 ?n 7 "[]" "test_pattern 3" "const_os IoErr"]
      by (auto simp: demo_net_delivers)
    then show ?thesis by (simp add: demo_net_delivers)
  qed
  show ?thesis
    using benchmark_round_trip [of "const_os IoErr" ?n demo_config "[]" 5 0 zero_conn_stats 0 ?n 7 "[]" "const_os IoErr"] d
    by (auto simp: connects_def polls_ready_def demo_net_delivers zero_conn_stats_def)
qed

end
