(* ===== verification/Bench_Export.thy ===== *)
theory Bench_Export
  imports Bench_Common
begin

text \<open>
  The result files of the benchmark tool, \<^verbatim>\<open>export_metrics_json\<close> and \<^verbatim>\<open>export_metrics_csv\<close> in \<^verbatim>\<open>bench/src/bench_common.c\<close>,
  character by character.
\<close>

section \<open>JSON\<close>

definition mode_name :: "bench_mode \<Rightarrow> string" where
  "mode_name m = (case m of MODE_CLIENT \<Rightarrow> ''client'' | MODE_SERVER \<Rightarrow> ''server'')"

definition show_u16 :: "u16 \<Rightarrow> string" where
  "show_u16 v = show_nat (unat v)"

definition open_member :: "string \<Rightarrow> string \<Rightarrow> string" where
  "open_member name bracket = replicate 2 (CHR '' '') @ quoted name @ '': '' @ bracket @ nl"

definition json_configuration :: "bench_config \<Rightarrow> string" where
  "json_configuration config =
     open_member ''test_configuration'' ''{'' @
     member 4 ''mode'' (quoted (mode_name (bc_mode config))) '','' @
     member 4 ''target_ip'' (quoted (c_str (bc_target_ip config))) '','' @
     member 4 ''target_port'' (show_u16 (bc_target_port config)) '','' @
     member 4 ''listen_port'' (show_u16 (bc_listen_port config)) '','' @
     member 4 ''data_size'' (show_u64 (bc_data_size config)) '','' @
     member 4 ''concurrency'' (show_int (bc_concurrency config)) '','' @
     member 4 ''total_connections'' (show_int (bc_total_connections config)) [] @
     '' '' @ '' },'' @ nl"

definition json_summary_metrics :: "global_metrics \<Rightarrow> string" where
  "json_summary_metrics m =
     open_member ''summary_metrics'' ''{'' @
     member 4 ''total_connections'' (show_int (gm_total_connections m)) '','' @
     member 4 ''successful_connections'' (show_int (gm_successful_connections m)) '','' @
     member 4 ''failed_connections'' (show_int (gm_failed_connections m)) '','' @
     member 4 ''timeout_connections'' (show_int (gm_timeout_connections m)) '','' @
     member 4 ''total_bytes_sent'' (show_u64 (gm_total_bytes_sent m)) '','' @
     member 4 ''total_bytes_received'' (show_u64 (gm_total_bytes_received m)) '','' @
     member 4 ''avg_connection_latency_ms'' (show_fixed 3 (gm_avg_connection_latency_ms m)) '','' @
     member 4 ''min_connection_latency_ms'' (show_fixed 3 (gm_min_connection_latency_ms m)) '','' @
     member 4 ''max_connection_latency_ms'' (show_fixed 3 (gm_max_connection_latency_ms m)) '','' @
     member 4 ''avg_throughput_mbps'' (show_fixed 3 (gm_avg_throughput_mbps m)) '','' @
     member 4 ''total_test_duration_sec'' (show_fixed 3 (gm_total_test_duration_sec m)) '','' @
     member 4 ''cpu_usage_percent'' (show_fixed 2 (gm_cpu_usage_percent m)) '','' @
     member 4 ''memory_usage_mb'' (show_fixed 2 (gm_memory_usage_mb m)) [] @
     '' '' @ '' },'' @ nl"

definition json_connection :: "conn_stats \<Rightarrow> string" where
  "json_connection c =
     replicate 4 (CHR '' '') @ ''{'' @ nl @
     member 6 ''conn_id'' (show_int (st_conn_id c)) '','' @
     member 6 ''state'' (show_nat (conn_state_num (st_state c))) '','' @
     member 6 ''bytes_sent'' (show_u64 (st_bytes_sent c)) '','' @
     member 6 ''bytes_received'' (show_u64 (st_bytes_received c)) '','' @
     member 6 ''connection_latency_ms'' (show_fixed 3 (st_connection_latency_ms c)) '','' @
     member 6 ''data_transfer_time_ms'' (show_fixed 3 (st_data_transfer_time_ms c)) '','' @
     member 6 ''throughput_mbps'' (show_fixed 3 (st_throughput_mbps c)) [] @
     replicate 4 (CHR '' '') @ ''}''"

text \<open>
  The loops over the array read the element \<open>i\<close> for every number \<open>i\<close> below the count the caller passes; an element outside the
  array is a fault.
\<close>

fun each_row :: "conn_stats list \<Rightarrow> (nat \<Rightarrow> conn_stats \<Rightarrow> string) \<Rightarrow> nat list \<Rightarrow> string outcome" where
  "each_row arr f [] = Ret []"
| "each_row arr f (i # js) =
     (if length arr \<le> i then Fault else and_then (each_row arr f js) (\<lambda>s. Ret (f i (arr ! i) @ s)))"

definition json_details :: "conn_stats list \<Rightarrow> int \<Rightarrow> string outcome" where
  "json_details arr n =
     each_row arr (\<lambda>i c. json_connection c @ (if int i < n - 1 then '','' else []) @ nl) [0..<nat n]"

definition bench_json_text :: "bench_config \<Rightarrow> global_metrics \<Rightarrow> conn_stats list \<Rightarrow> int \<Rightarrow> string outcome" where
  "bench_json_text config m arr n =
     and_then (json_details arr n) (\<lambda>rows.
       Ret (''{'' @ nl @ json_configuration config @ json_summary_metrics m @
            open_member ''connection_details'' ''['' @ rows @ '' '' @ '' ]'' @ nl @ ''}'' @ nl))"

definition export_metrics_json ::
  "os \<Rightarrow> string \<Rightarrow> bench_config \<Rightarrow> global_metrics \<Rightarrow> conn_stats list \<Rightarrow> int \<Rightarrow> hist \<Rightarrow> (int \<times> hist) outcome"
where
  "export_metrics_json os filename config m arr n h =
     (if \<not> os_fcreate os h filename then Ret (-1, h @ [FOpen filename False])
      else and_then (bench_json_text config m arr n) (\<lambda>txt. Ret (0, h @ [FOpen filename True, FWrite txt, FClose])))"

section \<open>CSV\<close>

definition csv_line :: "string \<Rightarrow> string \<Rightarrow> string" where
  "csv_line name val = name @ '','' @ val @ nl"

definition csv_preamble :: "bench_config \<Rightarrow> string" where
  "csv_preamble config =
     ''# TLShub Benchmark Summary'' @ nl @
     csv_line ''# Mode'' (mode_name (bc_mode config)) @
     csv_line ''# Target'' (c_str (bc_target_ip config) @ '':'' @ show_u16 (bc_target_port config)) @
     csv_line ''# Data Size'' (show_u64 (bc_data_size config)) @
     csv_line ''# Concurrency'' (show_int (bc_concurrency config)) @
     csv_line ''# Total Connections'' (show_int (bc_total_connections config)) @ nl"

definition csv_summary :: "global_metrics \<Rightarrow> string" where
  "csv_summary m =
     csv_line ''Metric'' ''Value'' @
     csv_line ''Total Connections'' (show_int (gm_total_connections m)) @
     csv_line ''Successful Connections'' (show_int (gm_successful_connections m)) @
     csv_line ''Failed Connections'' (show_int (gm_failed_connections m)) @
     csv_line ''Timeout Connections'' (show_int (gm_timeout_connections m)) @
     csv_line ''Total Bytes Sent'' (show_u64 (gm_total_bytes_sent m)) @
     csv_line ''Total Bytes Received'' (show_u64 (gm_total_bytes_received m)) @
     csv_line ''Avg Connection Latency (ms)'' (show_fixed 3 (gm_avg_connection_latency_ms m)) @
     csv_line ''Min Connection Latency (ms)'' (show_fixed 3 (gm_min_connection_latency_ms m)) @
     csv_line ''Max Connection Latency (ms)'' (show_fixed 3 (gm_max_connection_latency_ms m)) @
     csv_line ''Avg Throughput (Mbps)'' (show_fixed 3 (gm_avg_throughput_mbps m)) @
     csv_line ''Total Test Duration (sec)'' (show_fixed 3 (gm_total_test_duration_sec m)) @
     csv_line ''CPU Usage (%)'' (show_fixed 2 (gm_cpu_usage_percent m)) @
     csv_line ''Memory Usage (MB)'' (show_fixed 2 (gm_memory_usage_mb m)) @ nl"

definition csv_fields :: "conn_stats \<Rightarrow> string list" where
  "csv_fields c =
     [show_int (st_conn_id c), show_nat (conn_state_num (st_state c)), show_u64 (st_bytes_sent c),
      show_u64 (st_bytes_received c), show_fixed 3 (st_connection_latency_ms c), show_fixed 3 (st_data_transfer_time_ms c),
      show_fixed 3 (st_throughput_mbps c)]"

definition csv_connection :: "conn_stats \<Rightarrow> string" where
  "csv_connection c = join '','' (csv_fields c)"

definition csv_details_header :: string where
  "csv_details_header = ''Connection ID,State,Bytes Sent,Bytes Received,'' @
     ''Connection Latency (ms),Data Transfer Time (ms),Throughput (Mbps)''"

definition bench_csv_text :: "bench_config \<Rightarrow> global_metrics \<Rightarrow> conn_stats list \<Rightarrow> int \<Rightarrow> string outcome" where
  "bench_csv_text config m arr n =
     and_then (each_row arr (\<lambda>i c. csv_connection c @ nl) [0..<nat n]) (\<lambda>rows.
       Ret (csv_preamble config @ csv_summary m @ ''# Connection Details'' @ nl @ csv_details_header @ nl @ rows))"

definition export_metrics_csv ::
  "os \<Rightarrow> string \<Rightarrow> bench_config \<Rightarrow> global_metrics \<Rightarrow> conn_stats list \<Rightarrow> int \<Rightarrow> hist \<Rightarrow> (int \<times> hist) outcome"
where
  "export_metrics_csv os filename config m arr n h =
     (if \<not> os_fcreate os h filename then Ret (-1, h @ [FOpen filename False])
      else and_then (bench_csv_text config m arr n) (\<lambda>txt. Ret (0, h @ [FOpen filename True, FWrite txt, FClose])))"

lemma each_row_in_range:
  "\<forall>i \<in> set js. i < length arr \<Longrightarrow> each_row arr f js = Ret (concat (map (\<lambda>i. f i (arr ! i)) js))"
  by (induction js) auto

lemma each_row_all:
  assumes "int (length arr) = n"
  shows "each_row arr f [0..<nat n] = Ret (concat (map (\<lambda>i. f i (arr ! i)) [0..<length arr]))"
  using each_row_in_range [of "[0..<length arr]" arr f] assms by auto

section \<open>Reading the files back\<close>

lemma show_nat_no_comma: "CHR '','' \<notin> set (show_nat n)"
  using show_nat_digits [of n] by (auto simp: is_digit_def)

lemma show_fixed_no_comma: "CHR '','' \<notin> set (show_fixed k x)"
  using show_nat_no_comma by (auto simp: show_fixed_def Let_def pad_zeros_def)

lemma csv_fields_clean: "f \<in> set (csv_fields c) \<Longrightarrow> CHR '','' \<notin> set f \<and> CHR 0x0A \<notin> set f"
  using show_nat_no_comma show_nat_no_newline show_fixed_no_comma show_fixed_no_newline
  by (auto simp: csv_fields_def show_int_def show_u64_def split: if_splits)

lemma split_on_join:
  "fs \<noteq> [] \<Longrightarrow> (\<And>f. f \<in> set fs \<Longrightarrow> d \<notin> set f) \<Longrightarrow> split_on d (join [d] fs) = fs"
  by (induction "[d]" fs rule: join.induct) (auto simp: split_on_append)

lemma set_join: "set (join sep fs) \<subseteq> set sep \<union> \<Union> (set ` set fs)"
  by (induction sep fs rule: join.induct) auto

lemma csv_connection_no_newline: "CHR 0x0A \<notin> set (csv_connection c)"
  using set_join [of "'',''" "csv_fields c"] csv_fields_clean [of _ c] by (auto simp: csv_connection_def)

lemma split_lines_connections:
  "split_lines (concat (map (\<lambda>c. csv_connection c @ nl) cs)) = map csv_connection cs"
  by (induction cs) (simp_all add: nl_def split_lines_line csv_connection_no_newline)

lemma split_lines_append:
  "split_lines (s @ CHR 0x0A # t) = split_lines (s @ [CHR 0x0A]) @ split_lines t"
proof (induction s)
  case (Cons c s)
  have "split_lines (s @ [CHR 0x0A]) \<noteq> []" by (induction s) (auto split: list.splits)
  with Cons show ?case by (auto split: list.splits simp: Cons_eq_append_conv)
qed simp

text \<open>
  Remark (bench_csv_roundtrip). With the count of the array, the CSV text is written without an access outside it, and its last
  lines are the records of the connections in order: cut at line ends and commas they give back, for each connection, its
  number, state, byte counts and measurements as printed, after exactly two lines that announce them.
\<close>

lemma bench_csv_lines:
  assumes "int (length arr) = n"
  shows "\<exists>txt front. bench_csv_text config m arr n = Ret txt \<and>
           split_lines txt = front @ [''# Connection Details'', csv_details_header] @ map csv_connection arr"
proof -
  have "map (\<lambda>i. csv_connection (arr ! i) @ nl) [0..<length arr] = map (\<lambda>c. csv_connection c @ nl) arr"
    by (intro nth_equalityI) simp_all
  then have rows: "each_row arr (\<lambda>i c. csv_connection c @ nl) [0..<nat n] = Ret (concat (map (\<lambda>c. csv_connection c @ nl) arr))"
    by (simp add: each_row_all [OF assms])
  obtain pre where pre: "csv_preamble config @ csv_summary m = pre @ nl"
    by (auto simp: csv_summary_def simp flip: append_assoc)
  have hd: "CHR 0x0A \<notin> set csv_details_header" by (simp add: csv_details_header_def)
  let ?rows = "concat (map (\<lambda>c. csv_connection c @ nl) arr)"
  let ?txt = "(csv_preamble config @ csv_summary m) @ ''# Connection Details'' @ nl @ csv_details_header @ nl @ ?rows"
  have t: "bench_csv_text config m arr n = Ret ?txt" by (simp add: bench_csv_text_def rows)
  have eq: "?txt = pre @ CHR 0x0A # (''# Connection Details'' @ CHR 0x0A # (csv_details_header @ CHR 0x0A # ?rows))"
    unfolding pre by (simp add: nl_def)
  have "split_lines ?txt =
      split_lines (pre @ [CHR 0x0A]) @ [''# Connection Details'', csv_details_header] @ map csv_connection arr"
    unfolding eq using split_lines_append [of pre "''# Connection Details'' @ CHR 0x0A # (csv_details_header @ CHR 0x0A # ?rows)"]
      split_lines_line [of "''# Connection Details''" "csv_details_header @ CHR 0x0A # ?rows"]
      split_lines_line [OF hd, of ?rows] split_lines_connections [of arr]
    by simp
  with t show ?thesis by blast
qed

theorem bench_csv_roundtrip:
  assumes "int (length arr) = n"
  shows "\<exists>txt front. bench_csv_text config m arr n = Ret txt \<and>
           split_lines txt = front @ [''# Connection Details'', csv_details_header] @ map csv_connection arr \<and>
           map (split_on (CHR '','')) (map csv_connection arr) = map csv_fields arr"
proof -
  have "split_on (CHR '','') (csv_connection c) = csv_fields c" for c
    unfolding csv_connection_def
    by (rule split_on_join) (use csv_fields_clean [of _ c] in \<open>auto simp: csv_fields_def\<close>)
  then show ?thesis using bench_csv_lines [OF assms] by simp
qed

theorem bench_csv_roundtrip_witness:
  "\<exists>txt front. bench_csv_text (fst (init_config (const_os IoErr) (demo_net []) [])) zero_global_metrics [zero_conn_stats] 1 = Ret txt \<and>
     split_lines txt = front @ [''# Connection Details'', csv_details_header, csv_connection zero_conn_stats]"
  using bench_csv_roundtrip [of "[zero_conn_stats]" 1 "fst (init_config (const_os IoErr) (demo_net []) [])" zero_global_metrics] by auto

lemma json_details_separated:
  assumes "int (length arr) = n"
  shows "json_details arr n = Ret (if arr = [] then [] else join ('','' @ nl) (map json_connection arr) @ nl)"
proof (cases "length arr")
  case 0
  then show ?thesis using assms by (simp add: json_details_def)
next
  case (Suc k)
  then have n: "n = int (Suc k)" using assms by simp
  have "json_details arr n = Ret (concat (map (\<lambda>i. json_connection (arr ! i) @ (if int i < n - 1 then '','' else []) @ nl) [0..<Suc k]))"
    unfolding json_details_def using each_row_all [OF assms] Suc by simp
  also have "concat (map (\<lambda>i. json_connection (arr ! i) @ (if int i < n - 1 then '','' else []) @ nl) [0..<Suc k]) =
      concat (map (\<lambda>i. json_connection (arr ! i) @ (if i < k then '','' else []) @ nl) [0..<Suc k])"
    unfolding n by (intro arg_cong [of _ _ concat] map_cong) auto
  also have "\<dots> = join ('','' @ nl) (map (\<lambda>i. json_connection (arr ! i)) [0..<Suc k]) @ nl" by (rule concat_join)
  also have "map (\<lambda>i. json_connection (arr ! i)) [0..<Suc k] = map json_connection arr"
    using Suc by (intro nth_equalityI) (simp_all del: upt_Suc)
  finally show ?thesis using Suc by auto
qed

text \<open>The JSON text of a run with at least one connection: one object per connection, in order, with separators in between.\<close>

lemma bench_json_rows:
  assumes "int (length arr) = n" and "arr \<noteq> []"
  shows "\<exists>txt front back. bench_json_text config m arr n = Ret txt \<and>
           txt = front @ open_member ''connection_details'' ''['' @ join ('','' @ nl) (map json_connection arr) @ back"
proof -
  have "bench_json_text config m arr n =
      Ret ((''{'' @ nl @ json_configuration config @ json_summary_metrics m) @
           open_member ''connection_details'' ''['' @ join ('','' @ nl) (map json_connection arr) @
           (nl @ '' '' @ '' ]'' @ nl @ ''}'' @ nl))"
    using assms by (simp add: bench_json_text_def json_details_separated)
  then show ?thesis by blast
qed

end
