(* ===== verification/Bench_Main.thy ===== *)
theory Bench_Main
  imports Bench_Transfer Bench_Export
begin

text \<open>
  The benchmark program, \<^verbatim>\<open>main\<close> in \<^verbatim>\<open>bench/src/main.c\<close>: options, the server or the client run, and the result files. The
  model starts from the sequence of option characters and arguments that \<^verbatim>\<open>getopt_long\<close> returns; \<open>Bench_Console\<close> puts the command line
  in front of it.
\<close>

section \<open>Options\<close>

text \<open>\<^verbatim>\<open>atoi\<close>: the conversion of \<^verbatim>\<open>strtol\<close>, which is limited to 64 bits, cut to 32 bits; 0 when there is no number.\<close>

definition clamp_long :: "int \<Rightarrow> int" where
  "clamp_long x = max (- (2 ^ 63)) (min (2 ^ 63 - 1) x)"

definition atoi :: "string \<Rightarrow> int" where
  "atoi s =
     (let (neg, t) = scan_sign (skip_ws s) in
      case scan_digits t of
        None \<Rightarrow> 0
      | Some (n, r) \<Rightarrow> sint (of_int (clamp_long (if neg then - int n else int n)) :: u32))"

definition parse_mode :: "string \<Rightarrow> bench_mode option" where
  "parse_mode mode_str =
     (if mode_str = ''client'' then Some MODE_CLIENT else if mode_str = ''server'' then Some MODE_SERVER else None)"

text \<open>A port argument: \<^verbatim>\<open>strtoul\<close> must read all of it and give 1 to 65535.\<close>

definition parse_port :: "string \<Rightarrow> u16 option" where
  "parse_port optarg =
     (case scan_ull optarg of
        None \<Rightarrow> None
      | Some (port, endptr) \<Rightarrow>
          if optarg = [] \<or> endptr \<noteq> [] \<or> port = 0 \<or> port > 65535 then None else Some (of_nat (unat port)))"

text \<open>One option; \<open>Inl\<close> is the exit status with which \<^verbatim>\<open>main\<close> returns at once.\<close>

definition parse_option :: "bench_config \<Rightarrow> char \<times> string \<Rightarrow> int + bench_config" where
  "parse_option config = (\<lambda>(opt, optarg).
     if opt = CHR ''m'' then
       (case parse_mode optarg of None \<Rightarrow> Inl 1 | Some mode \<Rightarrow> Inr (config\<lparr>bc_mode := mode\<rparr>))
     else if opt = CHR ''t'' then Inr (config\<lparr>bc_target_ip := strncpy (bc_target_ip config) optarg 255\<rparr>)
     else if opt = CHR ''p'' then
       (case parse_port optarg of None \<Rightarrow> Inl 1 | Some port \<Rightarrow> Inr (config\<lparr>bc_target_port := port\<rparr>))
     else if opt = CHR ''l'' then
       (case parse_port optarg of None \<Rightarrow> Inl 1 | Some port \<Rightarrow> Inr (config\<lparr>bc_listen_port := port\<rparr>))
     else if opt = CHR ''s'' then
       (let data_size = of_int (atoi optarg) in
        if data_size = 0 \<or> data_size > 10 * 1024 * 1024 then Inl 1 else Inr (config\<lparr>bc_data_size := data_size\<rparr>))
     else if opt = CHR ''c'' then
       (let concurrency = atoi optarg in
        if concurrency \<le> 0 \<or> concurrency > 1000 then Inl 1 else Inr (config\<lparr>bc_concurrency := concurrency\<rparr>))
     else if opt = CHR ''n'' then
       (let total_connections = atoi optarg in
        if total_connections \<le> 0 \<or> total_connections > MAX_CONNECTIONS then Inl 1
        else Inr (config\<lparr>bc_total_connections := total_connections\<rparr>))
     else if opt = CHR ''j'' then Inr (config\<lparr>bc_output_json := strncpy (bc_output_json config) optarg 511\<rparr>)
     else if opt = CHR ''o'' then Inr (config\<lparr>bc_output_csv := strncpy (bc_output_csv config) optarg 511\<rparr>)
     else if opt = CHR ''v'' then Inr (config\<lparr>bc_verbose := True\<rparr>)
     else if opt = CHR ''h'' then Inl 0
     else Inl 1)"

fun parse_options :: "bench_config \<Rightarrow> (char \<times> string) list \<Rightarrow> int + bench_config" where
  "parse_options config [] = Inr config"
| "parse_options config (o' # os') =
     (case parse_option config o' of Inl status \<Rightarrow> Inl status | Inr config' \<Rightarrow> parse_options config' os')"

section \<open>The program\<close>

definition conn_stats_size :: nat where "conn_stats_size = 112"

definition run_client_mode :: "os \<Rightarrow> net \<Rightarrow> bench_config \<Rightarrow> hist \<Rightarrow> (int \<times> hist) outcome option" where
  "run_client_mode os net config h =
     (let n = nat (bc_total_connections config);
          p = os_malloc os h (n * conn_stats_size); h1 = h @ [Malloc (n * conn_stats_size) p]
      in if p = NULL then Some (Ret (1, h1))
         else
           let (metrics, h2) = init_metrics os h1 in
           case run_tcp_client os net config metrics (replicate n zero_conn_stats) h2 of
             None \<Rightarrow> None
           | Some (Exit e) \<Rightarrow> Some (Exit e)
           | Some Fault \<Rightarrow> Some Fault
           | Some (Ret (arr, m, h3)) \<Rightarrow>
               (let (m', h4) = finalize_metrics os net m h3 in
                Some (and_then (export_metrics_json os (c_str (bc_output_json config)) config m' arr (bc_total_connections config) h4) (\<lambda>(j, h5).
                      and_then (export_metrics_csv os (c_str (bc_output_csv config)) config m' arr (bc_total_connections config) h5) (\<lambda>(c, h6).
                      Ret (0, h6 @ [Free p]))))))"

text \<open>What \<^verbatim>\<open>main\<close> does once the options have been read.\<close>

definition run_mode :: "os \<Rightarrow> net \<Rightarrow> bench_config \<Rightarrow> hist \<Rightarrow> (int \<times> hist) outcome option" where
  "run_mode os net config h =
     (case bc_mode config of
        MODE_SERVER \<Rightarrow>
          (case run_echo_server os net (bc_listen_port config) h of
             None \<Rightarrow> None
           | Some (ret, h') \<Rightarrow> Some (Ret (if ret = 0 then 0 else 1, h')))
      | MODE_CLIENT \<Rightarrow> run_client_mode os net config h)"

definition bench_main :: "os \<Rightarrow> net \<Rightarrow> (char \<times> string) list \<Rightarrow> hist \<Rightarrow> (int \<times> hist) outcome option" where
  "bench_main os net opts h =
     (let (config0, h1) = init_config os net h in
      case parse_options config0 opts of
        Inl status \<Rightarrow> Some (Ret (status, h1))
      | Inr config \<Rightarrow> run_mode os net config h1)"

section \<open>Accepted configurations\<close>

definition valid_config :: "bench_config \<Rightarrow> bool" where
  "valid_config c \<longleftrightarrow>
     terminated 256 (bc_target_ip c) \<and> terminated 512 (bc_output_json c) \<and> terminated 512 (bc_output_csv c) \<and>
     0 < bc_target_port c \<and> 0 < bc_listen_port c \<and> 0 < bc_data_size c \<and> bc_data_size c \<le> 10485760 \<and>
     0 < bc_concurrency c \<and> bc_concurrency c \<le> 1000 \<and> 0 < bc_total_connections c \<and> bc_total_connections c \<le> 10000"

lemma terminated_snprintf: "0 < n \<Longrightarrow> terminated n (snprintf_array n s)"
  by (auto simp: terminated_def snprintf_array_def nth_append min_def)

lemma parse_port_positive: "parse_port s = Some p \<Longrightarrow> 0 < p"
proof -
  assume "parse_port s = Some p"
  then obtain v where v: "v \<noteq> 0" "v \<le> (65535 :: u64)" "p = of_nat (unat v)"
    by (auto simp: parse_port_def split: option.splits if_splits)
  then have "unat v \<le> 65535" by (simp add: word_le_nat_alt)
  then have "unat p = unat v" unfolding v(3) by (simp only: unat_of_nat) (simp add: take_bit_nat_def)
  with v(1) show "0 < p" by (metis unat_eq_zero word_gt_0)
qed

definition option_step :: "char \<times> string \<Rightarrow> bench_config \<Rightarrow> bench_config option" where
  "option_step opt c = (case parse_option c opt of Inl status \<Rightarrow> None | Inr c' \<Rightarrow> Some c')"

lemma parse_options_run: "parse_options c opts = Inr c' \<longleftrightarrow> run_steps option_step opts c = Some c'"
  by (induction opts arbitrary: c) (auto simp: option_step_def split: sum.splits)

lemma parse_option_valid: "valid_config c \<Longrightarrow> parse_option c opt = Inr c' \<Longrightarrow> valid_config c'"
  using terminated_strncpy [of 255] terminated_strncpy [of 511]
  by (cases opt) (auto simp: parse_option_def valid_config_def MAX_CONNECTIONS_def Let_def word_gt_0 not_less
      dest: parse_port_positive split: if_splits option.splits)

interpretation options: invariant_steps option_step valid_config
  by unfold_locales (auto simp: option_step_def split: sum.splits intro: parse_option_valid)

lemma init_config_valid: "valid_config (fst (init_config os net h))"
  by (simp add: init_config_def now_def Let_def valid_config_def terminated_snprintf)

text \<open>
  Property C34 (accepted_options_are_in_range). Whatever options are given, a configuration that the program goes on to use has
  non-zero ports, a data size of 1 to 10485760 bytes, a concurrency of 1 to 1000 and 1 to 10000 connections, and
  its three strings are terminated inside their arrays.
\<close>

theorem accepted_options_are_in_range:
  assumes "parse_options (fst (init_config os net h)) opts = Inr c"
  shows "valid_config c"
  using options.run_inv [OF init_config_valid] assms by (simp add: parse_options_run)

theorem accepted_options_are_in_range_witness:
  "\<exists>c. parse_options (fst (init_config (const_os IoErr) (demo_net []) [])) [(CHR ''n'', ''25''), (CHR ''v'', [])] = Inr c \<and>
     valid_config c \<and> bc_total_connections c = 25"
proof -
  obtain c where c: "parse_options (fst (init_config (const_os IoErr) (demo_net []) [])) [(CHR ''n'', ''25''), (CHR ''v'', [])] = Inr c"
      "bc_total_connections c = 25"
    by (simp add: parse_option_def atoi_def skip_ws_def isspace_def scan_sign_def scan_digits_def is_digit_def dec_val_def
        digit_val_def clamp_long_def MAX_CONNECTIONS_def)
  then show ?thesis using accepted_options_are_in_range [OF c(1)] by blast
qed

text \<open>Numbers as a user would write them.\<close>

lemma skip_ws_digit: "is_digit c \<Longrightarrow> skip_ws (c # s) = c # s"
  using not_digit_first [of c] by (auto simp: skip_ws_def)

lemma scan_number_show:
  "scan_sign (skip_ws (show_nat n)) = (False, show_nat n)"
proof -
  obtain c cs where c: "show_nat n = c # cs" by (cases "show_nat n") auto
  then have "is_digit c" using show_nat_digits [of n] by simp
  then show ?thesis using not_digit_first [of c] by (auto simp: c skip_ws_digit scan_sign_def)
qed

lemma atoi_show_nat:
  assumes "n < 2147483648"
  shows "atoi (show_nat n) = int n"
proof -
  have "clamp_long (int n) = int n" using assms by (simp add: clamp_long_def)
  moreover have "sint (of_nat n :: u32) = int n"
    using assms sint_u32_small [of "of_nat n"] by (simp add: unat_of_nat take_bit_nat_def)
  ultimately show ?thesis
    using scan_digits_show [of "[]" n] by (simp add: atoi_def scan_number_show)
qed

lemma parse_port_show: "0 < p \<Longrightarrow> parse_port (show_nat (unat p)) = Some p"
proof -
  assume p: "0 < p"
  have u: "unat (of_nat (unat p) :: u64) = unat p"
    using unat_u16_less [of p] by (simp only: unat_of_nat) (simp add: take_bit_nat_def)
  have "unat p \<noteq> 0" using p by (simp add: unat_eq_zero word_gt_0)
  then have "(of_nat (unat p) :: u64) \<noteq> 0" using u by (metis unsigned_0)
  moreover have "\<not> (of_nat (unat p) :: u64) > 65535" using u unat_u16_less [of p] by (simp add: word_less_nat_alt)
  moreover have "scan_ull (show_nat (unat p)) = Some (of_nat (unat p), [])"
    using scan_ull_show [of "[]" "[]" "of_nat (unat p)"] u by simp
  ultimately show ?thesis using u by (simp add: parse_port_def)
qed

text \<open>
  Remark (printed_options_are_read_back). Every legal value of a numeric option, written in decimal, is accepted and
  stored as that value: ports 1 to 65535, sizes 1 to 10485760, 1 to 10000 connections.
\<close>

theorem printed_options_are_read_back:
  assumes "0 < p" and "0 < sz" and "sz \<le> 10485760" and "0 < n" and "n \<le> 10000"
  shows "parse_options c [(CHR ''p'', show_nat (unat p)), (CHR ''s'', show_nat sz), (CHR ''n'', show_nat n)] =
           Inr (c\<lparr>bc_target_port := p, bc_data_size := of_nat sz, bc_total_connections := int n\<rparr>)"
proof -
  have "unat (of_nat sz :: u64) = sz" using assms(3) by (simp add: unat_of_nat take_bit_nat_def)
  then have "(of_nat sz :: u64) \<noteq> 0" "\<not> (of_nat sz :: u64) > 10485760"
    using assms(2,3) by (auto simp: word_less_nat_alt)
  then show ?thesis using assms
    by (simp add: parse_option_def parse_port_show atoi_show_nat MAX_CONNECTIONS_def)
qed

theorem printed_options_are_read_back_witness:
  "parse_options demo_config [(CHR ''p'', show_nat (unat (443 :: u16))), (CHR ''s'', show_nat 4096), (CHR ''n'', show_nat 100)] =
     Inr (demo_config\<lparr>bc_target_port := 443, bc_data_size := 4096, bc_total_connections := 100\<rparr>)"
  using printed_options_are_read_back [of 443 4096 100 demo_config] by simp

section \<open>The whole program\<close>

lemma clock_settled: "settled h (h @ [Clock c t])"
  by (simp add: settled_simps)

lemma init_config_settled: "settled h (snd (init_config os net h))"
  by (simp add: init_config_def now_def Let_def settled_simps)

text \<open>What an export leaves in the history: the file with its text, or the attempt to create it.\<close>

definition saved :: "os \<Rightarrow> hist \<Rightarrow> string \<Rightarrow> string \<Rightarrow> hist" where
  "saved os h path txt = (if os_fcreate os h path then [FOpen path True, FWrite txt, FClose] else [FOpen path False])"

lemma export_saved:
  "bench_json_text config m arr n = Ret txt \<Longrightarrow> \<exists>r. export_metrics_json os path config m arr n h = Ret (r, h @ saved os h path txt)"
  "bench_csv_text config m arr n = Ret txt \<Longrightarrow> \<exists>r. export_metrics_csv os path config m arr n h = Ret (r, h @ saved os h path txt)"
  by (auto simp: export_metrics_json_def export_metrics_csv_def saved_def)

lemma saved_settled: "settled h (h @ saved os h path txt)"
  by (simp add: saved_def settled_simps)

lemma finalize_settled: "finalize_metrics os net m h = (m', h') \<Longrightarrow> settled h h'"
  by (auto simp: finalize_metrics_def now_def get_memory_usage_def Let_def settled_simps)

lemma parse_option_status: "parse_option c opt = Inl status \<Longrightarrow> status = 0 \<or> status = 1"
  by (cases opt) (simp add: parse_option_def Let_def split: if_splits option.splits)

lemma parse_options_status: "parse_options c opts = Inl status \<Longrightarrow> status = 0 \<or> status = 1"
proof (induction opts arbitrary: c)
  case (Cons opt opts)
  then show ?case using parse_option_status [of c opt] by (cases "parse_option c opt") auto
qed simp

lemma settled_malloc_free: "settled (h @ [Malloc n p]) h' \<Longrightarrow> p \<noteq> NULL \<Longrightarrow> settled h (h' @ [Free p])"
  by (simp add: settled_simps)

text \<open>
  How a client run that started with the history \<open>h\<close> came to the history \<open>h'\<close>: the client ran on an array of cleared records and
  returned \<open>arr\<close>, the totals were finished to \<open>m'\<close>, the two exports left the texts \<open>js\<close> and \<open>cs\<close>, and the array was released.
\<close>

definition run_exported ::
  "os \<Rightarrow> net \<Rightarrow> bench_config \<Rightarrow> hist \<Rightarrow> conn_stats list \<Rightarrow> global_metrics \<Rightarrow> string \<Rightarrow> string \<Rightarrow> hist \<Rightarrow> bool"
where
  "run_exported os net config h arr m' js cs h' \<longleftrightarrow>
     (\<exists>p m0 h2 m h3 h4. let n = nat (bc_total_connections config); h5 = h4 @ saved os h4 (c_str (bc_output_json config)) js in
        init_metrics os (h @ [Malloc (n * conn_stats_size) p]) = (m0, h2) \<and>
        run_tcp_client os net config m0 (replicate n zero_conn_stats) h2 = Some (Ret (arr, m, h3)) \<and>
        finalize_metrics os net m h3 = (m', h4) \<and>
        h' = h5 @ saved os h5 (c_str (bc_output_csv config)) cs @ [Free p])"

lemma client_mode_result:
  assumes "socket_ok os" and "valid_config config" and "run_client_mode os net config h = Some out"
  shows "\<exists>r h'. out = Ret (r, h') \<and> settled h h' \<and>
           (r = 1 \<or> r = 0 \<and> (\<exists>arr m' js cs. run_exported os net config h arr m' js cs h' \<and>
              int (length arr) = bc_total_connections config \<and> run_totals arr m' \<and>
              bench_json_text config m' arr (bc_total_connections config) = Ret js \<and>
              bench_csv_text config m' arr (bc_total_connections config) = Ret cs))"
proof -
  let ?n = "nat (bc_total_connections config)"
  let ?sz = "?n * conn_stats_size"
  let ?p = "os_malloc os h ?sz"
  let ?h1 = "h @ [Malloc ?sz ?p]"
  show ?thesis
  proof (cases "?p = NULL")
    case True
    with assms(3) show ?thesis by (auto simp: run_client_mode_def Let_def settled_simps)
  next
    case False
    obtain m0 h2 where init: "init_metrics os ?h1 = (m0, h2)" by force
    then have h2: "settled ?h1 h2" and m0: "m0 = fst (init_metrics os ?h1)"
      by (auto simp: init_metrics_def now_def Let_def settled_simps)
    obtain x where run: "run_tcp_client os net config m0 (replicate ?n zero_conn_stats) h2 = Some x"
      using assms(3) False init by (auto simp: run_client_mode_def Let_def split: option.splits)
    have "0 + ?n = length (replicate ?n zero_conn_stats)" by simp
    from run_connections_result [OF assms(1) run [unfolded run_tcp_client_def] this]
    obtain arr h3 where x: "x = Ret (arr, foldl update_metrics m0 arr, h3)" "length arr = ?n" "settled h2 h3" by auto
    let ?m = "foldl update_metrics m0 arr" and ?cn = "bc_total_connections config"
    have len: "int (length arr) = ?cn" "arr \<noteq> []" using x(2) assms(2) by (auto simp: valid_config_def)
    obtain m' h4 where fin: "finalize_metrics os net ?m h3 = (m', h4)" by force
    obtain js where js: "bench_json_text config m' arr ?cn = Ret js" using bench_json_rows [OF len] by blast
    obtain cs where cs: "bench_csv_text config m' arr ?cn = Ret cs" using bench_csv_lines [OF len(1)] by blast
    let ?h5 = "h4 @ saved os h4 (c_str (bc_output_json config)) js"
    let ?h6 = "?h5 @ saved os ?h5 (c_str (bc_output_csv config)) cs"
    have out: "out = Ret (0, ?h6 @ [Free ?p])"
      using assms(3) False init run x(1) fin export_saved(1) [OF js, of os "c_str (bc_output_json config)" h4]
        export_saved(2) [OF cs, of os "c_str (bc_output_csv config)" ?h5]
      by (auto simp: run_client_mode_def Let_def)
    have "settled ?h1 ?h6"
      using h2 x(3) finalize_settled [OF fin] saved_settled by (blast intro: settled_trans)
    then have st: "settled h (?h6 @ [Free ?p])" using False by (rule settled_malloc_free)
    have "m' = fst (finalize_metrics os net (foldl update_metrics (fst (init_metrics os ?h1)) arr) h3)"
      using fin m0 by simp
    then have "run_totals arr m'" using summary_fields [of os net ?h1 arr h3] by (simp add: Let_def)
    moreover have "run_exported os net config h arr m' js cs (?h6 @ [Free ?p])"
      unfolding run_exported_def Let_def using init run x(1) fin
      by (intro exI [of _ ?p] exI [of _ m0] exI [of _ h2] exI [of _ ?m] exI [of _ h3] exI [of _ h4]) simp
    ultimately show ?thesis using out st len(1) js cs by blast
  qed
qed

text \<open>
  Property C5 (bench_main_releases_everything). The benchmark program, with any options and on any network, never touches
  memory outside its connection array, and when it ends every socket, file and block it acquired has been
  released; its exit status is 0 or 1.
\<close>

theorem bench_main_releases_everything:
  assumes "socket_ok os" and "bench_main os net opts h = Some out"
  shows "\<exists>r h'. out = Ret (r, h') \<and> settled h h' \<and> (r = 0 \<or> r = 1)"
proof -
  obtain c0 h1 where init: "init_config os net h = (c0, h1)" by force
  then have h1: "settled h h1" using init_config_settled [of h os net] by simp
  show ?thesis
  proof (cases "parse_options c0 opts")
    case (Inl status)
    then have "status = 0 \<or> status = 1" by (rule parse_options_status)
    with assms(2) init Inl h1 show ?thesis by (auto simp: bench_main_def)
  next
    case (Inr config)
    have v: "valid_config config"
      using options.run_inv [OF init_config_valid [of os net h]] Inr init by (simp add: parse_options_run)
    show ?thesis
    proof (cases "bc_mode config")
      case MODE_CLIENT
      with assms(2) init Inr have "run_client_mode os net config h1 = Some out" by (simp add: bench_main_def run_mode_def)
      from client_mode_result [OF assms(1) v this] h1 show ?thesis by (auto intro: settled_trans)
    next
      case MODE_SERVER
      then obtain ret h2 where "run_echo_server os net (bc_listen_port config) h1 = Some (ret, h2)"
        "out = Ret (if ret = 0 then 0 else 1, h2)"
        using assms(2) init Inr by (auto simp: bench_main_def run_mode_def split: option.splits)
      moreover have "-1 \<le> os_socket os h1" using assms(1) by (simp add: socket_ok_def)
      ultimately show ?thesis using echo_server_settled h1 by (auto intro: settled_trans)
    qed
  qed
qed

theorem bench_main_releases_everything_witness:
  "\<exists>h'. bench_main (const_os IoErr) (demo_net [0]) [(CHR ''m'', ''server'')] [] = Some (Ret (0, h')) \<and> fd_balance h' 5 = 0"
proof -
  obtain h' where run: "bench_main (const_os IoErr) (demo_net [0]) [(CHR ''m'', ''server'')] [] = Some (Ret (0, h'))"
    by (simp add: bench_main_def run_mode_def parse_option_def parse_mode_def init_config_def now_def run_echo_server_def echo_server_start_def
        accept_body_def echo_eval)
  then show ?thesis using bench_main_releases_everything [OF const_os_socket_ok run] by (auto simp: settled_simps)
qed

text \<open>
  Property C33 (bench_files_report_the_run). When the client mode of the program ends with status 0, the run of the client returned an
  array with one record per configured connection, the totals handed to the exports are those of this array, and the last things
  the program did were the two exports and the release of the array (\<open>run_exported\<close>). Each export created the file of its configured name
  and wrote one text to it, or, where the file cannot be created, wrote nothing; the status is 0 all the same. The JSON text
  holds the objects of the array's records and the CSV text ends in their lines, in order.
\<close>

theorem bench_files_report_the_run:
  assumes "socket_ok os" and "valid_config config" and "run_client_mode os net config h = Some (Ret (0, h'))"
  shows "\<exists>arr m' js cs. run_exported os net config h arr m' js cs h' \<and>
           int (length arr) = bc_total_connections config \<and> run_totals arr m' \<and>
           bench_json_text config m' arr (bc_total_connections config) = Ret js \<and>
           bench_csv_text config m' arr (bc_total_connections config) = Ret cs \<and>
           (\<exists>front back. js = front @ open_member ''connection_details'' ''['' @ join ('','' @ nl) (map json_connection arr) @ back) \<and>
           (\<exists>front. split_lines cs = front @ [''# Connection Details'', csv_details_header] @ map csv_connection arr)"
proof -
  from client_mode_result [OF assms] obtain arr m' js cs where r: "run_exported os net config h arr m' js cs h'"
    "int (length arr) = bc_total_connections config" "run_totals arr m'"
    "bench_json_text config m' arr (bc_total_connections config) = Ret js"
    "bench_csv_text config m' arr (bc_total_connections config) = Ret cs"
    by auto
  have ne: "arr \<noteq> []" using r(2) assms(2) by (auto simp: valid_config_def)
  have "\<exists>front back. js = front @ open_member ''connection_details'' ''['' @ join ('','' @ nl) (map json_connection arr) @ back"
    using bench_json_rows [OF r(2) ne, of config m'] r(4) by auto
  moreover have "\<exists>front. split_lines cs = front @ [''# Connection Details'', csv_details_header] @ map csv_connection arr"
    using bench_csv_lines [OF r(2), of config m'] r(5) by auto
  ultimately show ?thesis using r by blast
qed

theorem bench_files_report_the_run_witness:
  "\<exists>h' m' arr js cs. run_client_mode (const_os IoErr) (demo_net [0, 1, 2]) demo_config [] = Some (Ret (0, h')) \<and>
     length arr = 1 \<and> run_totals arr m' \<and> FWrite js \<in> set h' \<and> FWrite cs \<in> set h' \<and>
     (\<exists>front. split_lines cs = front @ map csv_connection arr)"
proof -
  let ?os = "const_os IoErr" and ?net = "demo_net [0, 1, 2]"
  let ?h = "[Malloc 112 4096, Clock CLOCK_MONOTONIC (os_clock (const_os IoErr) [Malloc 112 4096] CLOCK_MONOTONIC)]"
  obtain m0 where i: "init_metrics ?os [Malloc 112 4096] = (m0, ?h)" by (simp add: init_metrics_def now_def Let_def)
  obtain arr m h3 where r: "run_tcp_client ?os ?net demo_config m0 [zero_conn_stats] ?h = Some (Ret (arr, m, h3))"
    by (simp add: run_tcp_client_def client_eval zero_conn_stats_def epoch_def)
  have v: "valid_config demo_config" by (simp add: valid_config_def demo_config_def terminated_snprintf)
  obtain out where out: "run_client_mode ?os ?net demo_config [] = Some out" and ok: "\<forall>h'. out \<noteq> Ret (1, h')"
    using i r by (auto simp: run_client_mode_def conn_stats_size_def case_prod_beta and_then_Ret)
  from client_mode_result [OF const_os_socket_ok v out] ok obtain h' where
    run: "run_client_mode ?os ?net demo_config [] = Some (Ret (0, h'))" using out by auto
  have f: "os_fcreate (const_os IoErr) h f" for h f by (simp add: const_os_def)
  have n: "bc_total_connections demo_config = 1" by (simp add: demo_config_def)
  from bench_files_report_the_run [OF const_os_socket_ok v run] obtain arr' m' js cs where
    e: "run_exported ?os ?net demo_config [] arr' m' js cs h'" "length arr' = 1" "run_totals arr' m'"
      "\<exists>front. split_lines cs = front @ [''# Connection Details'', csv_details_header] @ map csv_connection arr'"
    unfolding n by auto
  from e(1) have "FWrite js \<in> set h'" "FWrite cs \<in> set h'" by (auto simp: run_exported_def Let_def saved_def f)
  moreover have "\<exists>front. split_lines cs = front @ map csv_connection arr'" using e(4) by (metis append_assoc)
  ultimately show ?thesis using run e(2,3) by blast
qed

end
