(* ===== verification/Getopt.thy ===== *)
theory Getopt
  imports CLib
begin

text \<open>
  The GNU function \<^verbatim>\<open>getopt_long\<close> as the benchmark program uses it: it cuts the command line into options with
  their arguments, accepts long names, unique abbreviations of them and clusters of short options, and moves the other words
  out of the way. An unknown option, a missing argument and an unwanted one are reported as \<^verbatim>\<open>?\<close>.
\<close>

section \<open>Tables of options\<close>

datatype has_arg = No_argument | Required_argument

text \<open>A line of the table of long options: name, kind and the character it stands for.\<close>

type_synonym long_option = "string \<times> has_arg \<times> char"

text \<open>The string of short options: a colon after a character means that it takes an argument.\<close>

fun optstring :: "string \<Rightarrow> (char \<times> has_arg) list" where
  "optstring [] = []"
| "optstring [c] = [(c, No_argument)]"
| "optstring (c # d # s) = (if d = CHR '':'' then (c, Required_argument) # optstring s else (c, No_argument) # optstring (d # s))"

text \<open>A name given on the command line: an exact match, or else all the names it begins must stand for the same option.\<close>

definition find_long :: "long_option list \<Rightarrow> string \<Rightarrow> (has_arg \<times> char) option" where
  "find_long longs name =
     (case map_of longs name of
        Some o' \<Rightarrow> Some o'
      | None \<Rightarrow>
          (case filter (\<lambda>(n, o'). take (length name) n = name) longs of
             [] \<Rightarrow> None
           | (n, o') # more \<Rightarrow> if \<forall>(n', p') \<in> set more. p' = o' then Some o' else None))"

section \<open>Cutting the command line\<close>

abbreviation unknown :: "char \<times> string" where
  "unknown \<equiv> (CHR ''?'', [])"

text \<open>The rest of a word of short options; an option with an argument takes the rest of the word or the next word.\<close>

fun short_opts :: "(char \<times> has_arg) list \<Rightarrow> string \<Rightarrow> string list \<Rightarrow> (char \<times> string) list \<times> string list" where
  "short_opts shorts [] args = ([], args)"
| "short_opts shorts (c # cs) args =
     (case map_of shorts c of
        None \<Rightarrow> (let (os, r) = short_opts shorts cs args in (unknown # os, r))
      | Some No_argument \<Rightarrow> (let (os, r) = short_opts shorts cs args in ((c, []) # os, r))
      | Some Required_argument \<Rightarrow>
          if cs \<noteq> [] then ([(c, cs)], args)
          else (case args of [] \<Rightarrow> ([unknown], []) | v # r \<Rightarrow> ([(c, v)], r)))"

text \<open>A word of a long option, without its dashes.\<close>

definition long_opt :: "long_option list \<Rightarrow> string \<Rightarrow> string list \<Rightarrow> (char \<times> string) \<times> string list" where
  "long_opt longs w args =
     (let name = takeWhile (\<lambda>c. c \<noteq> CHR ''='') w; val = dropWhile (\<lambda>c. c \<noteq> CHR ''='') w in
      case find_long longs name of
        None \<Rightarrow> (unknown, args)
      | Some (No_argument, c) \<Rightarrow> (if val \<noteq> [] then unknown else (c, []), args)
      | Some (Required_argument, c) \<Rightarrow>
          (case val of
             _ # v \<Rightarrow> ((c, v), args)
           | [] \<Rightarrow> (case args of [] \<Rightarrow> (unknown, []) | v # r \<Rightarrow> ((c, v), r))))"

lemma short_opts_length: "short_opts shorts cs args = (os, r) \<Longrightarrow> length r \<le> length args"
  by (induction cs arbitrary: os r) (auto split: option.splits has_arg.splits prod.splits list.splits if_splits)

lemma long_opt_length: "long_opt longs w args = (o', r) \<Longrightarrow> length r \<le> length args"
  by (auto simp: long_opt_def Let_def split: option.splits has_arg.splits list.splits)

function (sequential) getopt_long ::
  "(char \<times> has_arg) list \<Rightarrow> long_option list \<Rightarrow> string list \<Rightarrow> (char \<times> string) list"
where
  "getopt_long shorts longs [] = []"
| "getopt_long shorts longs (a # args) =
     (if a = ''--'' then []
      else if take 2 a = ''--'' then (let (o', r) = long_opt longs (drop 2 a) args in o' # getopt_long shorts longs r)
      else if take 1 a = ''-'' \<and> tl a \<noteq> [] then
        (let (os, r) = short_opts shorts (tl a) args in os @ getopt_long shorts longs r)
      else getopt_long shorts longs args)"
  by pat_completeness auto
termination
  by (relation "measure (\<lambda>(s, l, args). length args)")
    (auto dest: short_opts_length [OF sym] long_opt_length [OF sym] simp: less_Suc_eq_le)

section \<open>Reading back what was written\<close>

text \<open>The ways to write an option, and words that are not options.\<close>

datatype arg_style = Long_Word | Long_Equals | Short_Word | Short_Joined

datatype cmd_item = Option arg_style string char string | Operand string

fun written :: "(char \<times> has_arg) list \<Rightarrow> cmd_item \<Rightarrow> string list" where
  "written shorts (Operand w) = [w]"
| "written shorts (Option st name c v) =
     (if map_of shorts c = Some Required_argument then
        (case st of
           Long_Word \<Rightarrow> [''--'' @ name, v] | Long_Equals \<Rightarrow> [''--'' @ name @ ''='' @ v]
         | Short_Word \<Rightarrow> [''-'' @ [c], v] | Short_Joined \<Rightarrow> [''-'' @ [c] @ v])
      else (case st of Long_Word \<Rightarrow> [''--'' @ name] | Long_Equals \<Rightarrow> [''--'' @ name] | _ \<Rightarrow> [''-'' @ [c]]))"

fun item_options :: "cmd_item \<Rightarrow> (char \<times> string) list" where
  "item_options (Operand w) = []"
| "item_options (Option st name c v) = [(c, v)]"

text \<open>An item the tables allow: the name and the character belong together, and an option has an argument iff it needs one.\<close>

fun writable :: "(char \<times> has_arg) list \<Rightarrow> long_option list \<Rightarrow> cmd_item \<Rightarrow> bool" where
  "writable shorts longs (Operand w) \<longleftrightarrow> take 1 w \<noteq> ''-''"
| "writable shorts longs (Option st name c v) \<longleftrightarrow>
     c \<noteq> CHR ''-'' \<and> name \<noteq> [] \<and> CHR ''='' \<notin> set name \<and>
     (\<exists>k. map_of shorts c = Some k \<and> find_long longs name = Some (k, c) \<and>
        (k = No_argument \<longrightarrow> v = []) \<and> (k = Required_argument \<and> st = Short_Joined \<longrightarrow> v \<noteq> []))"

lemma cut_name:
  assumes "CHR ''='' \<notin> set name"
  shows "takeWhile (\<lambda>c. c \<noteq> CHR ''='') name = name" "dropWhile (\<lambda>c. c \<noteq> CHR ''='') name = []"
    "takeWhile (\<lambda>c. c \<noteq> CHR ''='') (name @ CHR ''='' # v) = name"
    "dropWhile (\<lambda>c. c \<noteq> CHR ''='') (name @ CHR ''='' # v) = CHR ''='' # v"
  using assms by (induction name) auto

lemma getopt_words:
  "w \<noteq> [] \<Longrightarrow> getopt_long shorts longs ((''--'' @ w) # args) = (let (o', r) = long_opt longs w args in o' # getopt_long shorts longs r)"
  "c \<noteq> CHR ''-'' \<Longrightarrow> getopt_long shorts longs ((CHR ''-'' # c # cs) # args) =
     (let (os, r) = short_opts shorts (c # cs) args in os @ getopt_long shorts longs r)"
  "take 1 w \<noteq> ''-'' \<Longrightarrow> getopt_long shorts longs (w # args) = getopt_long shorts longs args"
  by (auto simp: numeral_2_eq_2 simp del: short_opts.simps) (cases w; simp)+

declare getopt_long.simps(2) [simp del]

lemma getopt_written:
  assumes "writable shorts longs i"
  shows "getopt_long shorts longs (written shorts i @ rest) = item_options i @ getopt_long shorts longs rest"
proof (cases i)
  case (Operand w)
  then show ?thesis using assms by (simp add: getopt_words)
next
  case (Option st name c v)
  with assms obtain k where k: "map_of shorts c = Some k" "find_long longs name = Some (k, c)" "c \<noteq> CHR ''-''" "name \<noteq> []"
      "CHR ''='' \<notin> set name" "k = No_argument \<longrightarrow> v = []" "k = Required_argument \<and> st = Short_Joined \<longrightarrow> v \<noteq> []"
    by auto
  have long: "long_opt longs name as = (case k of No_argument \<Rightarrow> ((c, []), as)
      | Required_argument \<Rightarrow> (case as of [] \<Rightarrow> (unknown, []) | v # r \<Rightarrow> ((c, v), r)))"
    "k = Required_argument \<Longrightarrow> long_opt longs (name @ CHR ''='' # v) as = ((c, v), as)" for as
    using k(2) by (cases k; simp add: long_opt_def cut_name [OF k(5)])+
  have l: "getopt_long shorts longs ((CHR ''-'' # CHR ''-'' # name) # rest) = (let (o', r) = long_opt longs name rest in o' # getopt_long shorts longs r)" for rest
    using getopt_words(1) [of name] k(4) by simp
  have l2: "getopt_long shorts longs ((CHR ''-'' # CHR ''-'' # name @ CHR ''='' # v) # rest) = (let (o', r) = long_opt longs (name @ CHR ''='' # v) rest in o' # getopt_long shorts longs r)" for rest
    using getopt_words(1) [of "name @ CHR ''='' # v"] k(4) by simp
  have sh: "getopt_long shorts longs ((CHR ''-'' # c # cs) # rest) = (let (os, r) = short_opts shorts (c # cs) rest in os @ getopt_long shorts longs r)" for cs rest
    using getopt_words(2) k(3) by simp
  show ?thesis
  proof (cases k)
    case No_argument
    then show ?thesis using Option k(1) k(6) long(1)
      by (cases st) (simp_all add: l sh)
  next
    case Required_argument
    then show ?thesis using Option k(1) k(7) long
      by (cases st) (simp_all add: l l2 sh)
  qed
qed

lemma getopt_reads_back:
  assumes "\<forall>i \<in> set items. writable shorts longs i"
  shows "getopt_long shorts longs (concat (map (written shorts) items)) = concat (map item_options items)"
  using assms by (induction items) (simp_all add: getopt_written)

text \<open>Everything after a word \<^verbatim>\<open>--\<close> is left alone.\<close>

lemma getopt_reads_back_end:
  assumes "\<forall>i \<in> set items. writable shorts longs i" and "rest = [] \<or> take 1 rest = [''--'']"
  shows "getopt_long shorts longs (concat (map (written shorts) items) @ rest) = concat (map item_options items)"
proof -
  have "getopt_long shorts longs rest = []" using assms(2) by (cases rest) (auto simp: getopt_long.simps(2))
  then show ?thesis using assms(1) by (induction items) (simp_all add: getopt_written)
qed

end
