(* ===== verification/Bench_Console.thy ===== *)
theory Bench_Console
  imports Bench_Main Getopt
begin

text \<open>
  The command line and the console output of the benchmark program, \<^verbatim>\<open>bench/src/main.c\<close> and \<^verbatim>\<open>print_config\<close> in
  \<^verbatim>\<open>bench/src/bench_common.c\<close>: the option tables, the usage text, the configuration and the results.
\<close>

section \<open>The option tables\<close>

definition long_options :: "long_option list" where
  "long_options =
     [(''mode'', Required_argument, CHR ''m''), (''target-ip'', Required_argument, CHR ''t''),
      (''target-port'', Required_argument, CHR ''p''), (''listen-port'', Required_argument, CHR ''l''),
      (''data-size'', Required_argument, CHR ''s''), (''concurrency'', Required_argument, CHR ''c''),
      (''total-connections'', Required_argument, CHR ''n''), (''json'', Required_argument, CHR ''j''),
      (''csv'', Required_argument, CHR ''o''), (''verbose'', No_argument, CHR ''v''), (''help'', No_argument, CHR ''h'')]"

definition short_options :: "(char \<times> has_arg) list" where
  "short_options = optstring ''m:t:p:l:s:c:n:j:o:vh''"

text \<open>\<^verbatim>\<open>main\<close> on its argument vector.\<close>

definition bench_program :: "os \<Rightarrow> net \<Rightarrow> string list \<Rightarrow> hist \<Rightarrow> (int \<times> hist) outcome option" where
  "bench_program os net argv h = bench_main os net (getopt_long short_options long_options (tl argv)) h"

section \<open>Output\<close>

definition usage_lines :: "string \<Rightarrow> string list" where
  "usage_lines program_name =
     [''TLShub Benchmark Tool - Layer 7 Traffic Simulator'',
      [],
      ''Usage: '' @ program_name @ '' [OPTIONS]'',
      [],
      ''Options:'',
      ''  -m, --mode MODE           Operating mode: client or server (default: client)'',
      ''  -t, --target-ip IP        Target server IP address (default: 127.0.0.1)'',
      ''  -p, --target-port PORT    Target server port (default: 8080)'',
      ''  -l, --listen-port PORT    Echo server listen port (default: 9090)'',
      ''  -s, --data-size SIZE      Data size to send in bytes (default: 1024)'',
      ''  -c, --concurrency NUM     Number of concurrent connections (default: 1)'',
      ''                            Note: Currently used for planning; actual execution'',
      ''                            is sequential. True concurrency in future versions.'',
      ''  -n, --total-connections NUM  Total number of connections (default: 10)'',
      ''  -j, --json FILE           Output JSON file (default: bench_metrics_<timestamp>.json)'',
      ''  -o, --csv FILE            Output CSV file (default: bench_metrics_<timestamp>.csv)'',
      ''  -v, --verbose             Enable verbose output'',
      ''  -h, --help                Show this help message'',
      [],
      ''Examples:'',
      ''  # Run echo server'',
      ''  '' @ program_name @ '' --mode server --listen-port 9090'',
      [],
      ''  # Run client test'',
      ''  '' @ program_name @ '' --mode client --target-ip 127.0.0.1 --target-port 9090 '' @ [CHR 0x5C],
      ''    --data-size 4096 --total-connections 100'',
      [],
      ''  # Run server and client in separate terminals'',
      ''  # Terminal 1:'',
      ''  '' @ program_name @ '' --mode server --listen-port 9090'',
      ''  # Terminal 2:'',
      ''  '' @ program_name @ '' --mode client --target-port 9090'',
      [],
      ''Integration with TLShub:'',
      ''  1. Ensure TLShub kernel module is loaded'',
      ''  2. Configure TLShub to intercept traffic to target IP:port'',
      ''  3. Start echo server: '' @ program_name @ '' --mode server'',
      ''  4. Run client benchmark: '' @ program_name @ '' --mode client'',
      ''  5. Check metrics in generated JSON/CSV files'',
      []]"

definition print_usage :: "string \<Rightarrow> string" where
  "print_usage program_name = text_lines (usage_lines program_name)"

definition config_lines :: "bench_config \<Rightarrow> string list" where
  "config_lines config =
     [''=== TLShub Benchmark Configuration ==='',
      ''Mode: '' @ (if bc_mode config = MODE_CLIENT then ''Client'' else ''Server'')] @
     (if bc_mode config = MODE_CLIENT then
        [''Target: '' @ c_str (bc_target_ip config) @ '':'' @ show_u16 (bc_target_port config),
         ''Data Size: '' @ show_u64 (bc_data_size config) @ '' bytes'',
         ''Concurrency: '' @ show_int (bc_concurrency config) @ '' (sequential execution)'',
         ''Total Connections: '' @ show_int (bc_total_connections config)]
      else []) @
     (if bc_mode config = MODE_SERVER then [''Listen Port: '' @ show_u16 (bc_listen_port config)] else []) @
     [''Output JSON: '' @ c_str (bc_output_json config), ''Output CSV: '' @ c_str (bc_output_csv config),
      ''====================================='', []]"

definition print_config :: "bench_config \<Rightarrow> string" where
  "print_config config = text_lines (config_lines config)"

text \<open>The summary printed after a client run.\<close>

definition result_lines :: "global_metrics \<Rightarrow> string list" where
  "result_lines m =
     [''=== Benchmark Results ==='',
      ''Total Connections: '' @ show_int (gm_total_connections m),
      ''Successful: '' @ show_int (gm_successful_connections m),
      ''Failed: '' @ show_int (gm_failed_connections m),
      ''Timeout: '' @ show_int (gm_timeout_connections m),
      ''Total Bytes Sent: '' @ show_u64 (gm_total_bytes_sent m),
      ''Total Bytes Received: '' @ show_u64 (gm_total_bytes_received m),
      ''Avg Connection Latency: '' @ show_fixed 3 (gm_avg_connection_latency_ms m) @ '' ms'',
      ''Min Connection Latency: '' @ show_fixed 3 (gm_min_connection_latency_ms m) @ '' ms'',
      ''Max Connection Latency: '' @ show_fixed 3 (gm_max_connection_latency_ms m) @ '' ms'',
      ''Avg Throughput: '' @ show_fixed 3 (gm_avg_throughput_mbps m) @ '' Mbps'',
      ''Total Test Duration: '' @ show_fixed 3 (gm_total_test_duration_sec m) @ '' sec'',
      ''CPU Usage: '' @ show_fixed 2 (gm_cpu_usage_percent m) @ ''%'',
      ''Memory Usage: '' @ show_fixed 2 (gm_memory_usage_mb m) @ '' MB'',
      ''========================'', []]"

text \<open>
  The branch for a mode that is neither client nor server. \<^verbatim>\<open>parse_mode\<close> produces only these two, so \<^verbatim>\<open>main\<close>
  never gets there.
\<close>

definition invalid_mode_lines :: "string \<Rightarrow> bench_config \<Rightarrow> string list" where
  "invalid_mode_lines program_name config =
     [''Invalid mode. Use --mode client or --mode server'', ''Run server and client in separate terminals:'',
      ''  Terminal 1: '' @ program_name @ '' --mode server --listen-port '' @ show_u16 (bc_listen_port config),
      ''  Terminal 2: '' @ program_name @ '' --mode client --target-port '' @ show_u16 (bc_listen_port config)]"

section \<open>The command line is read as it was written\<close>

lemma short_options_table: "short_options =
   [(CHR ''m'', Required_argument), (CHR ''t'', Required_argument), (CHR ''p'', Required_argument), (CHR ''l'', Required_argument),
    (CHR ''s'', Required_argument), (CHR ''c'', Required_argument), (CHR ''n'', Required_argument), (CHR ''j'', Required_argument),
    (CHR ''o'', Required_argument), (CHR ''v'', No_argument), (CHR ''h'', No_argument)]"
  by (simp add: short_options_def)

text \<open>An option of the table, in one of the four styles: with its long name or its character, the argument joined or not.\<close>

fun table_item :: "cmd_item \<Rightarrow> bool" where
  "table_item (Operand w) \<longleftrightarrow> take 1 w \<noteq> ''-''"
| "table_item (Option st name c v) \<longleftrightarrow>
     (\<exists>k. (name, k, c) \<in> set long_options \<and> (k = No_argument \<longrightarrow> v = []) \<and> (st = Short_Joined \<and> k = Required_argument \<longrightarrow> v \<noteq> []))"

definition tables_agree :: "(char \<times> has_arg) list \<Rightarrow> long_option list \<Rightarrow> bool" where
  "tables_agree shorts longs \<longleftrightarrow>
     list_all (\<lambda>(name, k, c). c \<noteq> CHR ''-'' \<and> name \<noteq> [] \<and> \<not> List.member name (CHR ''='') \<and> map_of shorts c = Some k \<and>
                 find_long longs name = Some (k, c)) longs"

lemma option_tables_agree: "tables_agree short_options long_options"
  by code_simp

lemma table_item_writable: "table_item i \<Longrightarrow> writable short_options long_options i"
proof (cases i)
  case (Option st name c v)
  assume "table_item i"
  with Option obtain k where k: "(name, k, c) \<in> set long_options" "k = No_argument \<longrightarrow> v = []"
      "st = Short_Joined \<and> k = Required_argument \<longrightarrow> v \<noteq> []"
    by auto
  with option_tables_agree have "c \<noteq> CHR ''-'' \<and> name \<noteq> [] \<and> CHR ''='' \<notin> set name \<and> map_of short_options c = Some k \<and>
      find_long long_options name = Some (k, c)"
    by (auto simp: tables_agree_def list_all_iff)
  then show ?thesis using k Option by auto
qed simp

text \<open>
  The settings a user can make, independent of the tables: the letter and the long name the usage text gives each, the
  text of its argument, the values that are allowed, and what the setting does to the configuration. A text is stored with
  zeros up to the end of its array.
\<close>

datatype setting =
    Set_Mode bench_mode
  | Set_Target_Ip string
  | Set_Target_Port u16
  | Set_Listen_Port u16
  | Set_Data_Size nat
  | Set_Concurrency nat
  | Set_Connections nat
  | Set_Json string
  | Set_Csv string
  | Set_Verbose

fun setting_letter :: "setting \<Rightarrow> char" where
  "setting_letter (Set_Mode m) = CHR ''m''"
| "setting_letter (Set_Target_Ip s) = CHR ''t''"
| "setting_letter (Set_Target_Port p) = CHR ''p''"
| "setting_letter (Set_Listen_Port p) = CHR ''l''"
| "setting_letter (Set_Data_Size n) = CHR ''s''"
| "setting_letter (Set_Concurrency n) = CHR ''c''"
| "setting_letter (Set_Connections n) = CHR ''n''"
| "setting_letter (Set_Json s) = CHR ''j''"
| "setting_letter (Set_Csv s) = CHR ''o''"
| "setting_letter Set_Verbose = CHR ''v''"

fun setting_name :: "setting \<Rightarrow> string" where
  "setting_name (Set_Mode m) = ''mode''"
| "setting_name (Set_Target_Ip s) = ''target-ip''"
| "setting_name (Set_Target_Port p) = ''target-port''"
| "setting_name (Set_Listen_Port p) = ''listen-port''"
| "setting_name (Set_Data_Size n) = ''data-size''"
| "setting_name (Set_Concurrency n) = ''concurrency''"
| "setting_name (Set_Connections n) = ''total-connections''"
| "setting_name (Set_Json s) = ''json''"
| "setting_name (Set_Csv s) = ''csv''"
| "setting_name Set_Verbose = ''verbose''"

fun setting_value :: "setting \<Rightarrow> string" where
  "setting_value (Set_Mode m) = (case m of MODE_CLIENT \<Rightarrow> ''client'' | MODE_SERVER \<Rightarrow> ''server'')"
| "setting_value (Set_Target_Ip s) = s"
| "setting_value (Set_Target_Port p) = show_nat (unat p)"
| "setting_value (Set_Listen_Port p) = show_nat (unat p)"
| "setting_value (Set_Data_Size n) = show_nat n"
| "setting_value (Set_Concurrency n) = show_nat n"
| "setting_value (Set_Connections n) = show_nat n"
| "setting_value (Set_Json s) = s"
| "setting_value (Set_Csv s) = s"
| "setting_value Set_Verbose = []"

fun legal_setting :: "setting \<Rightarrow> bool" where
  "legal_setting (Set_Target_Ip s) \<longleftrightarrow> s \<noteq> [] \<and> length s \<le> 255"
| "legal_setting (Set_Target_Port p) \<longleftrightarrow> 0 < p"
| "legal_setting (Set_Listen_Port p) \<longleftrightarrow> 0 < p"
| "legal_setting (Set_Data_Size n) \<longleftrightarrow> 1 \<le> n \<and> n \<le> 10485760"
| "legal_setting (Set_Concurrency n) \<longleftrightarrow> 1 \<le> n \<and> n \<le> 1000"
| "legal_setting (Set_Connections n) \<longleftrightarrow> 1 \<le> n \<and> n \<le> 10000"
| "legal_setting (Set_Json s) \<longleftrightarrow> s \<noteq> [] \<and> length s \<le> 511"
| "legal_setting (Set_Csv s) \<longleftrightarrow> s \<noteq> [] \<and> length s \<le> 511"
| "legal_setting _ \<longleftrightarrow> True"

fun apply_setting :: "bench_config \<Rightarrow> setting \<Rightarrow> bench_config" where
  "apply_setting c (Set_Mode m) = c\<lparr>bc_mode := m\<rparr>"
| "apply_setting c (Set_Target_Ip s) = c\<lparr>bc_target_ip := s @ replicate (256 - length s) NUL\<rparr>"
| "apply_setting c (Set_Target_Port p) = c\<lparr>bc_target_port := p\<rparr>"
| "apply_setting c (Set_Listen_Port p) = c\<lparr>bc_listen_port := p\<rparr>"
| "apply_setting c (Set_Data_Size n) = c\<lparr>bc_data_size := of_nat n\<rparr>"
| "apply_setting c (Set_Concurrency n) = c\<lparr>bc_concurrency := int n\<rparr>"
| "apply_setting c (Set_Connections n) = c\<lparr>bc_total_connections := int n\<rparr>"
| "apply_setting c (Set_Json s) = c\<lparr>bc_output_json := s @ replicate (512 - length s) NUL\<rparr>"
| "apply_setting c (Set_Csv s) = c\<lparr>bc_output_csv := s @ replicate (512 - length s) NUL\<rparr>"
| "apply_setting c Set_Verbose = c\<lparr>bc_verbose := True\<rparr>"

text \<open>A command line: settings in one of four styles, mixed with other words.\<close>

datatype cmd_word = Given arg_style setting | Other string

fun spelled :: "cmd_word \<Rightarrow> string list" where
  "spelled (Other w) = [w]"
| "spelled (Given st s) =
     (if s = Set_Verbose then (if st = Long_Word \<or> st = Long_Equals then [''--verbose''] else [''-v''])
      else (case st of
              Long_Word \<Rightarrow> [''--'' @ setting_name s, setting_value s]
            | Long_Equals \<Rightarrow> [''--'' @ setting_name s @ ''='' @ setting_value s]
            | Short_Word \<Rightarrow> [''-'' @ [setting_letter s], setting_value s]
            | Short_Joined \<Rightarrow> [''-'' @ [setting_letter s] @ setting_value s]))"

fun legal_word :: "cmd_word \<Rightarrow> bool" where
  "legal_word (Other w) \<longleftrightarrow> take 1 w \<noteq> ''-''"
| "legal_word (Given st s) \<longleftrightarrow> legal_setting s"

fun word_settings :: "cmd_word \<Rightarrow> setting list" where
  "word_settings (Other w) = []"
| "word_settings (Given st s) = [s]"

fun word_item :: "cmd_word \<Rightarrow> cmd_item" where
  "word_item (Other w) = Operand w"
| "word_item (Given st s) = Option st (setting_name s) (setting_letter s) (setting_value s)"

lemma setting_value_nonempty: "legal_setting s \<Longrightarrow> s \<noteq> Set_Verbose \<Longrightarrow> setting_value s \<noteq> []"
  by (cases s) (auto split: bench_mode.splits)

lemma word_item_table: "legal_word w \<Longrightarrow> table_item (word_item w)"
proof (cases w)
  case (Given st s)
  assume "legal_word w"
  then have l: "legal_setting s" using Given by simp
  show ?thesis using setting_value_nonempty [OF l] by (cases s) (auto simp: Given long_options_def)
qed simp

lemma setting_kind: "map_of short_options (setting_letter s) = Some (if s = Set_Verbose then No_argument else Required_argument)"
  by (cases s) (simp_all add: short_options_table)

lemma word_item_written: "written short_options (word_item w) = spelled w"
proof (cases w)
  case (Given st s)
  then show ?thesis using setting_kind [of s] by (cases "s = Set_Verbose"; cases st) auto
qed simp

lemma strncpy_text: "terminated (Suc n) a \<Longrightarrow> length s \<le> n \<Longrightarrow> strncpy a s n = s @ replicate (Suc n - length s) NUL"
proof -
  assume a: "terminated (Suc n) a" and s: "length s \<le> n"
  then have "drop n a = [NUL]" using Cons_nth_drop_Suc [of n a] by (simp add: terminated_def)
  then show ?thesis using s by (simp add: strncpy_def Suc_diff_le replicate_append_same)
qed

lemma setting_parsed:
  assumes "legal_setting s" and "valid_config c"
  shows "parse_option c (setting_letter s, setting_value s) = Inr (apply_setting c s)"
proof (cases s)
  case (Set_Data_Size n)
  then have "unat (of_nat n :: u64) = n" using assms(1) by (simp add: unat_of_nat take_bit_nat_def)
  then have "(of_nat n :: u64) \<noteq> 0" "\<not> (of_nat n :: u64) > 10485760"
    using Set_Data_Size assms(1) by (auto simp: word_less_nat_alt)
  then show ?thesis using Set_Data_Size assms(1) by (simp add: parse_option_def atoi_show_nat)
next
  case (Set_Target_Ip t)
  then show ?thesis using assms strncpy_text [of 255] by (simp add: parse_option_def valid_config_def)
next
  case (Set_Json t)
  then show ?thesis using assms strncpy_text [of 511] by (simp add: parse_option_def valid_config_def)
next
  case (Set_Csv t)
  then show ?thesis using assms strncpy_text [of 511] by (simp add: parse_option_def valid_config_def)
qed (use assms in \<open>auto simp: parse_option_def parse_mode_def parse_port_show atoi_show_nat MAX_CONNECTIONS_def split: bench_mode.splits\<close>)

lemma settings_parsed:
  "\<forall>s \<in> set ss. legal_setting s \<Longrightarrow> valid_config c \<Longrightarrow>
     parse_options c (map (\<lambda>s. (setting_letter s, setting_value s)) ss) = Inr (foldl apply_setting c ss)"
proof (induction ss arbitrary: c)
  case (Cons s ss)
  then have p: "parse_option c (setting_letter s, setting_value s) = Inr (apply_setting c s)" by (simp add: setting_parsed)
  then have "valid_config (apply_setting c s)" using parse_option_valid Cons.prems(2) by blast
  then show ?case using Cons p by simp
qed simp

text \<open>
  Property C6 (command_line_is_read_back). Take any sequence of settings with allowed values and of other words that do not start
  with a dash, where each setting is written with its long name or its letter and its argument as the next word or joined (after
  an equals sign for long names); optionally a word \<^verbatim>\<open>--\<close> and any words follow. The program then runs with exactly the
  configuration these settings make of the defaults, in their order; the other words have no effect. (Abbreviated long names
  and several letters in one word are understood too, but are not part of this statement.)
\<close>

theorem command_line_is_read_back:
  assumes "\<forall>w \<in> set line. legal_word w" and "rest = [] \<or> take 1 rest = [''--'']"
  shows "bench_program os net (prog # concat (map spelled line) @ rest) h =
           (let (defaults, h1) = init_config os net h
            in run_mode os net (foldl apply_setting defaults (concat (map word_settings line))) h1)"
proof -
  let ?ss = "concat (map word_settings line)"
  obtain c0 h1 where init: "init_config os net h = (c0, h1)" by fastforce
  have "\<forall>i \<in> set (map word_item line). writable short_options long_options i"
    using assms(1) word_item_table table_item_writable by auto
  from getopt_reads_back_end [OF this assms(2)]
  have g: "getopt_long short_options long_options (concat (map spelled line) @ rest) = concat (map (item_options \<circ> word_item) line)"
    by (simp add: comp_def word_item_written)
  have "concat (map (item_options \<circ> word_item) line) = map (\<lambda>s. (setting_letter s, setting_value s)) ?ss"
  proof (induction line)
    case (Cons w ws)
    then show ?case by (cases w) simp_all
  qed simp
  moreover have "\<forall>s \<in> set ?ss. legal_setting s"
  proof
    fix s assume "s \<in> set ?ss"
    then obtain w where w: "w \<in> set line" "s \<in> set (word_settings w)" by auto
    then have "legal_word w" using assms(1) by blast
    with w(2) show "legal_setting s" by (cases w) auto
  qed
  moreover have "valid_config c0" using init_config_valid [of os net h] init by simp
  ultimately show ?thesis using settings_parsed [of ?ss c0] by (simp add: bench_program_def bench_main_def g init)
qed

theorem command_line_is_read_back_witness:
  "\<forall>os net h. bench_program os net [''bench'', ''-p443'', ''x'', ''--data-size=4096'', ''-n'', ''100'', ''--json'', ''a.json'', ''--verbose'', ''--'', ''-h''] h =
     (let (c, h1) = init_config os net h
      in run_mode os net (c\<lparr>bc_target_port := 443, bc_data_size := 4096, bc_total_connections := 100,
           bc_output_json := ''a.json'' @ replicate 506 NUL, bc_verbose := True\<rparr>) h1)"
proof (intro allI)
  fix os net h
  have n: "show_nat 443 = ''443''" "show_nat 4096 = ''4096''" "show_nat 100 = ''100''" by (simp_all add: show_nat_steps digit_char_values)
  show "bench_program os net [''bench'', ''-p443'', ''x'', ''--data-size=4096'', ''-n'', ''100'', ''--json'', ''a.json'', ''--verbose'', ''--'', ''-h''] h =
     (let (c, h1) = init_config os net h
      in run_mode os net (c\<lparr>bc_target_port := 443, bc_data_size := 4096, bc_total_connections := 100,
           bc_output_json := ''a.json'' @ replicate 506 NUL, bc_verbose := True\<rparr>) h1)"
    using command_line_is_read_back [of "[Given Short_Joined (Set_Target_Port 443), Other ''x'', Given Long_Equals (Set_Data_Size 4096),
        Given Short_Word (Set_Connections 100), Given Long_Word (Set_Json ''a.json''), Given Long_Word Set_Verbose]"
        "[''--'', ''-h'']" os net "''bench''" h]
    by (simp add: n)
qed

section \<open>What the usage text promises\<close>

lemma usage_splits: "CHR 0x0A \<notin> set program_name \<Longrightarrow> split_lines (print_usage program_name) = usage_lines program_name"
  unfolding print_usage_def by (rule split_text_lines) (simp add: usage_lines_def)

text \<open>The options a usage text documents: lines that start with two blanks, a dash and the character.\<close>

definition documented :: "string list \<Rightarrow> char list" where
  "documented ls = map (\<lambda>l. l ! 3) (filter (\<lambda>l. take 3 l = ''  -'') ls)"

text \<open>
  Remark (usage_documents_every_option). The usage text documents exactly the options of the tables, in their order,
  and every character that is not among them makes the program end with status 1.
\<close>

theorem usage_documents_every_option:
  assumes "CHR 0x0A \<notin> set program_name" and "take 1 program_name \<noteq> ''-''"
  shows "documented (split_lines (print_usage program_name)) = map (\<lambda>(name, k, c). c) long_options \<and>
         (c \<notin> set (documented (split_lines (print_usage program_name))) \<longrightarrow> parse_option config (c, v) = Inl 1)"
proof -
  have "documented (usage_lines program_name) = map (\<lambda>(name, k, c). c) long_options"
    using assms(2) by (cases program_name) (auto simp: usage_lines_def documented_def long_options_def numeral_3_eq_3)
  then show ?thesis using assms(1) by (auto simp: usage_splits long_options_def parse_option_def)
qed

theorem usage_documents_every_option_witness:
  "documented (split_lines (print_usage ''tlshub_bench'')) = ''mtplscnjovh''"
  using usage_documents_every_option [of "''tlshub_bench''"] by (simp add: long_options_def)

text \<open>The default a line states, at its end.\<close>

definition states_default :: "string list \<Rightarrow> char \<Rightarrow> string \<Rightarrow> bool" where
  "states_default ls c v \<longleftrightarrow> (\<exists>l \<in> set ls. take 4 l = ''  -'' @ [c] \<and> take (length v + 11) (rev l) = rev (''(default: '' @ v @ '')''))"

lemma take_rev_suffix: "n = length d \<Longrightarrow> take n (rev (x @ d)) = rev d" by simp
lemma states_default_line:
  assumes "i < length ls" and "ls ! i = ''  -'' @ c # l @ ''(default: '' @ v @ '')''"
  shows "states_default ls c v"
proof -
  let ?d = "''(default: '' @ v @ '')''"
  have "take (length v + 11) (rev ((''  -'' @ c # l) @ ?d)) = rev ?d" by (rule take_rev_suffix) simp
  then have "take (length v + 11) (rev (ls ! i)) = rev ?d" using assms(2) by (simp only: append_Cons append_assoc append_Nil)
  moreover have "take 4 (ls ! i) = ''  -'' @ [c]" using assms(2) by simp
  moreover have "ls ! i \<in> set ls" using assms(1) by (rule nth_mem)
  ultimately show ?thesis unfolding states_default_def by blast
qed

text \<open>
  Remark (usage_states_defaults). The defaults for ports, size, concurrency, number of connections and target address that the
  usage text states are those of \<^verbatim>\<open>init_config\<close>.
\<close>

theorem usage_states_defaults:
  "let config = fst (init_config os net h); ls = usage_lines program_name in
   states_default ls (CHR ''p'') (show_u16 (bc_target_port config)) \<and> states_default ls (CHR ''l'') (show_u16 (bc_listen_port config)) \<and>
   states_default ls (CHR ''s'') (show_u64 (bc_data_size config)) \<and> states_default ls (CHR ''c'') (show_int (bc_concurrency config)) \<and>
   states_default ls (CHR ''n'') (show_int (bc_total_connections config)) \<and>
   states_default ls (CHR ''t'') (c_str (bc_target_ip config))"
proof -
  have n: "show_nat 8080 = ''8080''" "show_nat 9090 = ''9090''" "show_nat 1024 = ''1024''" "show_nat (Suc 0) = ''1''" "show_nat 10 = ''10''"
    by (simp_all add: show_nat_steps digit_char_values)
  have t: "c_str (snprintf_array 256 ''127.0.0.1'') = ''127.0.0.1''" by (rule c_str_snprintf_array) (simp_all add: NUL_def)
  have v: "show_u16 (bc_target_port config) = ''8080''" "show_u16 (bc_listen_port config) = ''9090''"
    "show_u64 (bc_data_size config) = ''1024''" "show_int (bc_concurrency config) = ''1''"
    "show_int (bc_total_connections config) = ''10''" "c_str (bc_target_ip config) = ''127.0.0.1''"
    if "config = fst (init_config os net h)" for config
    using that t by (simp_all add: init_config_def now_def Let_def show_u16_def show_u64_def show_int_def n)
  have p: "states_default (usage_lines program_name) (CHR ''p'') ''8080''"
    by (rule states_default_line [of 7 _ _ "'', --target-port PORT    Target server port ''"]) (simp_all add: usage_lines_def)
  have l: "states_default (usage_lines program_name) (CHR ''l'') ''9090''"
    by (rule states_default_line [of 8 _ _ "'', --listen-port PORT    Echo server listen port ''"]) (simp_all add: usage_lines_def)
  have s: "states_default (usage_lines program_name) (CHR ''s'') ''1024''"
    by (rule states_default_line [of 9 _ _ "'', --data-size SIZE      Data size to send in bytes ''"]) (simp_all add: usage_lines_def)
  have c: "states_default (usage_lines program_name) (CHR ''c'') ''1''"
    by (rule states_default_line [of 10 _ _ "'', --concurrency NUM     Number of concurrent connections ''"]) (simp_all add: usage_lines_def)
  have num: "states_default (usage_lines program_name) (CHR ''n'') ''10''"
    by (rule states_default_line [of 13 _ _ "'', --total-connections NUM  Total number of connections ''"]) (simp_all add: usage_lines_def)
  have t_line: "states_default (usage_lines program_name) (CHR ''t'') ''127.0.0.1''"
    by (rule states_default_line [of 6 _ _ "'', --target-ip IP        Target server IP address ''"]) (simp_all add: usage_lines_def)
  show ?thesis by (simp add: Let_def v p l s c num t_line)
qed

end
