(* ===== verification/Spec2Isabelle.thy ===== *)
theory Spec2Isabelle
  imports Api_Console Tlshub_Threads Capture_Smp Capture_Pipeline Bench_Console
begin

text \<open>
  \<^bold>\<open>TLShub-eBPF: a verification library.\<close>

  \<^bold>\<open>The program.\<close> TLShub keeps TLS session keys in the kernel and hands them to user space over a Netlink
  socket. The repository holds its user-space side. \<^verbatim>\<open>tlshub-api/tlshub.c\<close> is a library an application
  links to ask for a handshake between two Pods and to fetch the session key. \<^verbatim>\<open>capture/\<close> is a program that needs no
  change to the application: kernel probes (\<^verbatim>\<open>capture.bpf.c\<close>) notice a new TCP connection at its first send and report
  it through a perf buffer; \<^verbatim>\<open>main.c\<close> receives the report, asks \<^verbatim>\<open>key_provider.c\<close> for a key, which in turn
  asks TLShub (\<^verbatim>\<open>tlshub_client.c\<close>) or derives one with OpenSSL and installs it (\<^verbatim>\<open>ktls_config.c\<close>), and
  books the outcome in \<^verbatim>\<open>performance_metrics.c\<close>; \<^verbatim>\<open>pod_mapping.c\<close> holds the table of Pods and nodes.
  \<^verbatim>\<open>bench/\<close> is a separate load generator: a client that sends a pattern over many TCP connections and measures them, and
  an echo server for it. \<^verbatim>\<open>tlshub-api/hypertls.c\<close> is a second copy of the API under an older name, and
  \<^verbatim>\<open>tlshub_handshake.c\<close> and \<^verbatim>\<open>hypertls_handshake.c\<close> are test drivers for the two libraries.

  \<^bold>\<open>Environment.\<close> The kernel, the C allocator, the clock, libbpf and OpenSSL are not in the repository.
  They are arguments of the definitions: \<open>Posix\<close> has a record \<open>os\<close> with one function per system call,
  which answers from the history of all earlier calls; \<open>Capture_Main\<close> has the same for libbpf,
  \<open>Key_Provider\<close> for OpenSSL and \<open>Bench_Net\<close> for TCP sockets. A model of a C function takes that record and a history and returns its result with the
  longer history, and the theorems hold for every environment, so for every pattern of failures. The
  history is the observable behaviour: messages sent, socket options set, descriptors opened and closed, memory
  allocated and freed. A call that blocks for ever is the value \<open>None\<close>; an access C leaves
  undefined is a separate outcome, never a default value: the accesses to the metrics slots and to the connection array of
  the benchmark tool, in the run and in both exports, check their index.

  \<^bold>\<open>Theories.\<close>
  \<^item> \<open>Prelude\<close>: machine integer types, little-endian byte images, \<^verbatim>\<open>htons\<close>, outcomes of C functions, and
    the locale \<open>invariant_steps\<close> (an invariant kept by every operation holds after every sequence of operations),
    interpreted for the API, the client, the probes, the metrics and the handler.
  \<^item> \<open>Loops\<close>: loops around system calls, \<open>iterate\<close>, with the locales \<open>loop_contract\<close> (what holds when the loop is left) and
    \<open>total_loop\<close>, which extends it (a measure makes the loop end); interpreted for the send, receive, drain, echo and accept
    loops of the benchmark tool.
  \<^item> \<open>Posix\<close>: system calls, histories, balances of descriptors, memory, files and libbpf objects.
  \<^item> \<open>CLib\<close>: character arrays, \<^verbatim>\<open>fgets\<close>, \<^verbatim>\<open>sscanf\<close>, \<^verbatim>\<open>strncpy\<close>, \<^verbatim>\<open>inet_pton\<close>, number conversions and output;
    \<open>Text_Export\<close>: the pieces of JSON and CSV texts.
  \<^item> \<open>Netlink_Msg\<close>, \<open>Netlink_Wait\<close>: the request, reply and key structures as byte images and the receive loop both
    Netlink clients use, with the exact condition under which it returns and what it then returns.
  \<^item> \<open>Tlshub_Api\<close> (\<^verbatim>\<open>tlshub.c\<close>, \<^verbatim>\<open>tlshub.h\<close>): per-thread context, \<^verbatim>\<open>tls_service_init\<close>, \<^verbatim>\<open>tlshub_handshake\<close>,
    \<^verbatim>\<open>tlshub_fetch_key\<close>. Shown: results as a function of the kernel's replies, key round trip, wire layout,
    addressee of requests, resources held after any sequence of calls; a sequence of calls collects the result of each
    (\<open>call_result\<close>).
  \<^item> \<open>Tlshub_Segments\<close>: handshake and key fetch cut into segments, proved to be the two functions; \<open>Tlshub_Threads\<close>: the calls of
    several threads, whose segments interleave, as an inductive step relation. Shown: an undisturbed thread performs the
    sequential call; whose sockets a thread uses; what a thread has received when its handshake succeeds or its fetch
    returns a key; what the shared start time does to the printed times.
  \<^item> \<open>Api_Console\<close>: the log function, the receive loop with its messages and the hex dump of both libraries.
  \<^item> \<open>Capture_Types\<close>, \<open>Tlshub_Client\<close> (\<^verbatim>\<open>tlshub_client.c\<close>): the process-wide client and the same questions for it.
  \<^item> \<open>Ktls_Config\<close> (\<^verbatim>\<open>ktls_config.c\<close>): the image of the parameter block and the three socket options.
  \<^item> \<open>Key_Provider\<close> (\<^verbatim>\<open>key_provider.c\<close>): the locale \<open>key_source\<close> states what the provider needs from a client
    (an operation fills the record or leaves it alone); it is interpreted on the TLShub client. Shown: with which bytes the
    record is filled in each mode, and what of a TLShub key reaches the kernel.
  \<^item> \<open>Pod_Mapping\<close> (\<^verbatim>\<open>pod_mapping.c\<close>): table, file format, look-up as first match, buffer overflow on long words.
  \<^item> \<open>Capture_Bpf\<close> (\<^verbatim>\<open>capture.bpf.c\<close>): the probes over the locale \<open>bpf_hash\<close> of bounded hash maps; at
    most one event per connect, what an event says, when a connection is captured, what the maps hold after any run.
  \<^item> \<open>Capture_Smp\<close>: the same probes split at their map accesses, as an inductive step relation over several CPUs;
    here, unlike in \<open>Capture_Bpf\<close> and \<open>Capture_Pipeline\<close>, two sends can overlap.
  \<^item> \<open>Perf_Metrics\<close>, \<open>Perf_Recording\<close>, \<open>Perf_Report\<close>, \<open>Perf_Export\<close> (\<^verbatim>\<open>performance_metrics.c\<close>): recording, its
    invariant and bounds, summary statistics, JSON and CSV files; \<open>Perf_Console\<close>: the printed report, byte for byte.
  \<^item> \<open>Capture_Handler\<close>, \<open>Capture_Config\<close>, \<open>Capture_Main\<close> (\<^verbatim>\<open>main.c\<close>): the event handler, the configuration
    file, set-up, polling loop and clean-up of the whole program; \<open>Example_Programs\<close>: the two programs under \<^verbatim>\<open>capture/test\<close>.
  \<^item> \<open>Capture_Pipeline\<close>: probes, event buffer, polling loop, handler, metrics and report together: the printed totals against
    the events polled and the connect calls traced.
  \<^item> \<open>Hypertls_Api\<close> (\<^verbatim>\<open>hypertls.c\<close>): its own translation, equal to \<open>Tlshub_Api\<close> function by function;
    \<open>Handshake_Driver\<close>: the two test drivers, and exactly when they report success.
  \<^item> \<open>Bench_Net\<close>: streams of a connection and the loop that sends a buffer; \<open>Bench_Common\<close>, \<open>Bench_Export\<close>
    (\<^verbatim>\<open>bench_common.c\<close>): metrics and result files; \<open>Bench_Client\<close> (\<^verbatim>\<open>tcp_client.c\<close>) and \<open>Bench_Echo\<close> (\<^verbatim>\<open>echo_server.c\<close>): one
    connection, a run, the server, with resources, accounting and what is echoed; \<open>Bench_Transfer\<close>: client and server
    succeed together on healthy connections; \<open>Bench_Main\<close> (\<^verbatim>\<open>bench/src/main.c\<close>): options and the whole program;
    \<open>Getopt\<close>: \<^verbatim>\<open>getopt_long\<close> of the GNU C library; \<open>Bench_Console\<close>: the program on its command line, usage text,
    printed configuration and results. Command lines are lists of settings in every documented spelling, words that are no
    options and an end mark; abbreviated long names and clusters of letters are part of \<open>Getopt\<close> but of no theorem.

  \<^bold>\<open>Bounds and termination.\<close> The receive loops are \<^theory_text>\<open>partial_function (option)\<close>: a run without a decisive reply is
  \<open>None\<close>, and the theorems state both directions. The polling loop of \<^verbatim>\<open>main\<close> takes the list of poll results it sees. The loops of the
  benchmark tool are \<open>iterate\<close> over one turn; that they end is proved for connections that accept and deliver data with
  at most \<open>K\<close> interrupted calls, by the measure of the data still missing plus the interrupts still possible. All
  other functions are total, most by structural recursion. Integers have the width of the C type; \<^verbatim>\<open>double\<close> is
  modelled by the reals, so rounding is not visible. Bytes are little-endian, as on the x86-64 target of the Makefiles.

  \<^bold>\<open>Not modelled.\<close> Messages that only report progress or an error (reports, usage texts, results and the messages the API
  prints of received data are modelled), data races on the shared start time within one reading of the clock, the
  internals of the kernel module, libbpf and OpenSSL, the build files and shell scripts.
\<close>

section \<open>Across the programs\<close>

text \<open>
  The capture program and the benchmark tool measure CPU usage with separate code over the same counters; the benchmark
  tool also reads the time stolen by a hypervisor.
\<close>

definition without_steal :: "cpu_times \<Rightarrow> cpu_stat" where
  "without_steal c =
     \<lparr>cs_user = ct_user c, cs_nice = ct_nice c, cs_system = ct_system c, cs_idle = ct_idle c, cs_iowait = ct_iowait c,
      cs_irq = ct_irq c, cs_softirq = ct_softirq c\<rparr>"

text \<open>
  Remark (both_programs_measure_cpu_alike). Between two readings in which the stolen time did not change, the CPU usage the
  benchmark tool computes is the one the capture program computes from the seven counters it reads, also when counters wrapped
  around.
\<close>

theorem both_programs_measure_cpu_alike:
  assumes "ct_steal cur = ct_steal prev"
  shows "cpu_share prev cur = calculate_cpu_usage (without_steal prev) (without_steal cur)"
proof -
  have "ct_total cur - ct_total prev = cpu_total (without_steal cur) - cpu_total (without_steal prev)"
    using assms by (simp add: ct_total_def cpu_total_def without_steal_def)
  moreover have "ct_idle_total c = cpu_idle (without_steal c)" for c
    by (simp add: ct_idle_total_def cpu_idle_def without_steal_def)
  ultimately show ?thesis by (auto simp: cpu_share_def calculate_cpu_usage_def Let_def word_gt_0)
qed

theorem both_programs_measure_cpu_alike_witness:
  "cpu_share (zero_cpu_times\<lparr>ct_user := 10\<rparr>) (zero_cpu_times\<lparr>ct_user := 40, ct_idle := 70\<rparr>) =
     calculate_cpu_usage (without_steal (zero_cpu_times\<lparr>ct_user := 10\<rparr>)) (without_steal (zero_cpu_times\<lparr>ct_user := 40, ct_idle := 70\<rparr>))"
  using both_programs_measure_cpu_alike [of "zero_cpu_times\<lparr>ct_user := 40, ct_idle := 70\<rparr>" "zero_cpu_times\<lparr>ct_user := 10\<rparr>"]
  by (simp add: zero_cpu_times_def)

end
